theory Spec2Isabelle
  imports Main "HOL-Library.Word"
begin

unbundle bit_operations_syntax

section \<open>Bytes, errors and the byte-stream abstraction\<close>

type_synonym byte = "8 word"
type_synonym u16 = "16 word"
type_synonym i64 = "64 word"

text \<open>
  \<open>int64\<close> values are 64-bit words read as two's complement by \<open>sint\<close>.
  Go strings are byte sequences, so \<open>UserID\<close>, \<open>Domain\<close>, \<open>Username\<close> and
  \<open>Password\<close> are byte lists and \<open>len\<close> is \<open>length\<close>.

  One error type for the whole module: the sentinel errors of \<open>io\<close>, the
  \<open>errors.New\<close> values of the packages \<open>socks4\<close> and \<open>socks5\<close> (those of
  \<open>socks5\<close> that clash with a \<open>socks4\<close> name carry the suffix 5), and the
  \<open>fmt.Errorf\<close> wrappers of the dialer and the listener, one constructor per format
  string with the formatted arguments as constructor arguments.
\<close>

datatype error =
    EOF
  | ErrUnexpectedEOF
  | ErrClosed
  | ErrNoProgress
  | ErrBufferFull
  | ErrTransport nat
  | ErrInvalidVersion
  | ErrInvalidCommand
  | ErrInvalidIP
  | ErrInvalidDomain
  | ErrInvalidResponseVersion
  | ErrInvalidResponseCode
  | ErrInvalidHandshakeVersion
  | ErrTooManyMethods
  | ErrNoMethodsProvided
  | ErrInvalidHandshakeReplyVersion
  | ErrInvalidVersion5
  | ErrInvalidCommand5
  | ErrInvalidAddr
  | ErrInvalidDomain5
  | ErrInvalidRSV
  | ErrInvalidReplyVersion
  | ErrInvalidReplyRSV
  | ErrInvalidReplyAddr
  | ErrInvalidReplyDomain
  | ErrInvalidUserPassVersion
  | ErrEmptyUserPassUsername
  | ErrEmptyUserPassPassword
  | ErrUserPassTooLong
  | ErrInvalidUserPassReplyVersion
  | ErrInvalidGSSAPIVersion
  | ErrEmptyGSSAPIToken
  | ErrGSSAPITokenTooLong
  | ErrInvalidGSSAPIReplyVersion
  | ErrEmptyGSSAPIReplyToken
  | ErrGSSAPIReplyTooLong
  | ErrInvalidUDPReserved
  | ErrUnsupportedFrag
  | ErrInvalidUDPAddrType
  | ErrInvalidUDPDomain
  | ErrMissingUDPData
  | ConnectToProxy error
  | InvalidTargetAddress error
  | InvalidTargetPort "byte list" error
  | SendRequest error
  | ReadResponse error
  | ProxyRejectedRequest byte
  | SendBindRequest error
  | ReadFirstBindResponse error
  | ProxyRejectedBindSetup byte
  | ReadSecondBindResponse error
  | ProxyRejectedBindFinalization byte
  | UnknownCommand byte
  | ConnectFailed error

subsection \<open>Readers\<close>

text \<open>
  An \<open>io.Reader\<close> over an in-memory buffer (\<open>bytes.Reader\<close>, \<open>bytes.Buffer\<close>, as the
  tests of the repository use): the state is the list of bytes not yet read, a \<open>Read\<close>
  into a buffer of \<open>n\<close> bytes delivers \<open>min n (length src)\<close> bytes, and at the end of
  the data it returns \<open>io.EOF\<close>.
\<close>

type_synonym reader = "byte list"

definition Read :: "reader \<Rightarrow> nat \<Rightarrow> byte list \<times> error option \<times> reader" where
  "Read src n =
     (if src = [] then ([], Some EOF, [])
      else (take n src, None, drop n src))"

text \<open>
  \<open>io.ReadFull(src, b_buf)\<close> with \<open>len(b_buf) = n\<close>: without an error exactly \<open>n\<close> bytes;
  \<open>io.EOF\<close> when no byte could be read, \<open>io.ErrUnexpectedEOF\<close> when the data ends
  after some but not all bytes. A buffer of length 0 is filled without reading.
\<close>

definition ReadFull :: "reader \<Rightarrow> nat \<Rightarrow> byte list \<times> error option \<times> reader" where
  "ReadFull src n =
     (if n = 0 then ([], None, src)
      else if n \<le> length src then (take n src, None, drop n src)
      else if src = [] then ([], Some EOF, [])
      else (src, Some ErrUnexpectedEOF, []))"

text \<open>\<open>io.ReadAll\<close>: everything up to the end of the data; \<open>io.EOF\<close> is not an error.\<close>

definition ReadAll :: "reader \<Rightarrow> byte list \<times> error option \<times> reader" where
  "ReadAll src = (src, None, [])"

subsection \<open>Writers\<close>

text \<open>
  An \<open>io.Writer\<close> that records what it accepted and may fail: \<open>w_faults w i\<close> is the
  outcome of the \<open>i\<close>-th call of \<open>Write\<close> (counted from 0): \<open>None\<close> accepts the
  whole slice, \<open>Some (k, e)\<close> accepts at most \<open>k\<close> bytes and returns the error \<open>e\<close>.
  \<open>bytes.Buffer\<close> is the writer that never fails.
\<close>

record writer =
  w_out :: "byte list"
  w_calls :: nat
  w_faults :: "nat \<Rightarrow> (nat \<times> error) option"

definition Write :: "writer \<Rightarrow> byte list \<Rightarrow> nat \<times> error option \<times> writer" where
  "Write w p =
     (case w_faults w (w_calls w) of
        None \<Rightarrow> (length p, None, w\<lparr>w_out := w_out w @ p, w_calls := Suc (w_calls w)\<rparr>)
      | Some (k, e) \<Rightarrow>
          (min k (length p), Some e, w\<lparr>w_out := w_out w @ take k p, w_calls := Suc (w_calls w)\<rparr>))"

definition buffer :: writer where
  "buffer = \<lparr>w_out = [], w_calls = 0, w_faults = (\<lambda>_. None)\<rparr>"

subsection \<open>Big-endian 16-bit fields\<close>

text \<open>\<open>binary.BigEndian.PutUint16\<close> and \<open>binary.BigEndian.Uint16\<close>.\<close>

definition PutUint16 :: "u16 \<Rightarrow> byte list" where
  "PutUint16 v = [ucast (drop_bit 8 v), ucast v]"

definition Uint16 :: "byte list \<Rightarrow> u16" where
  "Uint16 b = push_bit 8 (ucast (b ! 0)) OR ucast (b ! 1)"

subsection \<open>\<open>net.IP\<close>\<close>

text \<open>
  \<open>net.IP\<close> is a byte slice; \<open>None\<close> is the nil slice. \<open>To4\<close> and \<open>To16\<close> are the
  standard library's conversions, \<open>IPv4 a b c d\<close> the 16-byte form of an IPv4 address,
  \<open>IP_Equal\<close> the method \<open>Equal\<close>, which looks at lengths and contents only.
\<close>

type_synonym netIP = "byte list option"

definition v4InV6Prefix :: "byte list" where
  "v4InV6Prefix = [0, 0, 0, 0, 0, 0, 0, 0, 0, 0, 0xff, 0xff]"

definition IPv4 :: "byte \<Rightarrow> byte \<Rightarrow> byte \<Rightarrow> byte \<Rightarrow> netIP" where
  "IPv4 a b c d = Some (v4InV6Prefix @ [a, b, c, d])"

definition IPv4zero :: netIP where
  "IPv4zero = IPv4 0 0 0 0"

definition slice :: "netIP \<Rightarrow> byte list" where
  "slice ip = (case ip of None \<Rightarrow> [] | Some bs \<Rightarrow> bs)"

definition To4 :: "netIP \<Rightarrow> netIP" where
  "To4 ip =
     (let bs = slice ip in
      if length bs = 4 then ip
      else if length bs = 16 \<and> take 10 bs = replicate 10 0 \<and> bs ! 10 = 0xff \<and> bs ! 11 = 0xff
        then Some (drop 12 bs)
      else None)"

definition To16 :: "netIP \<Rightarrow> netIP" where
  "To16 ip =
     (let bs = slice ip in
      if length bs = 4 then IPv4 (bs ! 0) (bs ! 1) (bs ! 2) (bs ! 3)
      else if length bs = 16 then ip
      else None)"

definition IP_Equal :: "netIP \<Rightarrow> netIP \<Rightarrow> bool" where
  "IP_Equal ip x =
     (let a = slice ip; b = slice x in
      if length a = length b then a = b
      else if length a = 4 \<and> length b = 16 then take 12 b = v4InV6Prefix \<and> a = drop 12 b
      else if length a = 16 \<and> length b = 4 then take 12 a = v4InV6Prefix \<and> drop 12 a = b
      else False)"

section \<open>Package socks4: constants\<close>

definition SocksVersion :: byte where "SocksVersion = 4"
definition CmdConnect :: byte where "CmdConnect = 1"
definition CmdBind :: byte where "CmdBind = 2"
definition DefaultMaxUserIDLen :: i64 where "DefaultMaxUserIDLen = 256"
definition DefaultMaxDomainLen :: i64 where "DefaultMaxDomainLen = 256"
definition RepGranted :: byte where "RepGranted = 90"
definition RepRejected :: byte where "RepRejected = 91"
definition RepIdentFailed :: byte where "RepIdentFailed = 92"
definition RepUserIDMismatch :: byte where "RepUserIDMismatch = 93"

section \<open>Package socks4: Request\<close>

text \<open>
  The struct \<open>socks4.Request\<close>. The field \<open>IP\<close> is a \<open>[4]byte\<close> array: a
  quadruple of bytes; \<open>bytes4\<close> is the slice \<open>r.IP[:]\<close> and \<open>copy4 a src\<close> the array
  after \<open>copy(a[:], src)\<close>, which overwrites the first \<open>min 4 (len src)\<close> bytes.
  Field names carry the suffix 4 to keep them apart from those of the other message types.
\<close>

type_synonym ip4 = "byte \<times> byte \<times> byte \<times> byte"

definition bytes4 :: "ip4 \<Rightarrow> byte list" where
  "bytes4 a = (case a of (a0, a1, a2, a3) \<Rightarrow> [a0, a1, a2, a3])"

definition copy4 :: "ip4 \<Rightarrow> byte list \<Rightarrow> ip4" where
  "copy4 a src =
     (let bs = take 4 src @ drop (length src) (bytes4 a)
      in (bs ! 0, bs ! 1, bs ! 2, bs ! 3))"

record Request4 =
  Version4 :: byte
  Command4 :: byte
  Port4 :: u16
  IP4 :: ip4
  UserID4 :: "byte list"
  Domain4 :: "byte list"

text \<open>The zero value \<open>var r Request\<close>.\<close>

definition Request4_zero :: Request4 where
  "Request4_zero =
     \<lparr>Version4 = 0, Command4 = 0, Port4 = 0, IP4 = (0, 0, 0, 0), UserID4 = [], Domain4 = []\<rparr>"

definition IsSOCKS4a :: "Request4 \<Rightarrow> bool" where
  "IsSOCKS4a r =
     (let ip = Some (bytes4 (IP4 r)) in
      ip \<noteq> None \<and> slice ip ! 0 = 0 \<and> slice ip ! 1 = 0 \<and> slice ip ! 2 = 0 \<and> slice ip ! 3 \<noteq> 0)"

definition IsSOCKS4 :: "Request4 \<Rightarrow> bool" where
  "IsSOCKS4 r =
     (let ip = Some (bytes4 (IP4 r)) in
      ip \<noteq> None \<and>
      \<not> (slice ip ! 0 = 0 \<and> slice ip ! 1 = 0 \<and> slice ip ! 2 = 0 \<and> slice ip ! 3 \<noteq> 0))"

definition Request4_GetIP :: "Request4 \<Rightarrow> netIP" where
  "Request4_GetIP r = To4 (Some (bytes4 (IP4 r)))"

definition Request4_Init ::
  "Request4 \<Rightarrow> byte \<Rightarrow> byte \<Rightarrow> u16 \<Rightarrow> netIP \<Rightarrow> byte list \<Rightarrow> byte list \<Rightarrow> Request4" where
  "Request4_Init r version command port ip userID domain =
     r\<lparr>Version4 := version, Command4 := command, Port4 := port,
       IP4 := copy4 (IP4 r) (slice (To4 ip)), UserID4 := userID, Domain4 := domain\<rparr>"

definition ValidateHeader :: "Request4 \<Rightarrow> error option" where
  "ValidateHeader r =
     (if Version4 r \<noteq> SocksVersion then Some ErrInvalidVersion
      else if Command4 r \<noteq> CmdConnect \<and> Command4 r \<noteq> CmdBind then Some ErrInvalidCommand
      else let ip = To4 (Some (bytes4 (IP4 r))) in
        if ip = None then Some ErrInvalidIP
        else if IP_Equal ip IPv4zero \<and> Command4 r = CmdConnect then Some ErrInvalidIP
        else None)"

definition ValidateDomain :: "Request4 \<Rightarrow> error option" where
  "ValidateDomain r =
     (if IsSOCKS4a r
      then (if length (Domain4 r) = 0 then Some ErrInvalidDomain else None)
      else (if length (Domain4 r) > 0 then Some ErrInvalidDomain else None))"

definition Request4_Validate :: "Request4 \<Rightarrow> error option" where
  "Request4_Validate r =
     (case ValidateHeader r of Some e \<Rightarrow> Some e | None \<Rightarrow> ValidateDomain r)"

text \<open>
  \<open>ReadHeaderFrom\<close>: the receiver is left untouched when the 8 bytes cannot be read;
  otherwise the four header fields are stored and the header is validated. The result is
  the receiver, the byte count, the error and the reader after the call.
\<close>

definition ReadHeaderFrom ::
  "Request4 \<Rightarrow> reader \<Rightarrow> Request4 \<times> nat \<times> error option \<times> reader" where
  "ReadHeaderFrom r src =
     (case ReadFull src 8 of
        (hdr, Some e, src') \<Rightarrow> (r, length hdr, Some e, src')
      | (hdr, None, src') \<Rightarrow>
          (let r' = r\<lparr>Version4 := hdr ! 0, Command4 := hdr ! 1,
                       Port4 := Uint16 (take 2 (drop 2 hdr)),
                       IP4 := copy4 (IP4 r) (take 4 (drop 4 hdr))\<rparr>
           in (r', length hdr, ValidateHeader r', src')))"

subsection \<open>Bounded scanning of the NUL-terminated fields\<close>

text \<open>
  \<open>internal.LimitedReader\<close>: the underlying reader \<open>R\<close> (here \<open>lr_R\<close>) and the number \<open>N\<close> (here \<open>lr_N\<close>) of
  bytes it may still deliver. \<open>Read\<close> with a buffer of \<open>n\<close> bytes returns
  \<open>io.EOF\<close> when \<open>N \<le> 0\<close> and otherwise reads at most \<open>N\<close> bytes from \<open>R\<close>.
\<close>

record LimitedReader =
  lr_R :: reader
  lr_N :: int

definition LimitedReader_Init :: "LimitedReader \<Rightarrow> reader \<Rightarrow> int \<Rightarrow> LimitedReader" where
  "LimitedReader_Init l src n = l\<lparr>lr_R := src, lr_N := n\<rparr>"

definition LimitedReader_Read ::
  "LimitedReader \<Rightarrow> nat \<Rightarrow> byte list \<times> error option \<times> LimitedReader" where
  "LimitedReader_Read l n =
     (if lr_N l \<le> 0 then ([], Some EOF, l)
      else
        let n' = (if int n > lr_N l then nat (lr_N l) else n) in
        case Read (lr_R l) n' of
          (bs, e, src') \<Rightarrow> (bs, e, l\<lparr>lr_R := src', lr_N := lr_N l - int (length bs)\<rparr>))"

text \<open>
  The pooled \<open>bufio.Reader\<close> of \<open>internal.GetReader\<close>: a buffer of 256 bytes in front
  of the \<open>LimitedReader\<close>. \<open>b_buf\<close> holds the bytes read from the underlying reader
  and not yet handed on (\<open>b.buf[b.r:b.w]\<close>), \<open>b_err\<close> the pending read error
  (\<open>b.err\<close>). \<open>fill\<close> reads once into the free part of the buffer and tries again,
  up to 100 times, while a read returns neither data nor an error.
\<close>

record bufioReader =
  b_rd :: LimitedReader
  b_buf :: "byte list"
  b_err :: "error option"

definition bufSize :: nat where
  "bufSize = 256"

definition GetReader :: "LimitedReader \<Rightarrow> bufioReader" where
  "GetReader l = \<lparr>b_rd = l, b_buf = [], b_err = None\<rparr>"

fun fill_loop :: "nat \<Rightarrow> bufioReader \<Rightarrow> bufioReader" where
  "fill_loop 0 b = b\<lparr>b_err := Some ErrNoProgress\<rparr>"
| "fill_loop (Suc i) b =
     (case LimitedReader_Read (b_rd b) (bufSize - length (b_buf b)) of
        (bs, e, l') \<Rightarrow>
          (let b' = b\<lparr>b_rd := l', b_buf := b_buf b @ bs\<rparr> in
           if e \<noteq> None then b'\<lparr>b_err := e\<rparr>
           else if length bs > 0 then b'
           else fill_loop i b'))"

definition fill :: "bufioReader \<Rightarrow> bufioReader" where
  "fill b = fill_loop 100 b"

lemma fill_loop_progress:
  "b_err (fill_loop i b) \<noteq> None \<or> length (b_buf b) < length (b_buf (fill_loop i b))"
proof (induction i arbitrary: b)
  case 0
  show ?case by simp
next
  case (Suc i)
  obtain bs e l' where b_rd: "LimitedReader_Read (b_rd b) (bufSize - length (b_buf b)) = (bs, e, l')"
    by (cases "LimitedReader_Read (b_rd b) (bufSize - length (b_buf b))") auto
  show ?case
  proof (cases "e \<noteq> None \<or> length bs > 0")
    case True
    then show ?thesis using b_rd by (auto simp: Let_def)
  next
    case False
    then have "fill_loop (Suc i) b = fill_loop i (b\<lparr>b_rd := l', b_buf := b_buf b @ bs\<rparr>)"
      using b_rd by (simp add: Let_def)
    moreover have "bs = []" using False by simp
    ultimately show ?thesis using Suc.IH [of "b\<lparr>b_rd := l', b_buf := b_buf b @ bs\<rparr>"] by simp
  qed
qed

text \<open>
  \<open>ReadSlice\<close>: search the buffered bytes for the delimiter; when it is absent return
  the pending error with everything buffered, or \<open>ErrBufferFull\<close> with the full buffer,
  or fill the buffer and search again.
\<close>

function ReadSlice :: "bufioReader \<Rightarrow> byte \<Rightarrow> byte list \<times> error option \<times> bufioReader" where
  "ReadSlice b delim =
     (if delim \<in> set (b_buf b) then
        (let i = length (takeWhile (\<lambda>x. x \<noteq> delim) (b_buf b))
         in (take (i + 1) (b_buf b), None, b\<lparr>b_buf := drop (i + 1) (b_buf b)\<rparr>))
      else if b_err b \<noteq> None then (b_buf b, b_err b, b\<lparr>b_buf := [], b_err := None\<rparr>)
      else if length (b_buf b) \<ge> bufSize then (b_buf b, Some ErrBufferFull, b\<lparr>b_buf := []\<rparr>)
      else ReadSlice (fill b) delim)"
  by pat_completeness auto
termination
proof (relation "measure (\<lambda>(b, d). if b_err b \<noteq> None then 0 else Suc bufSize - length (b_buf b))")
  show "wf (measure (\<lambda>(b, d). if b_err b \<noteq> None then 0 else Suc bufSize - length (b_buf b)))"
    by simp
next
  fix b :: bufioReader and delim :: byte
  assume "\<not> b_err b \<noteq> None" and "\<not> bufSize \<le> length (b_buf b)"
  then show "((fill b, delim), (b, delim))
      \<in> measure (\<lambda>(b, d). if b_err b \<noteq> None then 0 else Suc bufSize - length (b_buf b))"
    using fill_loop_progress [of 100 b] by (auto simp: fill_def)
qed

declare ReadSlice.simps [simp del]

text \<open>
  Two views of a buffered reader, used to state what \<open>ReadSlice\<close> and \<open>ReadString\<close>
  compute: \<open>stream b\<close> is everything not yet handed on (buffered or still in the
  underlying reader), \<open>window b\<close> the part of it that the \<open>LimitedReader\<close> lets through.
\<close>

definition stream :: "bufioReader \<Rightarrow> byte list" where
  "stream b = b_buf b @ lr_R (b_rd b)"

definition window :: "bufioReader \<Rightarrow> byte list" where
  "window b = b_buf b @ take (nat (lr_N (b_rd b))) (lr_R (b_rd b))"

lemma LimitedReader_Read_cases:
  "LimitedReader_Read l n =
     (if lr_N l \<le> 0 \<or> lr_R l = [] then ([], Some EOF, l)
      else (take (min n (nat (lr_N l))) (lr_R l), None,
            l\<lparr>lr_R := drop (min n (nat (lr_N l))) (lr_R l),
              lr_N := lr_N l - int (length (take (min n (nat (lr_N l))) (lr_R l)))\<rparr>))"
  by (auto simp: LimitedReader_Read_def Read_def Let_def min_def)

lemma fill_loop_Suc_cases:
  "fill_loop (Suc i) b =
     (if lr_N (b_rd b) \<le> 0 \<or> lr_R (b_rd b) = [] then b\<lparr>b_err := Some EOF\<rparr>
      else if length (b_buf b) < bufSize then
        (let k = min (bufSize - length (b_buf b)) (nat (lr_N (b_rd b))) in
         b\<lparr>b_rd := (b_rd b)\<lparr>lr_R := drop k (lr_R (b_rd b)), lr_N := lr_N (b_rd b) - int (length (take k (lr_R (b_rd b))))\<rparr>,
           b_buf := b_buf b @ take k (lr_R (b_rd b))\<rparr>)
      else fill_loop i b)"
  by (simp add: LimitedReader_Read_cases Let_def)

lemma fill_cases:
  "length (b_buf b) < bufSize \<Longrightarrow> fill b =
     (if lr_N (b_rd b) \<le> 0 \<or> lr_R (b_rd b) = [] then b\<lparr>b_err := Some EOF\<rparr>
      else
        (let k = min (bufSize - length (b_buf b)) (nat (lr_N (b_rd b))) in
         b\<lparr>b_rd := (b_rd b)\<lparr>lr_R := drop k (lr_R (b_rd b)), lr_N := lr_N (b_rd b) - int (length (take k (lr_R (b_rd b))))\<rparr>,
           b_buf := b_buf b @ take k (lr_R (b_rd b))\<rparr>))"
  unfolding fill_def
  using fill_loop_Suc_cases [of 99 b] by (simp add: Let_def)

lemma stream_fill: "length (b_buf b) < bufSize \<Longrightarrow> stream (fill b) = stream b"
  by (simp add: fill_cases stream_def Let_def)

lemma take_split_le:
  "k \<le> n \<Longrightarrow> take k xs @ take (n - length (take k xs)) (drop k xs) = take n xs"
proof (cases "k \<le> length xs")
  case True
  assume "k \<le> n"
  then have "take n xs = take (k + (n - k)) xs" by simp
  also have "\<dots> = take k xs @ take (n - k) (drop k xs)" by (rule take_add)
  finally show ?thesis using True by (simp add: min_def)
next
  case False
  assume "k \<le> n"
  then show ?thesis using False by simp
qed

lemma window_fill: "length (b_buf b) < bufSize \<Longrightarrow> b_err b = None \<Longrightarrow> window (fill b) = window b"
proof -
  assume a: "length (b_buf b) < bufSize"
  show ?thesis
  proof (cases "lr_N (b_rd b) \<le> 0 \<or> lr_R (b_rd b) = []")
    case True
    then show ?thesis using a by (simp add: fill_cases window_def)
  next
    case False
    define k where "k = min (bufSize - length (b_buf b)) (nat (lr_N (b_rd b)))"
    have kn: "k \<le> nat (lr_N (b_rd b))" by (simp add: k_def)
    have "nat (lr_N (b_rd b) - int (length (take k (lr_R (b_rd b))))) = nat (lr_N (b_rd b)) - length (take k (lr_R (b_rd b)))"
      by simp
    then show ?thesis using a False take_split_le [OF kn, of "lr_R (b_rd b)"]
      by (simp add: fill_cases window_def Let_def k_def [symmetric])
  qed
qed

lemma fill_err:
  "length (b_buf b) < bufSize \<Longrightarrow> b_err b = None \<Longrightarrow> b_err (fill b) \<noteq> None \<Longrightarrow>
   b_err (fill b) = Some EOF \<and> b_buf (fill b) = b_buf b \<and> b_rd (fill b) = b_rd b \<and>
   (lr_N (b_rd b) \<le> 0 \<or> lr_R (b_rd b) = [])"
  by (auto simp: fill_cases Let_def split: if_splits)

lemma fill_ok_window: 
  "length (b_buf b) < bufSize \<Longrightarrow> b_err b = None \<Longrightarrow> b_err (fill b) = None \<Longrightarrow>
   length (b_buf b) < length (b_buf (fill b))"
  using fill_loop_progress [of 100 b] by (simp add: fill_def)


lemma fill_buf_le:
  "length (b_buf b) < bufSize \<Longrightarrow> length (b_buf (fill b)) \<le> bufSize"
  by (auto simp: fill_cases Let_def)

definition ReadSlice_post ::
  "bufioReader \<Rightarrow> byte \<Rightarrow> byte list \<times> error option \<times> bufioReader \<Rightarrow> bool" where
  "ReadSlice_post b d res =
     (case res of (line, e, b') \<Rightarrow>
        b_err b' = None \<and> length (b_buf b') \<le> bufSize \<and>
        stream b' = drop (length line) (stream b) \<and>
        window b' = drop (length line) (window b) \<and>
        line = take (length line) (window b) \<and>
        (if d \<in> set (take bufSize (window b))
           then e = None \<and> line = takeWhile (\<lambda>x. x \<noteq> d) (window b) @ [d]
         else if bufSize \<le> length (window b)
           then e = Some ErrBufferFull \<and> length line = bufSize
         else e = Some EOF \<and> line = window b))"

lemma takeWhile_prefix_found:
  "d \<in> set xs \<Longrightarrow> takeWhile (\<lambda>x. x \<noteq> d) (xs @ ys) = takeWhile (\<lambda>x. x \<noteq> d) xs"
  by (induction xs) auto

lemma takeWhile_less_length:
  "d \<in> set xs \<Longrightarrow> length (takeWhile (\<lambda>x. x \<noteq> d) xs) < length xs"
  by (induction xs) auto

lemma take_Suc_takeWhile:
  "d \<in> set xs \<Longrightarrow> take (Suc (length (takeWhile (\<lambda>x. x \<noteq> d) xs))) xs = takeWhile (\<lambda>x. x \<noteq> d) xs @ [d]"
  by (induction xs) auto

lemma ReadSlice_found:
  assumes "d \<in> set (b_buf b)" "b_err b = None" "length (b_buf b) \<le> bufSize"
  shows "ReadSlice_post b d (ReadSlice b d)"
proof -
  let ?i = "length (takeWhile (\<lambda>x. x \<noteq> d) (b_buf b))"
  have i: "?i < length (b_buf b)" using takeWhile_less_length [OF assms(1)] .
  have rs: "ReadSlice b d = (take (?i + 1) (b_buf b), None, b\<lparr>b_buf := drop (?i + 1) (b_buf b)\<rparr>)"
    using assms(1) by (simp add: ReadSlice.simps Let_def)
  have len: "length (take (?i + 1) (b_buf b)) = ?i + 1" using i by simp
  have tk: "take (?i + 1) (b_buf b) = takeWhile (\<lambda>x. x \<noteq> d) (b_buf b) @ [d]"
    using take_Suc_takeWhile [OF assms(1)] by simp
  have inw: "d \<in> set (take bufSize (window b))"
    using assms(1,3) by (simp add: window_def)
  show ?thesis
    unfolding rs ReadSlice_post_def using assms(2,3) i inw tk
    by (simp add: stream_def window_def takeWhile_prefix_found [OF assms(1)])
qed

lemma ReadSlice_spec_aux:
  "b_err b = None \<longrightarrow> length (b_buf b) \<le> bufSize \<longrightarrow> ReadSlice_post b d (ReadSlice b d)"
proof (induction b d rule: ReadSlice.induct)
  case (1 b d)
  show ?case
  proof (intro impI)
    assume e: "b_err b = None" and l: "length (b_buf b) \<le> bufSize"
    show "ReadSlice_post b d (ReadSlice b d)"
    proof (cases "d \<in> set (b_buf b)")
      case True
      then show ?thesis using ReadSlice_found e l by blast
    next
      case nf: False
      show ?thesis
      proof (cases "bufSize \<le> length (b_buf b)")
        case True
        then have eq: "length (b_buf b) = bufSize" using l by simp
        have rs: "ReadSlice b d = (b_buf b, Some ErrBufferFull, b\<lparr>b_buf := []\<rparr>)"
          using nf e True by (simp add: ReadSlice.simps)
        show ?thesis unfolding rs ReadSlice_post_def using nf e eq
          by (simp add: stream_def window_def)
      next
        case False
        then have lt: "length (b_buf b) < bufSize" by simp
        have rs: "ReadSlice b d = ReadSlice (fill b) d"
          using nf e False by (subst ReadSlice.simps) simp
        have w: "window (fill b) = window b" and s: "stream (fill b) = stream b"
          using window_fill [OF lt e] stream_fill [OF lt] by simp_all
        show ?thesis
        proof (cases "b_err (fill b) = None")
          case True
          have "ReadSlice_post (fill b) d (ReadSlice (fill b) d)"
            using "1.IH" nf e False True fill_buf_le [OF lt] by simp
          then show ?thesis unfolding rs ReadSlice_post_def w s .
        next
          case ferr: False
          have f: "b_err (fill b) = Some EOF" "b_buf (fill b) = b_buf b" "b_rd (fill b) = b_rd b"
            "lr_N (b_rd b) \<le> 0 \<or> lr_R (b_rd b) = []"
            using fill_err [OF lt e ferr] by simp_all
          have rs2: "ReadSlice (fill b) d = (b_buf b, Some EOF, (fill b)\<lparr>b_buf := [], b_err := None\<rparr>)"
            using nf f by (subst ReadSlice.simps) simp
          have wb: "window b = b_buf b" using f(4) by (auto simp: window_def)
          show ?thesis unfolding rs rs2 ReadSlice_post_def using nf lt f wb
            by (auto simp: stream_def window_def)
        qed
      qed
    qed
  qed
qed

lemma ReadSlice_spec:
  "b_err b = None \<Longrightarrow> length (b_buf b) \<le> bufSize \<Longrightarrow> ReadSlice_post b d (ReadSlice b d)"
  using ReadSlice_spec_aux by blast


lemma ReadSlice_full_decreases:
  assumes "ReadSlice b d = (frag, Some ErrBufferFull, b')"
  shows "2 * length (stream b') + (if b_err b' = None then 0 else 1)
       < 2 * length (stream b) + (if b_err b = None then 0 else 1)"
proof (cases "d \<in> set (b_buf b)")
  case True
  then show ?thesis using assms by (simp add: ReadSlice.simps Let_def)
next
  case nf: False
  show ?thesis
  proof (cases "b_err b = None")
    case False
    then have "b' = b\<lparr>b_buf := [], b_err := None\<rparr>"
      using assms nf by (simp add: ReadSlice.simps)
    then show ?thesis using False by (auto simp: stream_def)
  next
    case e: True
    show ?thesis
    proof (cases "bufSize \<le> length (b_buf b)")
      case True
      then have "b' = b\<lparr>b_buf := []\<rparr>" using assms nf e by (simp add: ReadSlice.simps)
      then show ?thesis using True e by (auto simp: stream_def bufSize_def)
    next
      case False
      then have "ReadSlice_post b d (ReadSlice b d)" using ReadSlice_spec e by simp
      then have p: "b_err b' = None" "stream b' = drop (length frag) (stream b)"
        "frag = take (length frag) (window b)" "length frag = bufSize"
        unfolding assms ReadSlice_post_def by (auto split: if_splits)
      have "length frag \<le> length (window b)" using p(3)
        by (metis length_take min.cobounded1)
      also have "\<dots> \<le> length (stream b)" by (simp add: window_def stream_def)
      finally show ?thesis using p e by (simp add: bufSize_def)
    qed
  qed
qed

text \<open>
  \<open>ReadString\<close> (through \<open>ReadBytes\<close> and \<open>collectFragments\<close>): call \<open>ReadSlice\<close>
  until the delimiter is found or an error other than \<open>ErrBufferFull\<close> occurs, and
  return all the fragments together.
\<close>

function collectFragments ::
  "byte list \<Rightarrow> bufioReader \<Rightarrow> byte \<Rightarrow> byte list \<times> error option \<times> bufioReader" where
  "collectFragments acc b delim =
     (case ReadSlice b delim of
        (frag, None, b') \<Rightarrow> (acc @ frag, None, b')
      | (frag, Some e, b') \<Rightarrow>
          if e \<noteq> ErrBufferFull then (acc @ frag, Some e, b')
          else collectFragments (acc @ frag) b' delim)"
  by pat_completeness auto
termination
proof (relation "measure (\<lambda>(acc, b, d). 2 * length (stream b) + (if b_err b = None then 0 else 1))")
  show "wf (measure (\<lambda>(acc, b, d). 2 * length (stream b) + (if b_err b = None then 0 else 1)))"
    by simp
next
  fix acc :: "byte list" and b :: bufioReader and delim :: byte
    and frag y e' b' e
  assume "(frag, y) = ReadSlice b delim" "(e', b') = y" "e' = Some e" "\<not> e \<noteq> ErrBufferFull"
  then have "ReadSlice b delim = (frag, Some ErrBufferFull, b')" by auto
  from ReadSlice_full_decreases [OF this]
  show "((acc @ frag, b', delim), (acc, b, delim))
      \<in> measure (\<lambda>(acc, b, d). 2 * length (stream b) + (if b_err b = None then 0 else 1))"
    by simp
qed

declare collectFragments.simps [simp del]

definition ReadString :: "bufioReader \<Rightarrow> byte \<Rightarrow> byte list \<times> error option \<times> bufioReader" where
  "ReadString b delim = collectFragments [] b delim"


text \<open>
  \<open>ReadUserIDAndDomain\<close>. The \<open>bufio.Reader\<close> wraps the \<open>LimitedReader\<close> \<open>lr\<close>,
  which is then initialised with the limit plus one for the terminator (the limits are
  \<open>int64\<close> values and the addition wraps); before the domain is read only \<open>lr\<close> is initialised again, the
  buffered bytes stay. The receiver's \<open>UserID\<close> and \<open>Domain\<close> are assigned only after
  the respective \<open>ReadString\<close> succeeded. The reader returned is the underlying reader
  after the call: what the \<open>bufio.Reader\<close> still buffers is dropped with it.
\<close>

definition ReadUserIDAndDomain ::
  "Request4 \<Rightarrow> reader \<Rightarrow> i64 \<Rightarrow> i64 \<Rightarrow> Request4 \<times> nat \<times> error option \<times> reader" where
  "ReadUserIDAndDomain r src maxUserIDLen maxDomainLen =
     (let rdr0 = GetReader \<lparr>lr_R = [], lr_N = 0\<rparr>;
          rdr = rdr0\<lparr>b_rd := LimitedReader_Init (b_rd rdr0) src (sint (maxUserIDLen + 1))\<rparr>
      in case ReadString rdr 0 of
        (userID, Some e, rdr1) \<Rightarrow> (r, length userID, Some e, lr_R (b_rd rdr1))
      | (userID, None, rdr1) \<Rightarrow>
          (let r1 = r\<lparr>UserID4 := butlast userID\<rparr> in
           if IsSOCKS4a r1 then
             (let rdr2 = rdr1\<lparr>b_rd := LimitedReader_Init (b_rd rdr1) (lr_R (b_rd rdr1))
                                     (sint (maxDomainLen + 1))\<rparr>
              in case ReadString rdr2 0 of
                (domain, Some e, rdr3) \<Rightarrow>
                  (r1, length userID + length domain, Some e, lr_R (b_rd rdr3))
              | (domain, None, rdr3) \<Rightarrow>
                  (r1\<lparr>Domain4 := butlast domain\<rparr>, length userID + length domain, None,
                   lr_R (b_rd rdr3)))
           else (r1, length userID, None, lr_R (b_rd rdr1))))"

definition ReadFromWithLimits ::
  "Request4 \<Rightarrow> reader \<Rightarrow> i64 \<Rightarrow> i64 \<Rightarrow> Request4 \<times> nat \<times> error option \<times> reader" where
  "ReadFromWithLimits r src maxUserIDLen maxDomainLen =
     (case ReadHeaderFrom r src of
        (r1, n1, Some e, src1) \<Rightarrow> (r1, n1, Some e, src1)
      | (r1, n1, None, src1) \<Rightarrow>
          (case ReadUserIDAndDomain r1 src1 maxUserIDLen maxDomainLen of
             (r2, n2, e, src2) \<Rightarrow> (r2, n1 + n2, e, src2)))"

definition Request4_ReadFrom :: "Request4 \<Rightarrow> reader \<Rightarrow> Request4 \<times> nat \<times> error option \<times> reader" where
  "Request4_ReadFrom r src = ReadFromWithLimits r src DefaultMaxUserIDLen DefaultMaxDomainLen"

text \<open>
  \<open>writeCString\<close> and \<open>WriteTo\<close>: the 8-byte header in one \<open>Write\<close>, then the user
  id and, for a SOCKS4a address, the domain, each followed by a NUL byte; an empty string
  is not written at all. The result is the byte count, the error and the writer after the
  call.
\<close>

definition writeCString :: "writer \<Rightarrow> byte list \<Rightarrow> nat \<times> error option \<times> writer" where
  "writeCString dst s =
     (case (if length s \<noteq> 0 then Write dst s else (0, None, dst)) of
        (tot, Some e, dst1) \<Rightarrow> (tot, Some e, dst1)
      | (tot, None, dst1) \<Rightarrow>
          (case Write dst1 [0] of (n, e, dst2) \<Rightarrow> (tot + n, e, dst2)))"

definition Request4_header :: "Request4 \<Rightarrow> byte list" where
  "Request4_header r = [Version4 r, Command4 r] @ PutUint16 (Port4 r) @ bytes4 (IP4 r)"

definition Request4_WriteTo :: "Request4 \<Rightarrow> writer \<Rightarrow> nat \<times> error option \<times> writer" where
  "Request4_WriteTo r dst =
     (case Write dst (Request4_header r) of
        (n, Some e, dst1) \<Rightarrow> (n, Some e, dst1)
      | (n, None, dst1) \<Rightarrow>
          (case writeCString dst1 (UserID4 r) of
             (ns, Some e, dst2) \<Rightarrow> (n + ns, Some e, dst2)
           | (ns, None, dst2) \<Rightarrow>
               if IsSOCKS4a r then
                 (case writeCString dst2 (Domain4 r) of
                    (ns', Some e, dst3) \<Rightarrow> (n + ns + ns', Some e, dst3)
                  | (ns', None, dst3) \<Rightarrow> (n + ns + ns', None, dst3))
               else (n + ns, None, dst2)))"

section \<open>Package socks4: Response\<close>

record Response4 =
  RVersion4 :: byte
  Code4 :: byte
  RPort4 :: u16
  RIP4 :: ip4

definition Response4_zero :: Response4 where
  "Response4_zero = \<lparr>RVersion4 = 0, Code4 = 0, RPort4 = 0, RIP4 = (0, 0, 0, 0)\<rparr>"

definition Response4_Init :: "Response4 \<Rightarrow> byte \<Rightarrow> byte \<Rightarrow> u16 \<Rightarrow> netIP \<Rightarrow> Response4" where
  "Response4_Init r version code port ip =
     r\<lparr>RVersion4 := version, Code4 := code, RPort4 := port,
       RIP4 := copy4 (RIP4 r) (slice (To4 ip))\<rparr>"

definition Response4_Validate :: "Response4 \<Rightarrow> error option" where
  "Response4_Validate r =
     (if RVersion4 r \<noteq> 0 then Some ErrInvalidResponseVersion
      else if Code4 r = RepGranted \<or> Code4 r = RepRejected \<or> Code4 r = RepIdentFailed
              \<or> Code4 r = RepUserIDMismatch then None
      else Some ErrInvalidResponseCode)"

definition IsGranted :: "Response4 \<Rightarrow> bool" where
  "IsGranted r = (Code4 r = RepGranted)"

definition Response4_GetIP :: "Response4 \<Rightarrow> netIP" where
  "Response4_GetIP r = To4 (Some (bytes4 (RIP4 r)))"

definition Response4_ReadFrom ::
  "Response4 \<Rightarrow> reader \<Rightarrow> Response4 \<times> nat \<times> error option \<times> reader" where
  "Response4_ReadFrom r src =
     (case ReadFull src 8 of
        (hdr, Some e, src') \<Rightarrow> (r, length hdr, Some e, src')
      | (hdr, None, src') \<Rightarrow>
          (let r' = r\<lparr>RVersion4 := hdr ! 0, Code4 := hdr ! 1,
                       RPort4 := Uint16 (take 2 (drop 2 hdr)),
                       RIP4 := copy4 (RIP4 r) (take 4 (drop 4 hdr))\<rparr>
           in (r', length hdr, Response4_Validate r', src')))"

definition Response4_WriteTo :: "Response4 \<Rightarrow> writer \<Rightarrow> nat \<times> error option \<times> writer" where
  "Response4_WriteTo r dst =
     Write dst ([RVersion4 r, Code4 r] @ PutUint16 (RPort4 r) @ bytes4 (RIP4 r))"

section \<open>Package socks5: constants\<close>

definition SocksVersion5 :: byte where "SocksVersion5 = 5"
definition CmdConnect5 :: byte where "CmdConnect5 = 1"
definition CmdBind5 :: byte where "CmdBind5 = 2"
definition CmdUDPAssociate :: byte where "CmdUDPAssociate = 3"
definition CmdResolve :: byte where "CmdResolve = 0xF0"
definition CmdResolvePTR :: byte where "CmdResolvePTR = 0xF1"
definition AddrTypeIPv4 :: byte where "AddrTypeIPv4 = 1"
definition AddrTypeDomain :: byte where "AddrTypeDomain = 3"
definition AddrTypeIPv6 :: byte where "AddrTypeIPv6 = 4"
definition AuthVersionUserPass :: byte where "AuthVersionUserPass = 1"
definition GSSAPITypeAbort :: byte where "GSSAPITypeAbort = 0xFF"

section \<open>Package socks5: handshake\<close>

record HandshakeRequest =
  HVersion :: byte
  NMethods :: byte
  Methods :: "byte list"

definition HandshakeRequest_zero :: HandshakeRequest where
  "HandshakeRequest_zero = \<lparr>HVersion = 0, NMethods = 0, Methods = []\<rparr>"

definition HandshakeRequest_Init ::
  "HandshakeRequest \<Rightarrow> byte \<Rightarrow> byte list \<Rightarrow> HandshakeRequest" where
  "HandshakeRequest_Init h version methods =
     h\<lparr>HVersion := version, NMethods := of_nat (length methods), Methods := methods\<rparr>"

definition HandshakeRequest_Validate :: "HandshakeRequest \<Rightarrow> error option" where
  "HandshakeRequest_Validate h =
     (if HVersion h \<noteq> SocksVersion5 then Some ErrInvalidHandshakeVersion
      else if NMethods h = 0 then Some ErrNoMethodsProvided
      else if length (Methods h) \<noteq> unat (NMethods h) then Some ErrTooManyMethods
      else None)"

text \<open>
  \<open>HandshakeRequest.ReadFrom\<close>: after the two header bytes only \<open>NMethods = 0\<close> is
  rejected; the methods are read next and \<open>Validate\<close>, which checks the version, runs
  after them.
\<close>

definition HandshakeRequest_ReadFrom ::
  "HandshakeRequest \<Rightarrow> reader \<Rightarrow> HandshakeRequest \<times> nat \<times> error option \<times> reader" where
  "HandshakeRequest_ReadFrom h src =
     (case ReadFull src 2 of
        (hdr, Some e, src1) \<Rightarrow> (h, length hdr, Some e, src1)
      | (hdr, None, src1) \<Rightarrow>
          (let h1 = h\<lparr>HVersion := hdr ! 0, NMethods := hdr ! 1\<rparr> in
           if NMethods h1 = 0 then (h1, length hdr, Some ErrNoMethodsProvided, src1)
           else
             case ReadFull src1 (unat (NMethods h1)) of
               (methods, Some e, src2) \<Rightarrow> (h1, length hdr + length methods, Some e, src2)
             | (methods, None, src2) \<Rightarrow>
                 (let h2 = h1\<lparr>Methods := methods\<rparr>
                  in (h2, length hdr + length methods, HandshakeRequest_Validate h2, src2))))"

definition HandshakeRequest_WriteTo ::
  "HandshakeRequest \<Rightarrow> writer \<Rightarrow> nat \<times> error option \<times> writer" where
  "HandshakeRequest_WriteTo h dst =
     (case Write dst [HVersion h, NMethods h] of
        (n, Some e, dst1) \<Rightarrow> (n, Some e, dst1)
      | (n, None, dst1) \<Rightarrow>
          (case Write dst1 (Methods h) of (n2, e, dst2) \<Rightarrow> (n + n2, e, dst2)))"

record HandshakeReply =
  HRVersion :: byte
  Method :: byte

definition HandshakeReply_zero :: HandshakeReply where
  "HandshakeReply_zero = \<lparr>HRVersion = 0, Method = 0\<rparr>"

definition HandshakeReply_Validate :: "HandshakeReply \<Rightarrow> error option" where
  "HandshakeReply_Validate h =
     (if HRVersion h \<noteq> SocksVersion5 then Some ErrInvalidHandshakeReplyVersion else None)"

definition HandshakeReply_ReadFrom ::
  "HandshakeReply \<Rightarrow> reader \<Rightarrow> HandshakeReply \<times> nat \<times> error option \<times> reader" where
  "HandshakeReply_ReadFrom h src =
     (case ReadFull src 2 of
        (bs, Some e, src1) \<Rightarrow> (h, length bs, Some e, src1)
      | (bs, None, src1) \<Rightarrow>
          (let h1 = h\<lparr>HRVersion := bs ! 0, Method := bs ! 1\<rparr>
           in (h1, length bs, HandshakeReply_Validate h1, src1)))"

definition HandshakeReply_WriteTo :: "HandshakeReply \<Rightarrow> writer \<Rightarrow> nat \<times> error option \<times> writer" where
  "HandshakeReply_WriteTo h dst = Write dst [HRVersion h, Method h]"

section \<open>Package socks5: addresses\<close>

text \<open>
  \<open>Request.ReadFrom\<close>, \<open>Reply.ReadFrom\<close> and \<open>UDPPacket.ReadFrom\<close> contain the same
  \<open>switch\<close> on the address type, and the three \<open>WriteTo\<close> methods contain the same
  \<open>switch\<close> too; each is modelled once.

  \<open>ReadAddr atyp ip domain src\<close> gives the \<open>IP\<close> and \<open>Domain\<close> fields after the
  switch, the bytes it added to \<open>total\<close>, the error on which the method returns, and
  the reader. A field is assigned only when its bytes were read in full.
\<close>

definition ReadAddr ::
  "byte \<Rightarrow> netIP \<Rightarrow> byte list \<Rightarrow> reader \<Rightarrow> netIP \<times> byte list \<times> nat \<times> error option \<times> reader" where
  "ReadAddr atyp ip domain src =
     (if atyp = AddrTypeIPv4 then
        (case ReadFull src 4 of
           (bs, Some e, src1) \<Rightarrow> (ip, domain, length bs, Some e, src1)
         | (bs, None, src1) \<Rightarrow> (Some bs, domain, length bs, None, src1))
      else if atyp = AddrTypeIPv6 then
        (case ReadFull src 16 of
           (bs, Some e, src1) \<Rightarrow> (ip, domain, length bs, Some e, src1)
         | (bs, None, src1) \<Rightarrow> (Some bs, domain, length bs, None, src1))
      else if atyp = AddrTypeDomain then
        (case ReadFull src 1 of
           (ln, Some e, src1) \<Rightarrow> (ip, domain, length ln, Some e, src1)
         | (ln, None, src1) \<Rightarrow>
             (case ReadFull src1 (unat (ln ! 0)) of
                (bs, Some e, src2) \<Rightarrow> (ip, domain, length ln + length bs, Some e, src2)
              | (bs, None, src2) \<Rightarrow> (ip, bs, length ln + length bs, None, src2)))
      else (ip, domain, 0, None, src))"

text \<open>
  \<open>WriteAddr atyp ip domain n dst\<close>: the switch of the \<open>WriteTo\<close> methods, entered
  with \<open>n\<close> the count of the preceding \<open>Write\<close>. The result is what the switch adds
  to \<open>total\<close> itself (the length byte of a domain), the values of \<open>n\<close> and \<open>err\<close>
  after it, and the writer. When no case applies \<open>n\<close> keeps its value, and the
  statement \<open>total += int64(n)\<close> after the switch adds it once more.
\<close>

definition WriteAddr ::
  "byte \<Rightarrow> netIP \<Rightarrow> byte list \<Rightarrow> nat \<Rightarrow> writer \<Rightarrow> nat \<times> nat \<times> error option \<times> writer" where
  "WriteAddr atyp ip domain n dst =
     (if atyp = AddrTypeIPv4 then
        (case Write dst (slice (To4 ip)) of (n1, e, dst1) \<Rightarrow> (0, n1, e, dst1))
      else if atyp = AddrTypeIPv6 then
        (case Write dst (slice (To16 ip)) of (n1, e, dst1) \<Rightarrow> (0, n1, e, dst1))
      else if atyp = AddrTypeDomain then
        (case Write dst [of_nat (length domain)] of
           (n1, Some e, dst1) \<Rightarrow> (n1, n1, Some e, dst1)
         | (n1, None, dst1) \<Rightarrow>
             (case Write dst1 domain of (n2, e, dst2) \<Rightarrow> (n1, n2, e, dst2)))
      else (0, n, None, dst))"

section \<open>Package socks5: Request and Reply\<close>

record Request5 =
  Version5 :: byte
  Command5 :: byte
  Reserved5 :: byte
  AddrType5 :: byte
  IP5 :: netIP
  Domain5 :: "byte list"
  Port5 :: u16

definition Request5_zero :: Request5 where
  "Request5_zero = \<lparr>Version5 = 0, Command5 = 0, Reserved5 = 0, AddrType5 = 0, IP5 = None,
                     Domain5 = [], Port5 = 0\<rparr>"

definition Request5_ValidateHeader :: "Request5 \<Rightarrow> error option" where
  "Request5_ValidateHeader r =
     (if Version5 r \<noteq> SocksVersion5 then Some ErrInvalidVersion5
      else if Reserved5 r \<noteq> 0 then Some ErrInvalidRSV
      else if \<not> (Command5 r = CmdConnect5 \<or> Command5 r = CmdBind5 \<or> Command5 r = CmdUDPAssociate
                \<or> Command5 r = CmdResolve \<or> Command5 r = CmdResolvePTR)
        then Some ErrInvalidCommand5
      else if \<not> (AddrType5 r = AddrTypeIPv4 \<or> AddrType5 r = AddrTypeDomain
                \<or> AddrType5 r = AddrTypeIPv6)
        then Some ErrInvalidAddr
      else None)"

definition Request5_Validate :: "Request5 \<Rightarrow> error option" where
  "Request5_Validate r =
     (case Request5_ValidateHeader r of
        Some e \<Rightarrow> Some e
      | None \<Rightarrow>
          if AddrType5 r = AddrTypeDomain then
            (if length (Domain5 r) = 0 \<or> length (Domain5 r) > 255 then Some ErrInvalidDomain5
             else None)
          else if AddrType5 r = AddrTypeIPv4 \<or> AddrType5 r = AddrTypeIPv6 then
            (if IP5 r = None then Some ErrInvalidAddr else None)
          else None)"

definition Request5_ReadFrom ::
  "Request5 \<Rightarrow> reader \<Rightarrow> Request5 \<times> nat \<times> error option \<times> reader" where
  "Request5_ReadFrom r src =
     (case ReadFull src 4 of
        (hdr, Some e, src1) \<Rightarrow> (r, length hdr, Some e, src1)
      | (hdr, None, src1) \<Rightarrow>
          (let r1 = r\<lparr>Version5 := hdr ! 0, Command5 := hdr ! 1, Reserved5 := hdr ! 2,
                       AddrType5 := hdr ! 3\<rparr> in
           case Request5_ValidateHeader r1 of
             Some e \<Rightarrow> (r1, length hdr, Some e, src1)
           | None \<Rightarrow>
               (case ReadAddr (AddrType5 r1) (IP5 r1) (Domain5 r1) src1 of
                  (ip, domain, n, Some e, src2) \<Rightarrow> (r1, length hdr + n, Some e, src2)
                | (ip, domain, n, None, src2) \<Rightarrow>
                    (let r2 = r1\<lparr>IP5 := ip, Domain5 := domain\<rparr> in
                     case ReadFull src2 2 of
                       (pb, Some e, src3) \<Rightarrow> (r2, length hdr + n + length pb, Some e, src3)
                     | (pb, None, src3) \<Rightarrow>
                         (let r3 = r2\<lparr>Port5 := Uint16 pb\<rparr>
                          in (r3, length hdr + n + length pb, Request5_Validate r3, src3))))))"

text \<open>
  \<open>Request.WriteTo\<close> checks only the length of a domain (and reports it with the
  reply's error value); it does not call \<open>Validate\<close>.
\<close>

definition Request5_WriteTo :: "Request5 \<Rightarrow> writer \<Rightarrow> nat \<times> error option \<times> writer" where
  "Request5_WriteTo r dst =
     (if AddrType5 r = AddrTypeDomain \<and> (length (Domain5 r) = 0 \<or> length (Domain5 r) > 255)
      then (0, Some ErrInvalidReplyDomain, dst)
      else
        case Write dst [Version5 r, Command5 r, Reserved5 r, AddrType5 r] of
          (n, Some e, dst1) \<Rightarrow> (n, Some e, dst1)
        | (n, None, dst1) \<Rightarrow>
            (case WriteAddr (AddrType5 r) (IP5 r) (Domain5 r) n dst1 of
               (a, n1, Some e, dst2) \<Rightarrow> (n + a + n1, Some e, dst2)
             | (a, n1, None, dst2) \<Rightarrow>
                 (case Write dst2 (PutUint16 (Port5 r)) of
                    (n2, e, dst3) \<Rightarrow> (n + a + n1 + n2, e, dst3))))"

record Reply5 =
  RVersion5 :: byte
  Reply :: byte
  RReserved5 :: byte
  RAddrType5 :: byte
  RIP5 :: netIP
  RDomain5 :: "byte list"
  RPort5 :: u16

definition Reply5_zero :: Reply5 where
  "Reply5_zero = \<lparr>RVersion5 = 0, Reply = 0, RReserved5 = 0, RAddrType5 = 0, RIP5 = None,
                   RDomain5 = [], RPort5 = 0\<rparr>"

definition Reply5_ValidateHeader :: "Reply5 \<Rightarrow> error option" where
  "Reply5_ValidateHeader r =
     (if RVersion5 r \<noteq> SocksVersion5 then Some ErrInvalidReplyVersion
      else if RReserved5 r \<noteq> 0 then Some ErrInvalidReplyRSV
      else if \<not> (RAddrType5 r = AddrTypeIPv4 \<or> RAddrType5 r = AddrTypeDomain
                \<or> RAddrType5 r = AddrTypeIPv6)
        then Some ErrInvalidReplyAddr
      else None)"

definition Reply5_Validate :: "Reply5 \<Rightarrow> error option" where
  "Reply5_Validate r =
     (case Reply5_ValidateHeader r of
        Some e \<Rightarrow> Some e
      | None \<Rightarrow>
          if RAddrType5 r = AddrTypeDomain then
            (if length (RDomain5 r) = 0 \<or> length (RDomain5 r) > 255
             then Some ErrInvalidReplyDomain else None)
          else if RAddrType5 r = AddrTypeIPv4 \<or> RAddrType5 r = AddrTypeIPv6 then
            (if RIP5 r = None then Some ErrInvalidReplyAddr else None)
          else None)"

definition Reply5_ReadFrom :: "Reply5 \<Rightarrow> reader \<Rightarrow> Reply5 \<times> nat \<times> error option \<times> reader" where
  "Reply5_ReadFrom r src =
     (case ReadFull src 4 of
        (hdr, Some e, src1) \<Rightarrow> (r, length hdr, Some e, src1)
      | (hdr, None, src1) \<Rightarrow>
          (let r1 = r\<lparr>RVersion5 := hdr ! 0, Reply := hdr ! 1, RReserved5 := hdr ! 2,
                       RAddrType5 := hdr ! 3\<rparr> in
           case Reply5_ValidateHeader r1 of
             Some e \<Rightarrow> (r1, length hdr, Some e, src1)
           | None \<Rightarrow>
               (case ReadAddr (RAddrType5 r1) (RIP5 r1) (RDomain5 r1) src1 of
                  (ip, domain, n, Some e, src2) \<Rightarrow> (r1, length hdr + n, Some e, src2)
                | (ip, domain, n, None, src2) \<Rightarrow>
                    (let r2 = r1\<lparr>RIP5 := ip, RDomain5 := domain\<rparr> in
                     case ReadFull src2 2 of
                       (pb, Some e, src3) \<Rightarrow> (r2, length hdr + n + length pb, Some e, src3)
                     | (pb, None, src3) \<Rightarrow>
                         (let r3 = r2\<lparr>RPort5 := Uint16 pb\<rparr>
                          in (r3, length hdr + n + length pb, Reply5_Validate r3, src3))))))"

definition Reply5_WriteTo :: "Reply5 \<Rightarrow> writer \<Rightarrow> nat \<times> error option \<times> writer" where
  "Reply5_WriteTo r dst =
     (case Reply5_Validate r of
        Some e \<Rightarrow> (0, Some e, dst)
      | None \<Rightarrow>
          (case Write dst [RVersion5 r, Reply r, RReserved5 r, RAddrType5 r] of
             (n, Some e, dst1) \<Rightarrow> (n, Some e, dst1)
           | (n, None, dst1) \<Rightarrow>
               (case WriteAddr (RAddrType5 r) (RIP5 r) (RDomain5 r) n dst1 of
                  (a, n1, Some e, dst2) \<Rightarrow> (n + a + n1, Some e, dst2)
                | (a, n1, None, dst2) \<Rightarrow>
                    (case Write dst2 (PutUint16 (RPort5 r)) of
                       (n2, e, dst3) \<Rightarrow> (n + a + n1 + n2, e, dst3)))))"

section \<open>Package socks5: username/password sub-negotiation\<close>

record UserPassRequest =
  UPVersion :: byte
  Username :: "byte list"
  Password :: "byte list"

definition UserPassRequest_zero :: UserPassRequest where
  "UserPassRequest_zero = \<lparr>UPVersion = 0, Username = [], Password = []\<rparr>"

definition UserPassRequest_Validate :: "UserPassRequest \<Rightarrow> error option" where
  "UserPassRequest_Validate r =
     (if UPVersion r \<noteq> AuthVersionUserPass then Some ErrInvalidUserPassVersion
      else if length (Username r) = 0 then Some ErrEmptyUserPassUsername
      else if length (Password r) = 0 then Some ErrEmptyUserPassPassword
      else if length (Username r) > 255 \<or> length (Password r) > 255 then Some ErrUserPassTooLong
      else None)"

text \<open>
  \<open>UserPassRequest.ReadFrom\<close>: after the two header bytes only \<open>ULEN = 0\<close> is
  rejected; the version is checked by \<open>Validate\<close> after the password has been read.
\<close>

definition UserPassRequest_ReadFrom ::
  "UserPassRequest \<Rightarrow> reader \<Rightarrow> UserPassRequest \<times> nat \<times> error option \<times> reader" where
  "UserPassRequest_ReadFrom r src =
     (case ReadFull src 2 of
        (hdr, Some e, src1) \<Rightarrow> (r, length hdr, Some e, src1)
      | (hdr, None, src1) \<Rightarrow>
          (let r1 = r\<lparr>UPVersion := hdr ! 0\<rparr>; ulen = unat (hdr ! 1) in
           if ulen = 0 then (r1, length hdr, Some ErrEmptyUserPassUsername, src1)
           else
             case ReadFull src1 ulen of
               (username, Some e, src2) \<Rightarrow> (r1, length hdr + length username, Some e, src2)
             | (username, None, src2) \<Rightarrow>
                 (let r2 = r1\<lparr>Username := username\<rparr>; tot = length hdr + length username in
                  case ReadFull src2 1 of
                    (plen, Some e, src3) \<Rightarrow> (r2, tot + length plen, Some e, src3)
                  | (plen, None, src3) \<Rightarrow>
                      (let tot3 = tot + length plen; pwlen = unat (plen ! 0) in
                       if pwlen = 0 then (r2, tot3, Some ErrEmptyUserPassPassword, src3)
                       else
                         case ReadFull src3 pwlen of
                           (password, Some e, src4) \<Rightarrow>
                             (r2, tot3 + length password, Some e, src4)
                         | (password, None, src4) \<Rightarrow>
                             (let r3 = r2\<lparr>Password := password\<rparr>
                              in (r3, tot3 + length password, UserPassRequest_Validate r3,
                                  src4))))))"

definition UserPassRequest_WriteTo ::
  "UserPassRequest \<Rightarrow> writer \<Rightarrow> nat \<times> error option \<times> writer" where
  "UserPassRequest_WriteTo r dst =
     (if length (Username r) > 255 \<or> length (Password r) > 255
      then (0, Some ErrUserPassTooLong, dst)
      else
        case Write dst [UPVersion r, of_nat (length (Username r))] of
          (n, Some e, dst1) \<Rightarrow> (n, Some e, dst1)
        | (n, None, dst1) \<Rightarrow>
            (case Write dst1 (Username r) of
               (n2, Some e, dst2) \<Rightarrow> (n + n2, Some e, dst2)
             | (n2, None, dst2) \<Rightarrow>
                 (case Write dst2 [of_nat (length (Password r))] of
                    (n3, Some e, dst3) \<Rightarrow> (n + n2 + n3, Some e, dst3)
                  | (n3, None, dst3) \<Rightarrow>
                      (case Write dst3 (Password r) of
                         (n4, e, dst4) \<Rightarrow> (n + n2 + n3 + n4, e, dst4)))))"

record UserPassReply =
  UPRVersion :: byte
  Status :: byte

definition UserPassReply_zero :: UserPassReply where
  "UserPassReply_zero = \<lparr>UPRVersion = 0, Status = 0\<rparr>"

definition UserPassReply_Validate :: "UserPassReply \<Rightarrow> error option" where
  "UserPassReply_Validate r =
     (if UPRVersion r \<noteq> AuthVersionUserPass then Some ErrInvalidUserPassReplyVersion else None)"

definition UserPassReply_ReadFrom ::
  "UserPassReply \<Rightarrow> reader \<Rightarrow> UserPassReply \<times> nat \<times> error option \<times> reader" where
  "UserPassReply_ReadFrom r src =
     (case ReadFull src 2 of
        (bs, Some e, src1) \<Rightarrow> (r, length bs, Some e, src1)
      | (bs, None, src1) \<Rightarrow>
          (let r1 = r\<lparr>UPRVersion := bs ! 0, Status := bs ! 1\<rparr>
           in (r1, length bs, UserPassReply_Validate r1, src1)))"

definition UserPassReply_WriteTo :: "UserPassReply \<Rightarrow> writer \<Rightarrow> nat \<times> error option \<times> writer" where
  "UserPassReply_WriteTo r dst = Write dst [UPRVersion r, Status r]"

section \<open>Package socks5: GSSAPI sub-negotiation\<close>

text \<open>
  \<open>GSSAPIRequest\<close> and \<open>GSSAPIReply\<close> have the same fields and, but for the names
  of their error values, the same methods; the record is shared and the functions are
  given for each.
\<close>

record GSSAPI =
  GVersion :: byte
  MsgType :: byte
  Token :: "byte list"

definition GSSAPI_zero :: GSSAPI where
  "GSSAPI_zero = \<lparr>GVersion = 0, MsgType = 0, Token = []\<rparr>"

definition GSSAPIRequest_Validate :: "GSSAPI \<Rightarrow> error option" where
  "GSSAPIRequest_Validate r =
     (if GVersion r \<noteq> 1 then Some ErrInvalidGSSAPIVersion
      else if MsgType r = GSSAPITypeAbort then None
      else if length (Token r) = 0 then Some ErrEmptyGSSAPIToken
      else if length (Token r) > 65535 then Some ErrGSSAPITokenTooLong
      else None)"

definition GSSAPIRequest_ReadFrom :: "GSSAPI \<Rightarrow> reader \<Rightarrow> GSSAPI \<times> nat \<times> error option \<times> reader" where
  "GSSAPIRequest_ReadFrom r src =
     (case ReadFull src 2 of
        (hdr, Some e, src1) \<Rightarrow> (r, length hdr, Some e, src1)
      | (hdr, None, src1) \<Rightarrow>
          (let r1 = r\<lparr>GVersion := hdr ! 0, MsgType := hdr ! 1\<rparr> in
           if MsgType r1 = GSSAPITypeAbort then (r1, length hdr, None, src1)
           else
             case ReadFull src1 2 of
               (lb, Some e, src2) \<Rightarrow> (r1, length hdr + length lb, Some e, src2)
             | (lb, None, src2) \<Rightarrow>
                 (let n = length hdr + length lb in
                  if Uint16 lb = 0 then (r1, n, Some ErrEmptyGSSAPIToken, src2)
                  else
                    case ReadFull src2 (unat (Uint16 lb)) of
                      (token, Some e, src3) \<Rightarrow> (r1, n + length token, Some e, src3)
                    | (token, None, src3) \<Rightarrow>
                        (let r2 = r1\<lparr>Token := token\<rparr>
                         in (r2, n + length token, GSSAPIRequest_Validate r2, src3)))))"

definition GSSAPIRequest_WriteTo :: "GSSAPI \<Rightarrow> writer \<Rightarrow> nat \<times> error option \<times> writer" where
  "GSSAPIRequest_WriteTo r dst =
     (case GSSAPIRequest_Validate r of
        Some e \<Rightarrow> (0, Some e, dst)
      | None \<Rightarrow>
          if MsgType r = GSSAPITypeAbort then Write dst [GVersion r, MsgType r]
          else
            case Write dst ([GVersion r, MsgType r] @ PutUint16 (of_nat (length (Token r)))) of
              (n, Some e, dst1) \<Rightarrow> (n, Some e, dst1)
            | (n, None, dst1) \<Rightarrow>
                (case Write dst1 (Token r) of (n2, e, dst2) \<Rightarrow> (n + n2, e, dst2)))"

definition GSSAPIReply_Validate :: "GSSAPI \<Rightarrow> error option" where
  "GSSAPIReply_Validate r =
     (if GVersion r \<noteq> 1 then Some ErrInvalidGSSAPIReplyVersion
      else if MsgType r = GSSAPITypeAbort then None
      else if length (Token r) = 0 then Some ErrEmptyGSSAPIReplyToken
      else if length (Token r) > 65535 then Some ErrGSSAPIReplyTooLong
      else None)"

definition GSSAPIReply_ReadFrom :: "GSSAPI \<Rightarrow> reader \<Rightarrow> GSSAPI \<times> nat \<times> error option \<times> reader" where
  "GSSAPIReply_ReadFrom r src =
     (case ReadFull src 2 of
        (hdr, Some e, src1) \<Rightarrow> (r, length hdr, Some e, src1)
      | (hdr, None, src1) \<Rightarrow>
          (let r1 = r\<lparr>GVersion := hdr ! 0, MsgType := hdr ! 1\<rparr> in
           if MsgType r1 = GSSAPITypeAbort then (r1, length hdr, None, src1)
           else
             case ReadFull src1 2 of
               (lb, Some e, src2) \<Rightarrow> (r1, length hdr + length lb, Some e, src2)
             | (lb, None, src2) \<Rightarrow>
                 (let n = length hdr + length lb in
                  if Uint16 lb = 0 then (r1, n, Some ErrEmptyGSSAPIReplyToken, src2)
                  else
                    case ReadFull src2 (unat (Uint16 lb)) of
                      (token, Some e, src3) \<Rightarrow> (r1, n + length token, Some e, src3)
                    | (token, None, src3) \<Rightarrow>
                        (let r2 = r1\<lparr>Token := token\<rparr>
                         in (r2, n + length token, GSSAPIReply_Validate r2, src3)))))"

definition GSSAPIReply_WriteTo :: "GSSAPI \<Rightarrow> writer \<Rightarrow> nat \<times> error option \<times> writer" where
  "GSSAPIReply_WriteTo r dst =
     (case GSSAPIReply_Validate r of
        Some e \<Rightarrow> (0, Some e, dst)
      | None \<Rightarrow>
          if MsgType r = GSSAPITypeAbort then Write dst [GVersion r, MsgType r]
          else
            case Write dst ([GVersion r, MsgType r] @ PutUint16 (of_nat (length (Token r)))) of
              (n, Some e, dst1) \<Rightarrow> (n, Some e, dst1)
            | (n, None, dst1) \<Rightarrow>
                (case Write dst1 (Token r) of (n2, e, dst2) \<Rightarrow> (n + n2, e, dst2)))"

section \<open>Package socks5: UDP packet\<close>

record UDPPacket =
  UReserved :: "byte \<times> byte"
  Frag :: byte
  UAddrType :: byte
  UIP :: netIP
  UDomain :: "byte list"
  UPort :: u16
  Data :: "byte list"

definition UDPPacket_zero :: UDPPacket where
  "UDPPacket_zero = \<lparr>UReserved = (0, 0), Frag = 0, UAddrType = 0, UIP = None, UDomain = [],
                      UPort = 0, Data = []\<rparr>"

definition UDPPacket_Validate :: "UDPPacket \<Rightarrow> error option" where
  "UDPPacket_Validate p =
     (if UReserved p \<noteq> (0, 0) then Some ErrInvalidUDPReserved
      else if Frag p \<noteq> 0 then Some ErrUnsupportedFrag
      else if (UAddrType p = AddrTypeIPv4 \<or> UAddrType p = AddrTypeIPv6) \<and> UIP p = None
        then Some ErrInvalidUDPAddrType
      else if UAddrType p = AddrTypeDomain \<and> (length (UDomain p) = 0 \<or> length (UDomain p) > 255)
        then Some ErrInvalidUDPDomain
      else if \<not> (UAddrType p = AddrTypeIPv4 \<or> UAddrType p = AddrTypeIPv6
                \<or> UAddrType p = AddrTypeDomain)
        then Some ErrInvalidUDPAddrType
      else if length (Data p) = 0 then Some ErrMissingUDPData
      else None)"

definition UDPPacket_ValidateHeader :: "UDPPacket \<Rightarrow> error option" where
  "UDPPacket_ValidateHeader p =
     (if UReserved p \<noteq> (0, 0) then Some ErrInvalidUDPReserved
      else if Frag p \<noteq> 0 then Some ErrUnsupportedFrag
      else if \<not> (UAddrType p = AddrTypeIPv4 \<or> UAddrType p = AddrTypeIPv6
                \<or> UAddrType p = AddrTypeDomain)
        then Some ErrInvalidUDPAddrType
      else None)"

definition UDPPacket_ReadFrom ::
  "UDPPacket \<Rightarrow> reader \<Rightarrow> UDPPacket \<times> nat \<times> error option \<times> reader" where
  "UDPPacket_ReadFrom p src =
     (case ReadFull src 4 of
        (hdr, Some e, src1) \<Rightarrow> (p, length hdr, Some e, src1)
      | (hdr, None, src1) \<Rightarrow>
          (let p1 = p\<lparr>UReserved := (hdr ! 0, hdr ! 1), Frag := hdr ! 2, UAddrType := hdr ! 3\<rparr> in
           case UDPPacket_ValidateHeader p1 of
             Some e \<Rightarrow> (p1, length hdr, Some e, src1)
           | None \<Rightarrow>
               (case ReadAddr (UAddrType p1) (UIP p1) (UDomain p1) src1 of
                  (ip, domain, n, Some e, src2) \<Rightarrow> (p1, length hdr + n, Some e, src2)
                | (ip, domain, n, None, src2) \<Rightarrow>
                    (let p2 = p1\<lparr>UIP := ip, UDomain := domain\<rparr> in
                     case ReadFull src2 2 of
                       (pb, Some e, src3) \<Rightarrow> (p2, length hdr + n + length pb, Some e, src3)
                     | (pb, None, src3) \<Rightarrow>
                         (let p3 = p2\<lparr>UPort := Uint16 pb\<rparr>; tot = length hdr + n + length pb in
                          case ReadAll src3 of
                            (data, Some e, src4) \<Rightarrow> (p3, tot + length data, Some e, src4)
                          | (data, None, src4) \<Rightarrow>
                              (let p4 = p3\<lparr>Data := data\<rparr>
                               in (p4, tot + length data, UDPPacket_Validate p4, src4)))))))"

definition UDPPacket_WriteTo :: "UDPPacket \<Rightarrow> writer \<Rightarrow> nat \<times> error option \<times> writer" where
  "UDPPacket_WriteTo p dst =
     (case UDPPacket_Validate p of
        Some e \<Rightarrow> (0, Some e, dst)
      | None \<Rightarrow>
          (case Write dst [fst (UReserved p), snd (UReserved p), Frag p, UAddrType p] of
             (n, Some e, dst1) \<Rightarrow> (n, Some e, dst1)
           | (n, None, dst1) \<Rightarrow>
               (case WriteAddr (UAddrType p) (UIP p) (UDomain p) n dst1 of
                  (a, n1, Some e, dst2) \<Rightarrow> (n + a + n1, Some e, dst2)
                | (a, n1, None, dst2) \<Rightarrow>
                    (case Write dst2 (PutUint16 (UPort p)) of
                       (n2, Some e, dst3) \<Rightarrow> (n + a + n1 + n2, Some e, dst3)
                     | (n2, None, dst3) \<Rightarrow>
                         (case Write dst3 (Data p) of
                            (n3, e, dst4) \<Rightarrow> (n + a + n1 + n2 + n3, e, dst4))))))"

section \<open>Package socks4: Dialer\<close>

text \<open>
  A \<open>net.Conn\<close> as the dialer sees it: the bytes the peer sends (a reader), the bytes
  written to the peer (a writer, which may fail as scripted) and whether \<open>Close\<close> has
  been called.
\<close>

record conn =
  c_in :: reader
  c_out :: writer
  c_closed :: bool

definition Close :: "conn \<Rightarrow> conn" where
  "Close c = c\<lparr>c_closed := True\<rparr>"

text \<open>
  The functions of package \<open>net\<close> that the dialer calls are parameters of the model:
  \<open>DefaultDialer\<close> (network and address to a connection or an error),
  \<open>net.SplitHostPort\<close>, \<open>net.LookupPort("tcp", _)\<close> and \<open>net.ParseIP\<close>, whose result
  is \<open>nil\<close> (here \<open>None\<close>) when the text is not an IP literal.
\<close>

record netpkg =
  DefaultDialer :: "byte list \<Rightarrow> byte list \<Rightarrow> error + conn"
  SplitHostPort :: "byte list \<Rightarrow> error + byte list \<times> byte list"
  LookupPort :: "byte list \<Rightarrow> error + int"
  ParseIP :: "byte list \<Rightarrow> netIP"

record Dialer =
  ProxyAddr :: "byte list"
  UserID :: "byte list"
  DialFunc :: "(byte list \<Rightarrow> byte list \<Rightarrow> error + conn) option"

definition parsePort :: "netpkg \<Rightarrow> byte list \<Rightarrow> error + u16" where
  "parsePort env p =
     (case LookupPort env p of
        Inl e \<Rightarrow> Inl e
      | Inr n \<Rightarrow> Inr (of_int n))"

text \<open>
  The block \<open>Build SOCKS4 request\<close>, which \<open>DialContext\<close> and \<open>BindContext\<close> share
  up to the command: \<open>Init\<close> on the zero request with \<open>net.ParseIP(host)\<close>, then the
  SOCKS4a fallback when \<open>net.ParseIP(host)\<close> is \<open>nil\<close>.
\<close>

definition buildRequest :: "netpkg \<Rightarrow> byte \<Rightarrow> u16 \<Rightarrow> byte list \<Rightarrow> byte list \<Rightarrow> Request4" where
  "buildRequest env command port userID host =
     (let req = Request4_Init Request4_zero SocksVersion command port (ParseIP env host) userID []
      in if ParseIP env host = None
         then req\<lparr>IP4 := copy4 (IP4 req) [0, 0, 0, 1], Domain4 := host\<rparr>
         else req)"

text \<open>
  \<open>DialContext\<close> for a context that is not cancelled during the call. The result is the
  returned connection (\<open>None\<close> for \<open>nil\<close>), the returned error, and the state in which
  the call leaves the proxy connection when one was opened.
\<close>

definition DialContext ::
  "netpkg \<Rightarrow> Dialer \<Rightarrow> byte list \<Rightarrow> byte list \<Rightarrow> conn option \<times> error option \<times> conn option" where
  "DialContext env d network address =
     (let dialFunc = (case DialFunc d of None \<Rightarrow> DefaultDialer env | Some f \<Rightarrow> f) in
      case dialFunc network (ProxyAddr d) of
        Inl e \<Rightarrow> (None, Some (ConnectToProxy e), None)
      | Inr proxyConn \<Rightarrow>
         (case SplitHostPort env address of
            Inl e \<Rightarrow> (None, Some (InvalidTargetAddress e), Some (Close proxyConn))
          | Inr (host, portStr) \<Rightarrow>
             (case parsePort env portStr of
                Inl e \<Rightarrow> (None, Some (InvalidTargetPort portStr e), Some (Close proxyConn))
              | Inr port \<Rightarrow>
                 (let req = buildRequest env CmdConnect port (UserID d) host in
                  case Request4_WriteTo req (c_out proxyConn) of
                    (n, Some e, w) \<Rightarrow>
                      (None, Some (SendRequest e), Some (Close (proxyConn\<lparr>c_out := w\<rparr>)))
                  | (n, None, w) \<Rightarrow>
                     (case Response4_ReadFrom Response4_zero (c_in proxyConn) of
                        (resp, m, Some e, src) \<Rightarrow>
                          (None, Some (ReadResponse e),
                           Some (Close (proxyConn\<lparr>c_out := w, c_in := src\<rparr>)))
                      | (resp, m, None, src) \<Rightarrow>
                          if \<not> IsGranted resp
                          then (None, Some (ProxyRejectedRequest (Code4 resp)),
                                Some (Close (proxyConn\<lparr>c_out := w, c_in := src\<rparr>)))
                          else (Some (proxyConn\<lparr>c_out := w, c_in := src\<rparr>), None,
                                Some (proxyConn\<lparr>c_out := w, c_in := src\<rparr>)))))))"

text \<open>
  \<open>BindContext\<close> up to its \<open>return\<close>, for a context that is not cancelled during the
  call: the returned connection, the bind address (IP and port of the first reply), the
  error, and the state of the proxy connection. The goroutine that it starts before
  returning is \<open>bindReady\<close> below.
\<close>

definition BindContext ::
  "netpkg \<Rightarrow> Dialer \<Rightarrow> byte list \<Rightarrow> byte list \<Rightarrow>
     conn option \<times> (netIP \<times> nat) option \<times> error option \<times> conn option" where
  "BindContext env d network address =
     (let dialFunc = (case DialFunc d of None \<Rightarrow> DefaultDialer env | Some f \<Rightarrow> f) in
      case dialFunc network (ProxyAddr d) of
        Inl e \<Rightarrow> (None, None, Some (ConnectToProxy e), None)
      | Inr proxyConn \<Rightarrow>
         (case SplitHostPort env address of
            Inl e \<Rightarrow> (None, None, Some (InvalidTargetAddress e), Some (Close proxyConn))
          | Inr (host, portStr) \<Rightarrow>
             (case parsePort env portStr of
                Inl e \<Rightarrow> (None, None, Some (InvalidTargetPort portStr e), Some (Close proxyConn))
              | Inr port \<Rightarrow>
                 (let req = buildRequest env CmdBind port (UserID d) host in
                  case Request4_WriteTo req (c_out proxyConn) of
                    (n, Some e, w) \<Rightarrow>
                      (None, None, Some (SendBindRequest e), Some (Close (proxyConn\<lparr>c_out := w\<rparr>)))
                  | (n, None, w) \<Rightarrow>
                     (case Response4_ReadFrom Response4_zero (c_in proxyConn) of
                        (resp1, m, Some e, src) \<Rightarrow>
                          (None, None, Some (ReadFirstBindResponse e),
                           Some (Close (proxyConn\<lparr>c_out := w, c_in := src\<rparr>)))
                      | (resp1, m, None, src) \<Rightarrow>
                          if \<not> IsGranted resp1
                          then (None, None, Some (ProxyRejectedBindSetup (Code4 resp1)),
                                Some (Close (proxyConn\<lparr>c_out := w, c_in := src\<rparr>)))
                          else (Some (proxyConn\<lparr>c_out := w, c_in := src\<rparr>),
                                Some (Response4_GetIP resp1, unat (RPort4 resp1)), None,
                                Some (proxyConn\<lparr>c_out := w, c_in := src\<rparr>)))))))"

text \<open>
  The goroutine of \<open>BindContext\<close> that waits for the second reply, as the list of the
  values it sends on \<open>readyCh\<close>, in program order, before the deferred
  \<open>close(readyCh)\<close>; \<open>None\<close> is the value \<open>nil\<close>. There is no \<open>return\<close> after
  either of the two sends in the \<open>if\<close> statements, so control always reaches the last
  send. The argument is the data that the read of the second reply finds on the
  connection.
\<close>

definition readySends :: "Response4 \<Rightarrow> error option \<Rightarrow> error option list" where
  "readySends resp2 err =
     (case err of None \<Rightarrow> [] | Some e \<Rightarrow> [Some (ReadSecondBindResponse e)]) @
     (if \<not> IsGranted resp2 then [Some (ProxyRejectedBindFinalization (Code4 resp2))] else []) @
     [None]"

definition bindReady :: "reader \<Rightarrow> error option list" where
  "bindReady src =
     (case Response4_ReadFrom Response4_zero src of
        (resp2, n, err, src') \<Rightarrow> readySends resp2 err)"

text \<open>Go string literals as byte lists.\<close>

definition ascii :: "string \<Rightarrow> byte list" where
  "ascii s = map (\<lambda>c. of_nat (of_char c)) s"


section \<open>Package socks4: Listener\<close>

definition ReqGranted :: byte where "ReqGranted = 90"
definition ReqRejected :: byte where "ReqRejected = 91"

text \<open>
  A hook is a function from the connection and the request to the error it returns and
  the connection after the call; the \<open>ctx\<close> and \<open>opts\<close> arguments are left out, and a
  \<open>nil\<close> hook is \<open>None\<close>. \<open>OnError\<close> returns nothing: the model records the errors
  that are passed to it, in order. The read deadline of \<open>RequestReadTimeout\<close> is not
  modelled; hooks do not panic.
\<close>

type_synonym hook = "conn \<Rightarrow> Request4 \<Rightarrow> error option \<times> conn"

record ListenerOptions =
  OnAccept :: "(conn \<Rightarrow> error option \<times> conn) option"
  OnRequest :: "hook option"
  OnConnect :: "hook option"
  OnBind :: "hook option"

definition OnAcceptDefault :: "conn \<Rightarrow> error option \<times> conn" where
  "OnAcceptDefault c = (None, c)"

text \<open>
  The two statements \<open>resp.Init(0, code, port, ip); resp.WriteTo(conn)\<close> on a fresh
  response; the result of \<open>WriteTo\<close> is discarded by the callers.
\<close>

definition sendReply :: "conn \<Rightarrow> byte \<Rightarrow> u16 \<Rightarrow> netIP \<Rightarrow> conn" where
  "sendReply c code port ip =
     (case Response4_WriteTo (Response4_Init Response4_zero 0 code port ip) (c_out c) of
        (n, e, w) \<Rightarrow> c\<lparr>c_out := w\<rparr>)"

definition OnBindDefault :: hook where
  "OnBindDefault c req = (None, sendReply c ReqRejected 0 IPv4zero)"

text \<open>
  \<open>OnRequestDefault\<close> reads \<open>opts.OnConnect\<close> and \<open>opts.OnBind\<close> after the defaults
  have been filled in; here they are its first two arguments.
\<close>

definition OnRequestDefault :: "hook \<Rightarrow> hook \<Rightarrow> hook" where
  "OnRequestDefault onConnect onBind c req =
     (if Command4 req = CmdConnect then onConnect c req
      else if Command4 req = CmdBind then onBind c req
      else (Some (UnknownCommand (Command4 req)), sendReply c ReqRejected 0 IPv4zero))"

text \<open>
  The goroutine that \<open>ServeContext\<close> starts for an accepted connection, with the
  defaults of \<open>ServeContext\<close> for the hooks that are \<open>nil\<close>. \<open>OnConnectDefault\<close>, which
  dials the target and relays, is the parameter \<open>connectDefault\<close>. The result is the
  list of errors passed to \<open>OnError\<close> and the connection when the goroutine ends; the
  deferred \<open>conn.Close()\<close> runs on every path.
\<close>

definition handleConn :: "hook \<Rightarrow> ListenerOptions \<Rightarrow> conn \<Rightarrow> error list \<times> conn" where
  "handleConn connectDefault opts c =
     (let onAccept = (case OnAccept opts of None \<Rightarrow> OnAcceptDefault | Some f \<Rightarrow> f);
          onConnect = (case OnConnect opts of None \<Rightarrow> connectDefault | Some f \<Rightarrow> f);
          onBind = (case OnBind opts of None \<Rightarrow> OnBindDefault | Some f \<Rightarrow> f);
          onRequest = (case OnRequest opts of None \<Rightarrow> OnRequestDefault onConnect onBind | Some f \<Rightarrow> f)
      in case onAccept c of
           (Some e, c1) \<Rightarrow> ([e], Close c1)
         | (None, c1) \<Rightarrow>
             (case Request4_ReadFrom Request4_zero (c_in c1) of
                (req, n, Some e, src) \<Rightarrow> ([e], Close (c1\<lparr>c_in := src\<rparr>))
              | (req, n, None, src) \<Rightarrow>
                  (case onRequest (c1\<lparr>c_in := src\<rparr>) req of
                     (Some e, c2) \<Rightarrow> ([e], Close c2)
                   | (None, c2) \<Rightarrow> ([], Close c2))))"

text \<open>
  The main loop of \<open>ServeContext\<close> over the results of \<open>listener.Accept()\<close> until the
  context is done: a failed accept is reported to \<open>OnError\<close> and the loop goes on; each
  accepted connection is handled in a goroutine of its own, on its own connection, so the
  outcome per connection does not depend on the interleaving.
\<close>

fun ServeContext ::
  "hook \<Rightarrow> ListenerOptions \<Rightarrow> (error + conn) list \<Rightarrow> (error list \<times> conn option) list" where
  "ServeContext connectDefault opts [] = []"
| "ServeContext connectDefault opts (Inl e # accepts) =
     ([e], None) # ServeContext connectDefault opts accepts"
| "ServeContext connectDefault opts (Inr c # accepts) =
     (case handleConn connectDefault opts c of (errs, c') \<Rightarrow> (errs, Some c'))
       # ServeContext connectDefault opts accepts"

section \<open>Package socks4: BindContext and its goroutines\<close>

text \<open>
  \<open>BindContext\<close> with its context: the body of the function, the watcher goroutine
  that waits for \<open>ctx.Done()\<close> or \<open>exitCh\<close>, the goroutine that reads the second
  reply, and the caller receiving from \<open>readyCh\<close>, as a step function driven by a
  schedule of events. The state starts right after the dial function has returned the
  proxy connection and the watcher has been started.

  In this model bytes from the proxy arrive by events. A read of a reply on a closed
  connection fails with \<open>net.ErrClosed\<close>, on an open one it blocks (\<open>None\<close>) until
  eight bytes have arrived; a write on a closed connection fails.
\<close>

definition conn_ReadFrom :: "conn \<Rightarrow> (Response4 \<times> error option \<times> conn) option" where
  "conn_ReadFrom c =
     (if c_closed c then Some (Response4_zero, Some ErrClosed, c)
      else if length (c_in c) < 8 then None
      else (case Response4_ReadFrom Response4_zero (c_in c) of
              (resp, n, e, src) \<Rightarrow> Some (resp, e, c\<lparr>c_in := src\<rparr>)))"

definition conn_WriteTo :: "Request4 \<Rightarrow> conn \<Rightarrow> error option \<times> conn" where
  "conn_WriteTo req c =
     (if c_closed c then (Some ErrClosed, c)
      else (case Request4_WriteTo req (c_out c) of (n, e, w) \<Rightarrow> (e, c\<lparr>c_out := w\<rparr>)))"

text \<open>
  Where the body of \<open>BindContext\<close> stands: before parsing the address and sending the
  request, blocked in \<open>resp1.ReadFrom\<close>, returned with a bind address, or returned with
  an error. Where the readiness goroutine stands: not started, blocked in
  \<open>resp2.ReadFrom\<close>, about to send the listed values and then close \<open>readyCh\<close>, or
  ended.
\<close>

datatype mainpc = Parsing | AwaitFirst | Returned "netIP \<times> nat" | Failed error

datatype readypc = NotStarted | Reading | Sending "error option list" | Finished

record bind =
  cancelled :: bool
  exitCh :: bool
  watching :: bool
  proxyConn :: conn
  mainpc :: mainpc
  readypc :: readypc
  readyCh :: "error option list"
  readyCh_closed :: bool
  received :: "error option list"

text \<open>
  \<open>cancelled\<close>: \<open>ctx.Done()\<close> is closed. \<open>exitCh\<close>: the deferred \<open>close(exitCh)\<close> has
  run. \<open>watching\<close>: the watcher is still blocked in its \<open>select\<close>. \<open>readyCh\<close> is the
  buffer of the channel, of capacity 1; \<open>received\<close> is what the caller has received
  from it.
\<close>

definition bind_start :: "conn \<Rightarrow> bind" where
  "bind_start c =
     \<lparr>cancelled = False, exitCh = False, watching = True, proxyConn = c, mainpc = Parsing,
      readypc = NotStarted, readyCh = [], readyCh_closed = False, received = []\<rparr>"

datatype event = Cancel | Main | WatchDone | WatchExit | Arrive "byte list" | Ready | Receive

text \<open>A failure path of the body: \<open>proxyConn.Close()\<close>, return the error, \<open>close(exitCh)\<close>.\<close>

definition fail :: "bind \<Rightarrow> error \<Rightarrow> bind" where
  "fail s e = s\<lparr>proxyConn := Close (proxyConn s), mainpc := Failed e, exitCh := True\<rparr>"

definition step_main :: "netpkg \<Rightarrow> Dialer \<Rightarrow> byte list \<Rightarrow> bind \<Rightarrow> bind" where
  "step_main env d address s =
     (case mainpc s of
        Parsing \<Rightarrow>
          (case SplitHostPort env address of
             Inl e \<Rightarrow> fail s (InvalidTargetAddress e)
           | Inr (host, portStr) \<Rightarrow>
               (case parsePort env portStr of
                  Inl e \<Rightarrow> fail s (InvalidTargetPort portStr e)
                | Inr port \<Rightarrow>
                    (case conn_WriteTo (buildRequest env CmdBind port (UserID d) host) (proxyConn s) of
                       (Some e, c) \<Rightarrow> fail (s\<lparr>proxyConn := c\<rparr>) (SendBindRequest e)
                     | (None, c) \<Rightarrow> s\<lparr>proxyConn := c, mainpc := AwaitFirst\<rparr>)))
      | AwaitFirst \<Rightarrow>
          (case conn_ReadFrom (proxyConn s) of
             None \<Rightarrow> s
           | Some (resp1, Some e, c) \<Rightarrow> fail (s\<lparr>proxyConn := c\<rparr>) (ReadFirstBindResponse e)
           | Some (resp1, None, c) \<Rightarrow>
               if \<not> IsGranted resp1
               then fail (s\<lparr>proxyConn := c\<rparr>) (ProxyRejectedBindSetup (Code4 resp1))
               else s\<lparr>proxyConn := c, readypc := Reading,
                      mainpc := Returned (Response4_GetIP resp1, unat (RPort4 resp1)),
                      exitCh := True\<rparr>)
      | Returned a \<Rightarrow> s
      | Failed e \<Rightarrow> s)"

text \<open>
  The watcher's \<open>select\<close>: the case \<open>ctx.Done()\<close> closes the proxy connection, the case
  \<open>exitCh\<close> returns. When both channels are closed either case may be taken; the
  schedule names the case.
\<close>

definition step_watch :: "bool \<Rightarrow> bind \<Rightarrow> bind" where
  "step_watch done s =
     (if \<not> watching s then s
      else if done then
        (if cancelled s then s\<lparr>proxyConn := Close (proxyConn s), watching := False\<rparr> else s)
      else
        (if exitCh s then s\<lparr>watching := False\<rparr> else s))"

text \<open>
  The readiness goroutine: the read of the second reply, then one send per step; a send
  waits while the buffer of \<open>readyCh\<close> is full.
\<close>

definition step_ready :: "bind \<Rightarrow> bind" where
  "step_ready s =
     (case readypc s of
        NotStarted \<Rightarrow> s
      | Reading \<Rightarrow>
          (case conn_ReadFrom (proxyConn s) of
             None \<Rightarrow> s
           | Some (resp2, err, c) \<Rightarrow> s\<lparr>proxyConn := c, readypc := Sending (readySends resp2 err)\<rparr>)
      | Sending vs \<Rightarrow>
          (case vs of
             [] \<Rightarrow> s\<lparr>readyCh_closed := True, readypc := Finished\<rparr>
           | v # vs' \<Rightarrow>
               if length (readyCh s) < 1 then s\<lparr>readyCh := readyCh s @ [v], readypc := Sending vs'\<rparr>
               else s)
      | Finished \<Rightarrow> s)"

definition step :: "netpkg \<Rightarrow> Dialer \<Rightarrow> byte list \<Rightarrow> event \<Rightarrow> bind \<Rightarrow> bind" where
  "step env d address ev s =
     (case ev of
        Cancel \<Rightarrow> s\<lparr>cancelled := True\<rparr>
      | Main \<Rightarrow> step_main env d address s
      | WatchDone \<Rightarrow> step_watch True s
      | WatchExit \<Rightarrow> step_watch False s
      | Arrive bs \<Rightarrow> s\<lparr>proxyConn := (proxyConn s)\<lparr>c_in := c_in (proxyConn s) @ bs\<rparr>\<rparr>
      | Ready \<Rightarrow> step_ready s
      | Receive \<Rightarrow>
          (case readyCh s of
             [] \<Rightarrow> s
           | v # vs \<Rightarrow> s\<lparr>readyCh := vs, received := received s @ [v]\<rparr>))"

primrec run :: "netpkg \<Rightarrow> Dialer \<Rightarrow> byte list \<Rightarrow> event list \<Rightarrow> bind \<Rightarrow> bind" where
  "run env d address [] s = s"
| "run env d address (ev # evs) s = run env d address evs (step env d address ev s)"

definition is_Arrive :: "event \<Rightarrow> bool" where
  "is_Arrive ev = (case ev of Arrive bs \<Rightarrow> True | _ \<Rightarrow> False)"


section \<open>Results about the SOCKS4 request\<close>

definition ReadString_post ::
  "bufioReader \<Rightarrow> byte \<Rightarrow> byte list \<Rightarrow> byte list \<times> error option \<times> bufioReader \<Rightarrow> bool" where
  "ReadString_post b d acc res =
     (case res of (outp, e, b') \<Rightarrow>
        b_err b' = None \<and> length (b_buf b') \<le> bufSize \<and>
        (if d \<in> set (window b)
           then e = None \<and> outp = acc @ takeWhile (\<lambda>x. x \<noteq> d) (window b) @ [d]
         else e = Some EOF \<and> outp = acc @ window b) \<and>
        stream b' = drop (length outp - length acc) (stream b) \<and>
        window b' = drop (length outp - length acc) (window b))"

lemma takeWhile_skip:
  "d \<notin> set xs \<Longrightarrow> takeWhile (\<lambda>x. x \<noteq> d) (xs @ ys) = xs @ takeWhile (\<lambda>x. x \<noteq> d) ys"
  by (induction xs) auto

lemma collectFragments_spec_aux:
  "b_err b = None \<longrightarrow> length (b_buf b) \<le> bufSize \<longrightarrow>
   ReadString_post b d acc (collectFragments acc b d)"
proof (induction acc b d rule: collectFragments.induct)
  case (1 acc b d)
  show ?case
  proof (intro impI)
    assume e: "b_err b = None" and l: "length (b_buf b) \<le> bufSize"
    obtain frag e1 b1 where rs: "ReadSlice b d = (frag, e1, b1)"
      by (cases "ReadSlice b d") auto
    have post: "ReadSlice_post b d (frag, e1, b1)"
      using ReadSlice_spec [OF e l, of d] rs by simp
    show "ReadString_post b d acc (collectFragments acc b d)"
    proof (cases "e1 = Some ErrBufferFull")
      case False
      have cf: "collectFragments acc b d = (acc @ frag, e1, b1)"
        using rs False by (subst collectFragments.simps) (auto split: option.splits)
      have inw: "d \<in> set (window b) \<Longrightarrow> d \<in> set (take bufSize (window b))"
        using post False unfolding ReadSlice_post_def
        by (auto split: if_splits)
      show ?thesis unfolding cf ReadString_post_def using post False inw
        unfolding ReadSlice_post_def
        by (auto split: if_splits dest: in_set_takeD)
    next
      case True
      have cf: "collectFragments acc b d = collectFragments (acc @ frag) b1 d"
        using rs True by (subst collectFragments.simps) simp
      have p: "b_err b1 = None" "length (b_buf b1) \<le> bufSize"
        "stream b1 = drop bufSize (stream b)" "window b1 = drop bufSize (window b)"
        "frag = take bufSize (window b)" "d \<notin> set (take bufSize (window b))"
        "length frag = bufSize"
        using post True unfolding ReadSlice_post_def by (auto split: if_splits)
      have ih: "ReadString_post b1 d (acc @ frag) (collectFragments (acc @ frag) b1 d)"
        using "1.IH" [of frag "(e1, b1)" e1 b1 ErrBufferFull] rs True p by simp
      have w: "window b = frag @ window b1" using p(4,5) by simp
      have nf: "d \<notin> set frag" using p(5,6) by simp
      have mem: "d \<in> set (window b) \<longleftrightarrow> d \<in> set (window b1)"
        using nf by (subst w) auto
      have tw: "takeWhile (\<lambda>x. x \<noteq> d) (window b) = frag @ takeWhile (\<lambda>x. x \<noteq> d) (window b1)"
        using nf by (subst w) (simp add: takeWhile_skip)
      obtain outp e2 b2 where r2: "collectFragments (acc @ frag) b1 d = (outp, e2, b2)"
        by (cases "collectFragments (acc @ frag) b1 d") auto
      have ge: "length outp \<ge> length acc + bufSize"
        using ih p(7) unfolding r2 ReadString_post_def by (auto split: if_splits)
      then have d: "length outp - length acc = bufSize + (length outp - length (acc @ frag))"
        using p(7) by simp
      have i: "b_err b2 = None" "length (b_buf b2) \<le> bufSize"
        "if d \<in> set (window b1)
           then e2 = None \<and> outp = (acc @ frag) @ takeWhile (\<lambda>x. x \<noteq> d) (window b1) @ [d]
         else e2 = Some EOF \<and> outp = (acc @ frag) @ window b1"
        "stream b2 = drop (length outp - length (acc @ frag)) (stream b1)"
        "window b2 = drop (length outp - length (acc @ frag)) (window b1)"
        using ih unfolding r2 ReadString_post_def by simp_all
      have s2: "stream b2 = drop (length outp - length acc) (stream b)"
        unfolding i(4) p(3) drop_drop d by (simp add: add.commute)
      have w2: "window b2 = drop (length outp - length acc) (window b)"
        unfolding i(5) p(4) drop_drop d by (simp add: add.commute)
      have c: "if d \<in> set (window b)
           then e2 = None \<and> outp = acc @ takeWhile (\<lambda>x. x \<noteq> d) (window b) @ [d]
         else e2 = Some EOF \<and> outp = acc @ window b"
        using i(3) unfolding mem tw by (simp add: w)
      show ?thesis unfolding cf r2 ReadString_post_def prod.case
        using i(1,2) s2 w2 c by blast
    qed
  qed
qed

lemma ReadString_spec:
  "b_err b = None \<Longrightarrow> length (b_buf b) \<le> bufSize \<Longrightarrow> ReadString_post b d [] (ReadString b d)"
  unfolding ReadString_def using collectFragments_spec_aux by blast



definition consumed_ok :: "bufioReader \<Rightarrow> bufioReader \<Rightarrow> bool" where
  "consumed_ok b b' \<longleftrightarrow>
     int (length (lr_R (b_rd b))) - lr_N (b_rd b) = int (length (lr_R (b_rd b'))) - lr_N (b_rd b') \<and>
     (0 \<le> lr_N (b_rd b) \<longrightarrow> 0 \<le> lr_N (b_rd b')) \<and>
     (lr_N (b_rd b) \<le> 0 \<longrightarrow> b_rd b' = b_rd b) \<and>
     length (lr_R (b_rd b')) \<le> length (lr_R (b_rd b))"

lemma consumed_ok_refl [simp]: "consumed_ok b b"
  by (simp add: consumed_ok_def)

lemma consumed_ok_trans: "consumed_ok a b \<Longrightarrow> consumed_ok b c \<Longrightarrow> consumed_ok a c"
  by (auto simp: consumed_ok_def)

lemma consumed_ok_fill: "length (b_buf b) < bufSize \<Longrightarrow> consumed_ok b (fill b)"
  by (auto simp: fill_cases consumed_ok_def Let_def min_def)

lemma consumed_ok_upd [simp]:
  "consumed_ok b (b'\<lparr>b_buf := x\<rparr>) = consumed_ok b b'"
  "consumed_ok b (b'\<lparr>b_err := y\<rparr>) = consumed_ok b b'"
  by (simp_all add: consumed_ok_def)

lemma ReadSlice_consumed:
  "consumed_ok b (snd (snd (ReadSlice b d)))"
proof (induction b d rule: ReadSlice.induct)
  case (1 b d)
  show ?case
  proof (cases "d \<in> set (b_buf b) \<or> b_err b \<noteq> None \<or> bufSize \<le> length (b_buf b)")
    case True
    then show ?thesis by (subst ReadSlice.simps) (auto simp: Let_def)
  next
    case False
    then have rs: "ReadSlice b d = ReadSlice (fill b) d"
      by (subst ReadSlice.simps) simp
    have "consumed_ok (fill b) (snd (snd (ReadSlice (fill b) d)))"
      using "1.IH" False by simp
    moreover have "consumed_ok b (fill b)" using False consumed_ok_fill by simp
    ultimately show ?thesis unfolding rs using consumed_ok_trans by blast
  qed
qed

lemma collectFragments_consumed:
  "consumed_ok b (snd (snd (collectFragments acc b d)))"
proof (induction acc b d rule: collectFragments.induct)
  case (1 acc b d)
  obtain frag e1 b1 where rs: "ReadSlice b d = (frag, e1, b1)"
    by (cases "ReadSlice b d") auto
  have c1: "consumed_ok b b1" using ReadSlice_consumed [of b d] rs by simp
  show ?case
  proof (cases "e1 = Some ErrBufferFull")
    case False
    then have "collectFragments acc b d = (acc @ frag, e1, b1)"
      using rs by (subst collectFragments.simps) (auto split: option.splits)
    then show ?thesis using c1 by simp
  next
    case True
    then have cf: "collectFragments acc b d = collectFragments (acc @ frag) b1 d"
      using rs by (subst collectFragments.simps) simp
    have "consumed_ok b1 (snd (snd (collectFragments (acc @ frag) b1 d)))"
      using "1.IH" [of frag "(e1, b1)" e1 b1 ErrBufferFull] rs True by simp
    then show ?thesis unfolding cf using c1 consumed_ok_trans by blast
  qed
qed

lemma ReadString_consumed: "consumed_ok b (snd (snd (ReadString b d)))"
  unfolding ReadString_def by (rule collectFragments_consumed)

text \<open>A reader just taken from the pool, over \<open>src\<close> limited to \<open>n\<close> bytes.\<close>

definition fresh :: "reader \<Rightarrow> int \<Rightarrow> bufioReader" where
  "fresh src n = \<lparr>b_rd = \<lparr>lr_R = src, lr_N = n\<rparr>, b_buf = [], b_err = None\<rparr>"

lemma ReadString_fresh:
  assumes "ReadString (fresh src n) d = (outp, e, b')"
  shows "(if d \<in> set (take (nat n) src)
            then e = None \<and> outp = takeWhile (\<lambda>x. x \<noteq> d) src @ [d]
          else e = Some EOF \<and> outp = take (nat n) src)"
    and "b_err b' = None" and "length (b_buf b') \<le> bufSize"
    and "b_buf b' @ lr_R (b_rd b') = drop (length outp) src"
    and "int (length src) - int (length (lr_R (b_rd b'))) \<le> max 0 n"
    and "length (lr_R (b_rd b')) \<le> length src"
proof -
  have post: "ReadString_post (fresh src n) d [] (outp, e, b')"
    using ReadString_spec [of "fresh src n" d] assms by (simp add: fresh_def)
  have w: "window (fresh src n) = take (nat n) src" and s: "stream (fresh src n) = src"
    by (simp_all add: window_def stream_def fresh_def)
  have tw: "d \<in> set (take (nat n) src) \<Longrightarrow>
      takeWhile (\<lambda>x. x \<noteq> d) (take (nat n) src) = takeWhile (\<lambda>x. x \<noteq> d) src"
    using takeWhile_prefix_found [of d "take (nat n) src" "drop (nat n) src"] by simp
  show "(if d \<in> set (take (nat n) src)
            then e = None \<and> outp = takeWhile (\<lambda>x. x \<noteq> d) src @ [d]
          else e = Some EOF \<and> outp = take (nat n) src)"
    using post tw unfolding ReadString_post_def w by (auto split: if_splits)
  show "b_err b' = None" "length (b_buf b') \<le> bufSize"
    using post unfolding ReadString_post_def by auto
  show "b_buf b' @ lr_R (b_rd b') = drop (length outp) src"
    using post unfolding ReadString_post_def s by (auto simp: stream_def)
  have c: "consumed_ok (fresh src n) b'" using ReadString_consumed [of "fresh src n" d] assms by simp
  show "int (length src) - int (length (lr_R (b_rd b'))) \<le> max 0 n"
    using c by (auto simp: consumed_ok_def fresh_def)
  show "length (lr_R (b_rd b')) \<le> length src"
    using c by (auto simp: consumed_ok_def fresh_def)
qed

lemma bytes4_nth [simp]:
  "bytes4 (a, b, c, d) ! 0 = a" "bytes4 (a, b, c, d) ! 1 = b"
  "bytes4 (a, b, c, d) ! 2 = c" "bytes4 (a, b, c, d) ! 3 = d"
  "bytes4 (a, b, c, d) ! Suc 0 = b"
  by (simp_all add: bytes4_def numeral_2_eq_2 numeral_3_eq_3)

lemma length_bytes4 [simp]: "length (bytes4 a) = 4"
  by (cases a) (simp add: bytes4_def)

lemma IsSOCKS4a_iff:
  "IsSOCKS4a r \<longleftrightarrow> (\<exists>x. x \<noteq> 0 \<and> IP4 r = (0, 0, 0, x))"
  by (cases "IP4 r") (auto simp: IsSOCKS4a_def slice_def)

lemma To4_bytes4 [simp]: "To4 (Some (bytes4 a)) = Some (bytes4 a)"
  by (simp add: To4_def slice_def)

lemma IP_Equal_zero: "IP_Equal (Some (bytes4 a)) IPv4zero \<longleftrightarrow> a = (0, 0, 0, 0)"
  by (cases a) (auto simp: IP_Equal_def slice_def IPv4zero_def IPv4_def v4InV6Prefix_def bytes4_def)

text \<open>
  C4. A request is classified as SOCKS4a exactly when its IP is 0.0.0.x with x not 0;
  with IP 0.0.0.1 and a non-empty domain the domain validation passes and the request is
  SOCKS4a; with IP 127.0.0.1 and a non-empty domain the domain validation fails; 0.0.0.0 is
  never SOCKS4a; with IP 0.0.0.0 the header validation fails for CONNECT and, for a
  version-4 request, passes for BIND.
\<close>

theorem C4_socks4a_address_rule:
  "(IsSOCKS4a r \<longleftrightarrow> (\<exists>x. x \<noteq> 0 \<and> IP4 r = (0, 0, 0, x))) \<and>
   (IP4 r = (0, 0, 0, 1) \<and> Domain4 r \<noteq> [] \<longrightarrow> ValidateDomain r = None \<and> IsSOCKS4a r) \<and>
   (IP4 r = (127, 0, 0, 1) \<and> Domain4 r \<noteq> [] \<longrightarrow> ValidateDomain r = Some ErrInvalidDomain) \<and>
   (IP4 r = (0, 0, 0, 0) \<longrightarrow> \<not> IsSOCKS4a r) \<and>
   (IP4 r = (0, 0, 0, 0) \<and> Command4 r = CmdConnect \<longrightarrow> ValidateHeader r \<noteq> None) \<and>
   (IP4 r = (0, 0, 0, 0) \<and> Command4 r = CmdBind \<and> Version4 r = SocksVersion
      \<longrightarrow> ValidateHeader r = None)"
  by (auto simp: IsSOCKS4a_iff ValidateDomain_def ValidateHeader_def IP_Equal_zero
      CmdBind_def CmdConnect_def)

theorem C4_socks4a_address_rule_witness:
  "IsSOCKS4a (Request4_zero\<lparr>IP4 := (0, 0, 0, 1), Domain4 := [101]\<rparr>) \<and>
   ValidateDomain (Request4_zero\<lparr>IP4 := (0, 0, 0, 1), Domain4 := [101]\<rparr>) = None \<and>
   ValidateDomain (Request4_zero\<lparr>IP4 := (127, 0, 0, 1), Domain4 := [101]\<rparr>)
     = Some ErrInvalidDomain \<and>
   \<not> IsSOCKS4a Request4_zero \<and>
   ValidateHeader (Request4_zero\<lparr>Version4 := SocksVersion, Command4 := CmdConnect\<rparr>) \<noteq> None \<and>
   ValidateHeader (Request4_zero\<lparr>Version4 := SocksVersion, Command4 := CmdBind\<rparr>) = None"
  using C4_socks4a_address_rule [of "Request4_zero\<lparr>IP4 := (0, 0, 0, 1), Domain4 := [101]\<rparr>"]
    C4_socks4a_address_rule [of "Request4_zero\<lparr>IP4 := (127, 0, 0, 1), Domain4 := [101]\<rparr>"]
    C4_socks4a_address_rule [of "Request4_zero"]
    C4_socks4a_address_rule [of "Request4_zero\<lparr>Version4 := SocksVersion, Command4 := CmdConnect\<rparr>"]
    C4_socks4a_address_rule [of "Request4_zero\<lparr>Version4 := SocksVersion, Command4 := CmdBind\<rparr>"]
  by (simp add: Request4_zero_def)

subsection \<open>Bounded scanning\<close>

lemma sint_succ_pos:
  assumes "0 < sint (m + 1 :: 64 word)"
  shows "sint (m + 1) = sint m + 1"
proof -
  have eq: "sint (m + 1) = signed_take_bit 63 (sint m + 1)"
    by (simp add: sint_word_ariths)
  have lo: "- (2 ^ 63) \<le> sint m" and hi: "sint m < 2 ^ 63"
    using sint_ge [of m] sint_lt [of m] by simp_all
  show ?thesis
  proof (cases "sint m + 1 < 2 ^ 63")
    case True
    then have "signed_take_bit 63 (sint m + 1) = sint m + 1"
      using lo by (intro signed_take_bit_int_eq_self) simp_all
    then show ?thesis using eq by simp
  next
    case False
    then have "sint m + 1 = 2 ^ 63" using hi by simp
    then have "sint (m + 1) = signed_take_bit 63 (2 ^ 63 :: int)" using eq by simp
    also have "\<dots> = - (2 ^ 63)" by (simp add: signed_take_bit_eq_take_bit_minus)
    finally show ?thesis using assms by simp
  qed
qed

lemma ReadUserIDAndDomain_fresh:
  "ReadUserIDAndDomain r src mu md =
     (case ReadString (fresh src (sint (mu + 1))) 0 of
        (userID, Some e, rdr1) \<Rightarrow> (r, length userID, Some e, lr_R (b_rd rdr1))
      | (userID, None, rdr1) \<Rightarrow>
          (let r1 = r\<lparr>UserID4 := butlast userID\<rparr> in
           if IsSOCKS4a r then
             (case ReadString (rdr1\<lparr>b_rd := LimitedReader_Init (b_rd rdr1) (lr_R (b_rd rdr1)) (sint (md + 1))\<rparr>) 0 of
                (domain, Some e, rdr3) \<Rightarrow>
                  (r1, length userID + length domain, Some e, lr_R (b_rd rdr3))
              | (domain, None, rdr3) \<Rightarrow>
                  (r1\<lparr>Domain4 := butlast domain\<rparr>, length userID + length domain, None,
                   lr_R (b_rd rdr3)))
           else (r1, length userID, None, lr_R (b_rd rdr1))))"
proof -
  have f: "(GetReader \<lparr>lr_R = [], lr_N = 0\<rparr>)\<lparr>b_rd :=
        LimitedReader_Init (b_rd (GetReader \<lparr>lr_R = [], lr_N = 0\<rparr>)) src (sint (mu + 1))\<rparr>
      = fresh src (sint (mu + 1))"
    by (simp add: fresh_def GetReader_def LimitedReader_Init_def)
  have a: "\<And>u. IsSOCKS4a (r\<lparr>UserID4 := u\<rparr>) = IsSOCKS4a r"
    by (simp add: IsSOCKS4a_def)
  show ?thesis
    unfolding ReadUserIDAndDomain_def Let_def f a ..
qed


lemma ReadString_consumed_bound:
  assumes "ReadString b d = (outp, e, b')"
  shows "int (length (lr_R (b_rd b))) - int (length (lr_R (b_rd b'))) \<le> max 0 (lr_N (b_rd b))"
  using ReadString_consumed [of b d] assms by (auto simp: consumed_ok_def)

lemma takeWhile_take_less:
  assumes "d \<in> set (take k xs)"
  shows "length (takeWhile (\<lambda>x. x \<noteq> d) xs) < k"
proof -
  have "takeWhile (\<lambda>x. x \<noteq> d) xs = takeWhile (\<lambda>x. x \<noteq> d) (take k xs)"
    using takeWhile_prefix_found [OF assms, of "drop k xs"] by simp
  also have "length \<dots> < length (take k xs)" using takeWhile_less_length [OF assms] .
  finally show ?thesis by simp
qed

lemma userID_phase:
  assumes "ReadString (fresh src (sint (mu + 1))) 0 = (userID, e1, b1)"
  shows "e1 = None \<Longrightarrow> int (length (butlast userID)) \<le> sint (mu :: 64 word)"
    and "0 \<notin> set (take (nat (sint mu + 1)) src) \<Longrightarrow> e1 = Some EOF"
    and "int (length src) - int (length (lr_R (b_rd b1))) \<le> max 0 (sint mu + 1)"
proof -
  note f = ReadString_fresh [OF assms]
  have n1: "0 < sint (mu + 1) \<Longrightarrow> sint (mu + 1) = sint mu + 1"
    by (rule sint_succ_pos)
  show "e1 = None \<Longrightarrow> int (length (butlast userID)) \<le> sint mu"
  proof -
    assume "e1 = None"
    then have m: "0 \<in> set (take (nat (sint (mu + 1))) src)"
      and u: "userID = takeWhile (\<lambda>x. x \<noteq> 0) src @ [0]"
      using f(1) by (auto split: if_splits)
    have pos: "0 < sint (mu + 1)" using m by (cases "0 < sint (mu + 1)") auto
    have "length (takeWhile (\<lambda>x. x \<noteq> 0) src) < nat (sint (mu + 1))"
      using takeWhile_take_less [OF m] .
    then show ?thesis using u n1 [OF pos] by simp
  qed
  show "0 \<notin> set (take (nat (sint mu + 1)) src) \<Longrightarrow> e1 = Some EOF"
  proof -
    assume a: "0 \<notin> set (take (nat (sint mu + 1)) src)"
    have "0 \<notin> set (take (nat (sint (mu + 1))) src)"
    proof (cases "0 < sint (mu + 1)")
      case True then show ?thesis using a n1 by simp
    next
      case False then show ?thesis by simp
    qed
    then show ?thesis using f(1) by simp
  qed
  show "int (length src) - int (length (lr_R (b_rd b1))) \<le> max 0 (sint mu + 1)"
  proof (cases "0 < sint (mu + 1)")
    case True then show ?thesis using f(5) n1 by simp
  next
    case False then show ?thesis using f(5) by simp
  qed
qed

lemma domain_phase:
  assumes "ReadString (b1\<lparr>b_rd := LimitedReader_Init (b_rd b1) (lr_R (b_rd b1)) (sint (md + 1))\<rparr>) 0
            = (domain, e2, b3)"
  shows "int (length (lr_R (b_rd b1))) - int (length (lr_R (b_rd b3))) \<le> max 0 (sint (md :: 64 word) + 1)"
proof -
  have "int (length (lr_R (b_rd b1))) - int (length (lr_R (b_rd b3))) \<le> max 0 (sint (md + 1))"
    using ReadString_consumed_bound [OF assms] by (simp add: LimitedReader_Init_def)
  moreover have "max 0 (sint (md + 1)) \<le> max 0 (sint md + 1)"
    using sint_succ_pos [of md] by (cases "0 < sint (md + 1)") auto
  ultimately show ?thesis by linarith
qed

text \<open>
  C3 (as amended). Decoding the NUL-terminated fields of a SOCKS4/4a request: a decoded
  user id has at most \<open>maxUserIDLen\<close> bytes (the terminator not counted); the scan of
  a field reads at most its maximum plus one bytes from the stream; and when no terminator
  is found among the first \<open>maxUserIDLen + 1\<close> bytes of the stream the error is
  \<open>io.EOF\<close>, whether the stream ended there or the limit was reached first.
\<close>

theorem C3_bounded_scan:
  "case ReadUserIDAndDomain r src maxUserIDLen maxDomainLen of
     (r', n, e, src') \<Rightarrow>
       (e = None \<longrightarrow> int (length (UserID4 r')) \<le> sint maxUserIDLen) \<and>
       int (length src) - int (length src')
         \<le> (if IsSOCKS4a r
             then max 0 (sint maxUserIDLen + 1) + max 0 (sint maxDomainLen + 1)
             else max 0 (sint maxUserIDLen + 1)) \<and>
       (0 \<notin> set (take (nat (sint maxUserIDLen + 1)) src) \<longrightarrow> e = Some EOF)"
proof -
  obtain userID e1 b1 where p1:
    "ReadString (fresh src (sint (maxUserIDLen + 1))) 0 = (userID, e1, b1)"
    by (cases "ReadString (fresh src (sint (maxUserIDLen + 1))) 0") auto
  note u = userID_phase [OF p1]
  show ?thesis
  proof (cases e1)
    case (Some e)
    then show ?thesis using p1 u(2,3)
      by (auto simp: ReadUserIDAndDomain_fresh)
  next
    case None
    show ?thesis
    proof (cases "IsSOCKS4a r")
      case False
      then show ?thesis using p1 None u
        by (auto simp: ReadUserIDAndDomain_fresh)
    next
      case True
      obtain domain e2 b3 where p2:
        "ReadString (b1\<lparr>b_rd := LimitedReader_Init (b_rd b1) (lr_R (b_rd b1))
           (sint (maxDomainLen + 1))\<rparr>) 0 = (domain, e2, b3)"
        by (cases "ReadString (b1\<lparr>b_rd := LimitedReader_Init (b_rd b1) (lr_R (b_rd b1))
           (sint (maxDomainLen + 1))\<rparr>) 0") auto
      note d = domain_phase [OF p2]
      have tot: "int (length src) - int (length (lr_R (b_rd b3)))
          \<le> max 0 (sint maxUserIDLen + 1) + max 0 (sint maxDomainLen + 1)"
        using u(3) d by linarith
      show ?thesis using p1 p2 None True u(1,2) tot
        by (cases e2) (auto simp: ReadUserIDAndDomain_fresh Let_def)
    qed
  qed
qed

theorem C3_bounded_scan_witness:
  "fst (snd (snd (ReadUserIDAndDomain Request4_zero [117, 118, 0] 2 1))) = None \<and>
   int (length (UserID4 (fst (ReadUserIDAndDomain Request4_zero [117, 118, 0] 2 1)))) \<le> 2 \<and>
   0 \<notin> set (take (nat (sint (2 :: 64 word) + 1)) [117, 118, 119, 0 :: byte]) \<and>
   fst (snd (snd (ReadUserIDAndDomain Request4_zero [117, 118, 119, 0] 2 1))) = Some EOF"
proof -
  have a: "fst (snd (snd (ReadUserIDAndDomain Request4_zero [117, 118, 0] 2 1))) = None"
    by code_simp
  have b: "0 \<notin> set (take (nat (sint (2 :: 64 word) + 1)) [117, 118, 119, 0 :: byte])"
    by simp
  show ?thesis
    using a b
      C3_bounded_scan [where r = Request4_zero and src = "[117, 118, 0]"
        and maxUserIDLen = 2 and maxDomainLen = 1]
      C3_bounded_scan [where r = Request4_zero and src = "[117, 118, 119, 0]"
        and maxUserIDLen = 2 and maxDomainLen = 1]
    by (auto split: prod.splits)
qed

text \<open>
  C3 as stated fails: a user id longer than its limit and a stream that ends before the
  terminator are reported by the same error, \<open>io.EOF\<close>; and a domain that was
  buffered while the user id was read is accepted beyond \<open>maxDomainLen\<close>.
\<close>

theorem C3_same_error_counterexample:
  "fst (snd (snd (ReadUserIDAndDomain Request4_zero [117, 118, 119, 0] 2 1)))
     = fst (snd (snd (ReadUserIDAndDomain Request4_zero [117, 118, 119] 5 1))) \<and>
   fst (snd (snd (ReadUserIDAndDomain Request4_zero [117, 118, 119] 5 1))) = Some EOF \<and>
   Domain4 (fst (ReadUserIDAndDomain (Request4_zero\<lparr>IP4 := (0, 0, 0, 1)\<rparr>)
                  [117, 0, 97, 98, 99, 0] 5 1)) = [97, 98, 99]"
  by code_simp

subsection \<open>Writing a request\<close>

text \<open>
  The wire form of a request, \<open>VN CD DSTPORT DSTIP USERID 0 [DOMAIN 0]\<close>, as one byte
  string; \<open>Request4_WriteTo_ok\<close> below shows that it is what \<open>WriteTo\<close> writes.
  \<open>never_fails\<close> is a writer whose every \<open>Write\<close> succeeds, \<open>failed_between w w'\<close>
  says that one of the \<open>Write\<close> calls made between the writer states \<open>w\<close> and
  \<open>w'\<close> returned an error.
\<close>

definition Request4_bytes :: "Request4 \<Rightarrow> byte list" where
  "Request4_bytes r =
     Request4_header r @ UserID4 r @ [0] @ (if IsSOCKS4a r then Domain4 r @ [0] else [])"

definition never_fails :: "writer \<Rightarrow> bool" where
  "never_fails w \<longleftrightarrow> (\<forall>i. w_faults w i = None)"

definition failed_between :: "writer \<Rightarrow> writer \<Rightarrow> bool" where
  "failed_between w w' \<longleftrightarrow> (\<exists>i. w_calls w \<le> i \<and> i < w_calls w' \<and> w_faults w i \<noteq> None)"

definition write_result :: "writer \<Rightarrow> nat \<times> error option \<times> writer \<Rightarrow> bool" where
  "write_result w res =
     (case res of (n, e, w') \<Rightarrow>
        w_faults w' = w_faults w \<and> w_calls w \<le> w_calls w' \<and>
        (e \<noteq> None \<longleftrightarrow> failed_between w w') \<and>
        length (w_out w) \<le> length (w_out w') \<and>
        (e = None \<longrightarrow> n = length (w_out w') - length (w_out w)))"

lemma Write_ok:
  "never_fails w \<Longrightarrow> Write w p = (length p, None, w\<lparr>w_out := w_out w @ p, w_calls := Suc (w_calls w)\<rparr>)"
  by (simp add: Write_def never_fails_def)

lemma never_fails_upd [simp]:
  "never_fails (w\<lparr>w_out := x\<rparr>) = never_fails w"
  "never_fails (w\<lparr>w_calls := y\<rparr>) = never_fails w"
  by (simp_all add: never_fails_def)

lemma never_fails_buffer [simp]: "never_fails buffer"
  by (simp add: never_fails_def buffer_def)

lemma writeCString_ok:
  "never_fails w \<Longrightarrow> \<exists>c. writeCString w s = (length s + 1, None, w\<lparr>w_out := w_out w @ s @ [0], w_calls := c\<rparr>)"
  by (cases "s = []") (auto simp: writeCString_def Write_ok)

lemma Request4_WriteTo_ok:
  assumes "never_fails w"
  shows "\<exists>c. Request4_WriteTo r w =
     (length (Request4_bytes r), None, w\<lparr>w_out := w_out w @ Request4_bytes r, w_calls := c\<rparr>)"
proof -
  let ?w1 = "w\<lparr>w_out := w_out w @ Request4_header r, w_calls := Suc (w_calls w)\<rparr>"
  obtain c where u: "writeCString ?w1 (UserID4 r)
      = (length (UserID4 r) + 1, None, ?w1\<lparr>w_out := w_out ?w1 @ UserID4 r @ [0], w_calls := c\<rparr>)"
    using writeCString_ok [of ?w1 "UserID4 r"] assms by auto
  let ?w2 = "?w1\<lparr>w_out := w_out ?w1 @ UserID4 r @ [0], w_calls := c\<rparr>"
  obtain c' where d: "writeCString ?w2 (Domain4 r)
      = (length (Domain4 r) + 1, None, ?w2\<lparr>w_out := w_out ?w2 @ Domain4 r @ [0], w_calls := c'\<rparr>)"
    using writeCString_ok [of ?w2 "Domain4 r"] assms by auto
  show ?thesis
    using assms u d by (auto simp: Request4_WriteTo_def Write_ok Request4_bytes_def)
qed

lemma write_result_Write: "write_result w (Write w p)"
  by (auto simp: write_result_def Write_def failed_between_def le_Suc_eq less_Suc_eq
      split: option.splits)

lemma failed_between_trans:
  "w_faults w1 = w_faults w \<Longrightarrow> w_calls w \<le> w_calls w1 \<Longrightarrow> w_calls w1 \<le> w_calls w2 \<Longrightarrow>
   failed_between w w2 \<longleftrightarrow> failed_between w w1 \<or> failed_between w1 w2"
  by (auto simp: failed_between_def) (meson leI order_trans less_le_trans)+

lemma write_result_seq:
  assumes "write_result w (n1, None, w1)" "write_result w1 (n2, e, w2)"
  shows "write_result w (n1 + n2, e, w2)"
proof -
  have a: "w_faults w1 = w_faults w" "w_calls w \<le> w_calls w1" "\<not> failed_between w w1"
    "length (w_out w) \<le> length (w_out w1)" "n1 = length (w_out w1) - length (w_out w)"
    using assms(1) by (simp_all add: write_result_def)
  have b: "w_faults w2 = w_faults w1" "w_calls w1 \<le> w_calls w2"
    "e \<noteq> None \<longleftrightarrow> failed_between w1 w2"
    "length (w_out w1) \<le> length (w_out w2)" "e = None \<longrightarrow> n2 = length (w_out w2) - length (w_out w1)"
    using assms(2) by (simp_all add: write_result_def)
  have "failed_between w w2 \<longleftrightarrow> failed_between w1 w2"
    using failed_between_trans [OF a(1,2) b(2)] a(3) by simp
  then show ?thesis using a b by (auto simp: write_result_def)
qed

lemma write_result_writeCString: "write_result w (writeCString w s)"
proof (cases "length s \<noteq> 0")
  case False
  then have "writeCString w s = Write w [0]"
    by (cases "Write w [0]") (simp add: writeCString_def)
  then show ?thesis using write_result_Write by simp
next
  case True
  obtain n e w1 where w1: "Write w s = (n, e, w1)" by (cases "Write w s") auto
  have r1: "write_result w (n, e, w1)" using write_result_Write [of w s] w1 by simp
  show ?thesis
  proof (cases e)
    case (Some x)
    then show ?thesis using True w1 r1 by (simp add: writeCString_def)
  next
    case None
    obtain n2 e2 w2 where w2: "Write w1 [0] = (n2, e2, w2)" by (cases "Write w1 [0]") auto
    have "write_result w1 (n2, e2, w2)" using write_result_Write [of w1 "[0]"] w2 by simp
    then have "write_result w (n + n2, e2, w2)" using r1 None write_result_seq by blast
    then show ?thesis using True w1 w2 None by (simp add: writeCString_def)
  qed
qed

lemma write_result_WriteTo: "write_result w (Request4_WriteTo r w)"
proof -
  obtain n e w1 where w1: "Write w (Request4_header r) = (n, e, w1)"
    by (cases "Write w (Request4_header r)") auto
  have r1: "write_result w (n, e, w1)" using write_result_Write [of w "Request4_header r"] w1 by simp
  show ?thesis
  proof (cases e)
    case (Some x)
    then show ?thesis using w1 r1 by (simp add: Request4_WriteTo_def)
  next
    case None
    obtain n2 e2 w2 where w2: "writeCString w1 (UserID4 r) = (n2, e2, w2)"
      by (cases "writeCString w1 (UserID4 r)") auto
    have "write_result w1 (n2, e2, w2)" using write_result_writeCString [of w1 "UserID4 r"] w2 by simp
    then have r2: "write_result w (n + n2, e2, w2)" using r1 None write_result_seq by blast
    show ?thesis
    proof (cases e2)
      case (Some x)
      then show ?thesis using w1 w2 None r2 by (simp add: Request4_WriteTo_def)
    next
      case n2: None
      show ?thesis
      proof (cases "IsSOCKS4a r")
        case False
        then show ?thesis using w1 w2 None n2 r2 by (simp add: Request4_WriteTo_def)
      next
        case True
        obtain n3 e3 w3 where w3: "writeCString w2 (Domain4 r) = (n3, e3, w3)"
          by (cases "writeCString w2 (Domain4 r)") auto
        have "write_result w2 (n3, e3, w3)"
          using write_result_writeCString [of w2 "Domain4 r"] w3 by simp
        then have "write_result w (n + n2 + n3, e3, w3)"
          using r2 n2 write_result_seq by blast
        then show ?thesis using w1 w2 w3 None n2 True
          by (cases e3) (simp_all add: Request4_WriteTo_def)
      qed
    qed
  qed
qed


lemma Uint16_PutUint16 [simp]: "Uint16 (PutUint16 v) = v"
  unfolding Uint16_def PutUint16_def
  apply simp
  apply (rule bit_word_eqI)
  apply (auto simp: bit_simps)
  done

lemma copy4_bytes4 [simp]: "copy4 a (bytes4 b) = b"
  by (cases b) (simp add: copy4_def bytes4_def)

lemma length_PutUint16 [simp]: "length (PutUint16 v) = 2"
  by (simp add: PutUint16_def)

lemma length_Request4_header [simp]: "length (Request4_header r) = 8"
  by (simp add: Request4_header_def)

definition Request4_tail :: "Request4 \<Rightarrow> byte list" where
  "Request4_tail r = UserID4 r @ [0] @ (if IsSOCKS4a r then Domain4 r @ [0] else [])"

lemma Request4_bytes_split: "Request4_bytes r = Request4_header r @ Request4_tail r"
  by (simp add: Request4_bytes_def Request4_tail_def)

lemma ValidateHeader_cong:
  "Version4 a = Version4 b \<Longrightarrow> Command4 a = Command4 b \<Longrightarrow> IP4 a = IP4 b \<Longrightarrow>
   ValidateHeader a = ValidateHeader b"
  by (simp add: ValidateHeader_def)

lemma ReadHeaderFrom_header:
  "ReadHeaderFrom r0 (Request4_header r @ rest) =
     (r0\<lparr>Version4 := Version4 r, Command4 := Command4 r, Port4 := Port4 r, IP4 := IP4 r\<rparr>,
      8, ValidateHeader r, rest)"
proof -
  have rf: "ReadFull (Request4_header r @ rest) 8 = (Request4_header r, None, rest)"
    by (simp add: ReadFull_def)
  have h: "Request4_header r ! 0 = Version4 r" "Request4_header r ! Suc 0 = Command4 r"
    "take 2 (drop 2 (Request4_header r)) = PutUint16 (Port4 r)"
    "take 4 (drop 4 (Request4_header r)) = bytes4 (IP4 r)"
    by (simp_all add: Request4_header_def PutUint16_def)
  have v: "ValidateHeader (r0\<lparr>Version4 := Version4 r, Command4 := Command4 r,
      Port4 := Port4 r, IP4 := IP4 r\<rparr>) = ValidateHeader r"
    by (rule ValidateHeader_cong) simp_all
  show ?thesis
    unfolding ReadHeaderFrom_def rf by (simp add: h v Let_def)
qed


lemma in_take_if_short:
  "d \<in> set xs \<Longrightarrow> length (takeWhile (\<lambda>x. x \<noteq> d) xs) < k \<Longrightarrow> d \<in> set (take k xs)"
proof (induction xs arbitrary: k)
  case Nil
  then show ?case by simp
next
  case (Cons a xs)
  then show ?case by (cases k) (auto split: if_splits)
qed

lemma Request4_ReadFrom_bytes:
  "Request4_ReadFrom r0 (Request4_bytes r) =
     (let r1 = r0\<lparr>Version4 := Version4 r, Command4 := Command4 r, Port4 := Port4 r, IP4 := IP4 r\<rparr>
      in case ValidateHeader r of
        Some e \<Rightarrow> (r1, 8, Some e, Request4_tail r)
      | None \<Rightarrow>
          (case ReadUserIDAndDomain r1 (Request4_tail r) DefaultMaxUserIDLen DefaultMaxDomainLen of
             (r2, n2, e, src2) \<Rightarrow> (r2, 8 + n2, e, src2)))"
  by (simp add: Request4_ReadFrom_def ReadFromWithLimits_def Request4_bytes_split
      ReadHeaderFrom_header Let_def split: option.splits)

lemma sint_257 [simp]: "sint (DefaultMaxUserIDLen + 1) = 257" "sint (DefaultMaxDomainLen + 1) = 257"
  by (simp_all add: DefaultMaxUserIDLen_def DefaultMaxDomainLen_def)

lemma decode_nul_userid:
  assumes nul: "0 \<in> set (UserID4 r)"
    and res: "Request4_ReadFrom r0 (Request4_bytes r) = (r', n, e, src')"
  shows "e = None \<Longrightarrow> UserID4 r' = takeWhile (\<lambda>x. x \<noteq> 0) (UserID4 r)"
    and "e = None \<Longrightarrow> UserID4 r' \<noteq> UserID4 r"
    and "ValidateHeader r = None \<Longrightarrow> \<not> IsSOCKS4a r \<Longrightarrow>
         length (takeWhile (\<lambda>x. x \<noteq> 0) (UserID4 r)) \<le> 256 \<Longrightarrow> e = None"
proof -
  let ?r1 = "r0\<lparr>Version4 := Version4 r, Command4 := Command4 r, Port4 := Port4 r, IP4 := IP4 r\<rparr>"
  let ?u = "takeWhile (\<lambda>x. x \<noteq> 0) (UserID4 r)"
  have a1: "IsSOCKS4a ?r1 = IsSOCKS4a r" by (simp add: IsSOCKS4a_def)
  obtain userID e1 b1 where p1:
    "ReadString (fresh (Request4_tail r) 257) 0 = (userID, e1, b1)"
    by (cases "ReadString (fresh (Request4_tail r) 257) 0") auto
  note f = ReadString_fresh [OF p1]
  have tw: "takeWhile (\<lambda>x. x \<noteq> 0) (Request4_tail r) = ?u"
    unfolding Request4_tail_def using takeWhile_prefix_found [OF nul] by simp
  have u1: "e1 = None \<Longrightarrow> butlast userID = ?u"
    using f(1) tw by (auto split: if_splits)
  have ne: "?u \<noteq> UserID4 r" using nul
    by (metis (mono_tags, lifting) takeWhile_eq_all_conv)
  have key: "e = None \<Longrightarrow> UserID4 r' = ?u"
  proof -
    assume en: "e = None"
    then have vh: "ValidateHeader r = None" using res
      by (auto simp: Request4_ReadFrom_bytes Let_def split: option.splits)
    have e1n: "e1 = None" using res en vh p1
      by (auto simp: Request4_ReadFrom_bytes ReadUserIDAndDomain_fresh Let_def
          split: option.splits prod.splits if_splits)
    show ?thesis using res en vh p1 e1n u1 [OF e1n]
      by (auto simp: Request4_ReadFrom_bytes ReadUserIDAndDomain_fresh Let_def a1
          split: option.splits prod.splits if_splits)
  qed
  show "e = None \<Longrightarrow> UserID4 r' = ?u" by (rule key)
  show "e = None \<Longrightarrow> UserID4 r' \<noteq> UserID4 r" using key ne by simp
  show "ValidateHeader r = None \<Longrightarrow> \<not> IsSOCKS4a r \<Longrightarrow> length ?u \<le> 256 \<Longrightarrow> e = None"
  proof -
    assume vh: "ValidateHeader r = None" and n4: "\<not> IsSOCKS4a r" and len: "length ?u \<le> 256"
    have "0 \<in> set (Request4_tail r)" using nul by (simp add: Request4_tail_def)
    moreover have "length (takeWhile (\<lambda>x. x \<noteq> 0) (Request4_tail r)) < 257" using tw len by simp
    ultimately have "0 \<in> set (take (nat 257) (Request4_tail r))" using in_take_if_short by simp
    then have "e1 = None" using f(1) by simp
    then show ?thesis using res vh n4 p1
      by (auto simp: Request4_ReadFrom_bytes ReadUserIDAndDomain_fresh Let_def a1)
  qed
qed


text \<open>
  C10. \<open>Request.WriteTo\<close> validates nothing: on a writer that never fails it succeeds
  for every field assignment and writes the fields as they are; on any writer it returns
  an error exactly when one of its \<open>Write\<close> calls failed. Hence a user id with a NUL
  byte is written unescaped, and decoding that frame, where it succeeds, yields the user
  id cut at its first NUL byte, which differs from the one written; it does succeed for a
  plain SOCKS4 request with a valid header whose user id has its first NUL byte among the
  first 257 bytes.
\<close>

theorem C10_WriteTo_no_validation:
  "(never_fails w \<longrightarrow>
      (case Request4_WriteTo r w of
         (n, e, w') \<Rightarrow> e = None \<and> n = length (Request4_bytes r) \<and>
                       w_out w' = w_out w @ Request4_bytes r)) \<and>
   (case Request4_WriteTo r w of (n, e, w') \<Rightarrow> e \<noteq> None \<longleftrightarrow> failed_between w w') \<and>
   (0 \<in> set (UserID4 r) \<longrightarrow>
      (case Request4_ReadFrom r0 (Request4_bytes r) of
         (r', n, e, src') \<Rightarrow>
           (e = None \<longrightarrow> UserID4 r' = takeWhile (\<lambda>x. x \<noteq> 0) (UserID4 r) \<and>
                         UserID4 r' \<noteq> UserID4 r) \<and>
           (ValidateHeader r = None \<and> \<not> IsSOCKS4a r \<and>
            length (takeWhile (\<lambda>x. x \<noteq> 0) (UserID4 r)) \<le> 256 \<longrightarrow> e = None)))"
proof (intro conjI impI)
  assume "never_fails w"
  then show "case Request4_WriteTo r w of
         (n, e, w') \<Rightarrow> e = None \<and> n = length (Request4_bytes r) \<and>
                       w_out w' = w_out w @ Request4_bytes r"
    using Request4_WriteTo_ok [of w r] by auto
next
  show "case Request4_WriteTo r w of (n, e, w') \<Rightarrow> e \<noteq> None \<longleftrightarrow> failed_between w w'"
    using write_result_WriteTo [of w r] by (auto simp: write_result_def)
next
  assume nul: "0 \<in> set (UserID4 r)"
  obtain r' n e src' where res: "Request4_ReadFrom r0 (Request4_bytes r) = (r', n, e, src')"
    by (cases "Request4_ReadFrom r0 (Request4_bytes r)") auto
  show "case Request4_ReadFrom r0 (Request4_bytes r) of
         (r', n, e, src') \<Rightarrow>
           (e = None \<longrightarrow> UserID4 r' = takeWhile (\<lambda>x. x \<noteq> 0) (UserID4 r) \<and>
                         UserID4 r' \<noteq> UserID4 r) \<and>
           (ValidateHeader r = None \<and> \<not> IsSOCKS4a r \<and>
            length (takeWhile (\<lambda>x. x \<noteq> 0) (UserID4 r)) \<le> 256 \<longrightarrow> e = None)"
    unfolding res using decode_nul_userid [OF nul res] by simp
qed

definition nul_request :: Request4 where
  "nul_request = \<lparr>Version4 = 4, Command4 = 1, Port4 = 80, IP4 = (1, 2, 3, 4),
                   UserID4 = [97, 0, 98], Domain4 = []\<rparr>"

theorem C10_WriteTo_no_validation_witness:
  "never_fails buffer \<and>
   fst (snd (Request4_WriteTo nul_request buffer)) = None \<and>
   w_out (snd (snd (Request4_WriteTo nul_request buffer)))
     = [4, 1, 0, 80, 1, 2, 3, 4, 97, 0, 98, 0] \<and>
   0 \<in> set (UserID4 nul_request) \<and>
   fst (snd (snd (Request4_ReadFrom Request4_zero (Request4_bytes nul_request)))) = None \<and>
   UserID4 (fst (Request4_ReadFrom Request4_zero (Request4_bytes nul_request))) = [97]"
proof -
  have h: "never_fails buffer" "0 \<in> set (UserID4 nul_request)"
    "ValidateHeader nul_request = None" "\<not> IsSOCKS4a nul_request"
    "length (takeWhile (\<lambda>x. x \<noteq> 0) (UserID4 nul_request)) \<le> 256"
    by (simp_all add: nul_request_def ValidateHeader_def IsSOCKS4a_def SocksVersion_def
        CmdConnect_def IP_Equal_zero slice_def)
  have b: "Request4_bytes nul_request = [4, 1, 0, 80, 1, 2, 3, 4, 97, 0, 98, 0]"
    using h(4) by (simp add: Request4_bytes_def Request4_header_def nul_request_def
        PutUint16_def bytes4_def)
  show ?thesis
    using h C10_WriteTo_no_validation [of buffer nul_request Request4_zero]
    unfolding b by (auto simp: nul_request_def buffer_def split: prod.splits)
qed

section \<open>Round trips\<close>

lemma ReadFull_append: "length a = n \<Longrightarrow> ReadFull (a @ b) n = (a, None, b)"
  by (auto simp: ReadFull_def)

lemma ReadFull_exact: "length a = n \<Longrightarrow> ReadFull a n = (a, None, [])"
  using ReadFull_append [of a n "[]"] by simp

lemma ReadFull_Cons2: "ReadFull (a # b # xs) 2 = ([a, b], None, xs)"
  using ReadFull_append [of "[a, b]" 2 xs] by simp

lemma ReadFull_Cons4: "ReadFull (a # b # c # d # xs) 4 = ([a, b, c, d], None, xs)"
  using ReadFull_append [of "[a, b, c, d]" 4 xs] by simp

lemma ReadFull_Cons1: "ReadFull (a # xs) (Suc 0) = ([a], None, xs)"
  using ReadFull_append [of "[a]" 1 xs] by simp

lemma Uint16_PutUint16_Cons [simp]:
  "Uint16 [ucast (drop_bit 8 v), ucast v] = (v :: u16)"
  using Uint16_PutUint16 [of v] by (simp add: PutUint16_def)

lemma ReadFull_PutUint16: "ReadFull (PutUint16 v @ xs) 2 = (PutUint16 v, None, xs)"
  by (rule ReadFull_append) simp

lemma To4_length: "To4 ip = Some bs \<Longrightarrow> length bs = 4"
  by (auto simp: To4_def Let_def slice_def split: if_splits option.splits)

lemma To16_length: "To16 ip = Some bs \<Longrightarrow> length bs = 16"
  by (auto simp: To16_def Let_def slice_def IPv4_def v4InV6Prefix_def split: if_splits option.splits)

text \<open>
  The address part of a SOCKS5 message on the wire (\<open>wire_addr\<close>), the addresses
  that can be written and read back (\<open>addr_ok\<close>: an IP that \<open>To4\<close> or \<open>To16\<close>
  accepts for the IPv4 or IPv6 type, a domain of 1 to 255 bytes), and the fields a decoder
  holds after reading such an address into a zero value (\<open>canon_ip\<close>,
  \<open>canon_domain\<close>): the IP in its 4-byte or 16-byte form and no domain, or the domain
  and no IP.
\<close>

definition wire_addr :: "byte \<Rightarrow> netIP \<Rightarrow> byte list \<Rightarrow> byte list" where
  "wire_addr atyp ip domain =
     (if atyp = AddrTypeIPv4 then slice (To4 ip)
      else if atyp = AddrTypeIPv6 then slice (To16 ip)
      else of_nat (length domain) # domain)"

definition addr_ok :: "byte \<Rightarrow> netIP \<Rightarrow> byte list \<Rightarrow> bool" where
  "addr_ok atyp ip domain \<longleftrightarrow>
     (atyp = AddrTypeIPv4 \<and> To4 ip \<noteq> None) \<or>
     (atyp = AddrTypeIPv6 \<and> To16 ip \<noteq> None) \<or>
     (atyp = AddrTypeDomain \<and> 0 < length domain \<and> length domain \<le> 255)"

definition canon_ip :: "byte \<Rightarrow> netIP \<Rightarrow> netIP" where
  "canon_ip atyp ip =
     (if atyp = AddrTypeIPv4 then To4 ip else if atyp = AddrTypeIPv6 then To16 ip else None)"

definition canon_domain :: "byte \<Rightarrow> byte list \<Rightarrow> byte list" where
  "canon_domain atyp domain = (if atyp = AddrTypeDomain then domain else [])"

lemma WriteAddr_ok:
  assumes "never_fails w" "addr_ok atyp ip domain"
  shows "\<exists>a n c. a + n = length (wire_addr atyp ip domain) \<and>
     (\<forall>n0. WriteAddr atyp ip domain n0 w
        = (a, n, None, w\<lparr>w_out := w_out w @ wire_addr atyp ip domain, w_calls := c\<rparr>))"
  using assms
  by (auto simp: WriteAddr_def addr_ok_def wire_addr_def Write_ok AddrTypeIPv4_def AddrTypeIPv6_def AddrTypeDomain_def)

lemma unat_of_nat_byte: "n \<le> 255 \<Longrightarrow> unat (of_nat n :: byte) = n"
  by (simp add: unat_of_nat take_bit_nat_eq_self)

lemma ReadAddr_wire:
  assumes "addr_ok atyp ip domain"
  shows "ReadAddr atyp None [] (wire_addr atyp ip domain @ rest)
      = (canon_ip atyp ip, canon_domain atyp domain, length (wire_addr atyp ip domain), None, rest)"
proof -
  consider (v4) "atyp = AddrTypeIPv4" "To4 ip \<noteq> None"
    | (v6) "atyp = AddrTypeIPv6" "To16 ip \<noteq> None"
    | (dom) "atyp = AddrTypeDomain" "0 < length domain" "length domain \<le> 255"
    using assms by (auto simp: addr_ok_def)
  then show ?thesis
  proof cases
    case v4
    then obtain bs where b: "To4 ip = Some bs" by auto
    have "ReadFull (bs @ rest) 4 = (bs, None, rest)" using To4_length [OF b] ReadFull_append by simp
    then show ?thesis using v4 b
      by (simp add: ReadAddr_def wire_addr_def canon_ip_def canon_domain_def slice_def
          AddrTypeIPv4_def AddrTypeDomain_def)
  next
    case v6
    then obtain bs where b: "To16 ip = Some bs" by auto
    have "ReadFull (bs @ rest) 16 = (bs, None, rest)" using To16_length [OF b] ReadFull_append by simp
    then show ?thesis using v6 b
      by (simp add: ReadAddr_def wire_addr_def canon_ip_def canon_domain_def slice_def
          AddrTypeIPv4_def AddrTypeIPv6_def AddrTypeDomain_def)
  next
    case dom
    have u: "unat (of_nat (length domain) :: byte) = length domain"
      using dom(3) unat_of_nat_byte by simp
    have "ReadFull (domain @ rest) (length domain) = (domain, None, rest)"
      using ReadFull_append by simp
    then show ?thesis using dom u
      by (simp add: ReadAddr_def wire_addr_def canon_ip_def canon_domain_def
          AddrTypeIPv4_def AddrTypeIPv6_def AddrTypeDomain_def ReadFull_Cons1)
  qed
qed

text \<open>
  \<open>roundtrip writeTo readFrom m'\<close>: writing to an empty buffer succeeds, and reading
  the bytes written gives the message \<open>m'\<close> with the same byte count, no error and
  nothing left unread.
\<close>

definition roundtrip ::
  "(writer \<Rightarrow> nat \<times> error option \<times> writer) \<Rightarrow> (reader \<Rightarrow> 'm \<times> nat \<times> error option \<times> reader) \<Rightarrow> 'm \<Rightarrow> bool" where
  "roundtrip writeTo readFrom m' \<longleftrightarrow>
     (case writeTo buffer of (n, e, w) \<Rightarrow> e = None \<and> readFrom (w_out w) = (m', n, None, []))"

lemma roundtripI:
  "writeTo buffer = (length bs, None, buffer\<lparr>w_out := bs, w_calls := c\<rparr>) \<Longrightarrow>
   readFrom bs = (m', length bs, None, []) \<Longrightarrow> roundtrip writeTo readFrom m'"
  by (simp add: roundtrip_def)

lemma w_out_buffer [simp]: "w_out buffer = []"
  by (simp add: buffer_def)

lemma takeWhile_no_nul: "d \<notin> set xs \<Longrightarrow> takeWhile (\<lambda>x. x \<noteq> d) (xs @ d # ys) = xs"
  by (induction xs) auto

lemma ReadUserIDAndDomain_tail:
  assumes u: "0 \<notin> set (UserID4 r)" "length (UserID4 r) \<le> 256"
    and d: "IsSOCKS4a r \<Longrightarrow> 0 \<notin> set (Domain4 r) \<and> length (Domain4 r) \<le> 256"
    and a: "IsSOCKS4a r1 = IsSOCKS4a r"
  shows "ReadUserIDAndDomain r1 (Request4_tail r) DefaultMaxUserIDLen DefaultMaxDomainLen =
     (r1\<lparr>UserID4 := UserID4 r, Domain4 := (if IsSOCKS4a r then Domain4 r else Domain4 r1)\<rparr>,
      length (Request4_tail r), None, [])"
proof -
  let ?t = "Request4_tail r"
  let ?rest = "(if IsSOCKS4a r then Domain4 r @ [0] else [])"
  have t: "?t = UserID4 r @ 0 # ?rest" by (simp add: Request4_tail_def)
  obtain userID e1 b1 where p1: "ReadString (fresh ?t 257) 0 = (userID, e1, b1)"
    by (cases "ReadString (fresh ?t 257) 0") auto
  note f = ReadString_fresh [OF p1]
  have tw: "takeWhile (\<lambda>x. x \<noteq> 0) ?t = UserID4 r"
    unfolding t using takeWhile_no_nul [OF u(1)] by simp
  have "0 \<in> set ?t" by (simp add: t)
  moreover have "length (takeWhile (\<lambda>x. x \<noteq> 0) ?t) < 257" using tw u(2) by simp
  ultimately have "0 \<in> set (take (nat 257) ?t)" using in_take_if_short by simp
  then have r1: "e1 = None" "userID = UserID4 r @ [0]" using f(1) tw by simp_all
  have s1: "b_buf b1 @ lr_R (b_rd b1) = ?rest" using f(4) r1(2) by (simp add: t)
  show ?thesis
  proof (cases "IsSOCKS4a r")
    case False
    then have "lr_R (b_rd b1) = []" using s1 by simp
    then show ?thesis using False p1 r1 a
      by (simp add: ReadUserIDAndDomain_fresh Request4_tail_def)
  next
    case True
    let ?b2 = "b1\<lparr>b_rd := LimitedReader_Init (b_rd b1) (lr_R (b_rd b1)) 257\<rparr>"
    obtain domain e2 b3 where p2: "ReadString ?b2 0 = (domain, e2, b3)"
      by (cases "ReadString ?b2 0") auto
    have dd: "0 \<notin> set (Domain4 r)" "length (Domain4 r) \<le> 256" using d True by simp_all
    have st: "stream ?b2 = Domain4 r @ [0]" using s1 True
      by (simp add: stream_def LimitedReader_Init_def)
    have "length (lr_R (b_rd b1)) \<le> 257"
    proof -
      have "length (b_buf b1 @ lr_R (b_rd b1)) \<le> 257" unfolding s1 using True dd(2) by simp
      then show ?thesis by simp
    qed
    then have w: "window ?b2 = Domain4 r @ [0]" using s1 True
      by (simp add: window_def LimitedReader_Init_def)
    have post: "ReadString_post ?b2 0 [] (domain, e2, b3)"
      using ReadString_spec [of ?b2 0] f(2,3) p2 by simp
    have tw2: "takeWhile (\<lambda>x. x \<noteq> 0) (Domain4 r @ [0]) = Domain4 r"
      using takeWhile_no_nul [OF dd(1), of "[]"] by simp
    have r2: "e2 = None" "domain = Domain4 r @ [0]"
      using post unfolding ReadString_post_def w by (simp_all add: tw2)
    have "stream b3 = []" using post unfolding ReadString_post_def st r2 by simp
    then have "lr_R (b_rd b3) = []" by (simp add: stream_def)
    then show ?thesis using True p1 p2 r1 r2 a
      by (simp add: ReadUserIDAndDomain_fresh Request4_tail_def)
  qed
qed

lemma ValidateDomain_non4a: "Request4_Validate r = None \<Longrightarrow> \<not> IsSOCKS4a r \<Longrightarrow> Domain4 r = []"
  by (auto simp: Request4_Validate_def ValidateDomain_def split: option.splits if_splits)

lemma Request4_roundtrip:
  assumes v: "Request4_Validate r = None"
    and u: "0 \<notin> set (UserID4 r)" "length (UserID4 r) \<le> 256"
    and d: "0 \<notin> set (Domain4 r)" "length (Domain4 r) \<le> 256"
  shows "roundtrip (Request4_WriteTo r) (Request4_ReadFrom Request4_zero) r"
proof -
  obtain c where w: "Request4_WriteTo r buffer =
     (length (Request4_bytes r), None, buffer\<lparr>w_out := Request4_bytes r, w_calls := c\<rparr>)"
    using Request4_WriteTo_ok [of buffer r] by auto
  let ?r1 = "Request4_zero\<lparr>Version4 := Version4 r, Command4 := Command4 r, Port4 := Port4 r,
      IP4 := IP4 r\<rparr>"
  have vh: "ValidateHeader r = None" using v by (simp add: Request4_Validate_def split: option.splits)
  have a: "IsSOCKS4a ?r1 = IsSOCKS4a r" by (simp add: IsSOCKS4a_def)
  have t: "ReadUserIDAndDomain ?r1 (Request4_tail r) DefaultMaxUserIDLen DefaultMaxDomainLen =
     (?r1\<lparr>UserID4 := UserID4 r, Domain4 := (if IsSOCKS4a r then Domain4 r else Domain4 ?r1)\<rparr>,
      length (Request4_tail r), None, [])"
    using ReadUserIDAndDomain_tail [OF u _ a] d by simp
  have eq: "?r1\<lparr>UserID4 := UserID4 r, Domain4 := (if IsSOCKS4a r then Domain4 r else Domain4 ?r1)\<rparr> = r"
    using ValidateDomain_non4a [OF v] by (simp add: Request4_zero_def)
  have "Request4_ReadFrom Request4_zero (Request4_bytes r) = (r, length (Request4_bytes r), None, [])"
    unfolding Request4_ReadFrom_bytes Let_def vh t eq
    by (simp add: Request4_bytes_split)
  then show ?thesis using w by (rule roundtripI [rotated])
qed

lemma w_calls_buffer [simp]: "w_calls buffer = 0"
  by (simp add: buffer_def)

lemma Response4_roundtrip:
  assumes "Response4_Validate r = None"
  shows "roundtrip (Response4_WriteTo r) (Response4_ReadFrom Response4_zero) r"
proof -
  obtain a b c d where ip: "RIP4 r = (a, b, c, d)" by (cases "RIP4 r") auto
  let ?bs = "[RVersion4 r, Code4 r] @ PutUint16 (RPort4 r) @ bytes4 (RIP4 r)"
  have l: "length ?bs = 8" by simp
  have w: "Response4_WriteTo r buffer = (length ?bs, None, buffer\<lparr>w_out := ?bs, w_calls := Suc 0\<rparr>)"
    by (simp add: Response4_WriteTo_def Write_ok)
  have rf: "ReadFull ?bs 8 = (?bs, None, [])" using ReadFull_exact [OF l] .
  have eq: "Response4_zero\<lparr>RVersion4 := RVersion4 r, Code4 := Code4 r, RPort4 := RPort4 r,
      RIP4 := RIP4 r\<rparr> = r"
    by (cases r) (simp add: Response4_zero_def)
  have h: "take 2 (drop 2 ?bs) = PutUint16 (RPort4 r)" "take 4 (drop 4 ?bs) = bytes4 (RIP4 r)"
    "?bs ! 0 = RVersion4 r" "?bs ! 1 = Code4 r"
    by (simp_all add: PutUint16_def)
  have "Response4_ReadFrom Response4_zero ?bs = (r, length ?bs, None, [])"
    unfolding Response4_ReadFrom_def rf prod.case option.case h Let_def
    using assms by (simp add: eq)
  then show ?thesis using w by (rule roundtripI [rotated])
qed

lemma HandshakeRequest_roundtrip:
  assumes "HandshakeRequest_Validate h = None"
  shows "roundtrip (HandshakeRequest_WriteTo h) (HandshakeRequest_ReadFrom HandshakeRequest_zero) h"
proof -
  have v: "NMethods h \<noteq> 0" "length (Methods h) = unat (NMethods h)"
    using assms by (auto simp: HandshakeRequest_Validate_def split: if_splits)
  let ?bs = "HVersion h # NMethods h # Methods h"
  have w: "HandshakeRequest_WriteTo h buffer
      = (length ?bs, None, buffer\<lparr>w_out := ?bs, w_calls := Suc (Suc 0)\<rparr>)"
    by (simp add: HandshakeRequest_WriteTo_def Write_ok)
  have m: "ReadFull (Methods h) (unat (NMethods h)) = (Methods h, None, [])"
    using ReadFull_exact [OF v(2)] .
  have eq: "HandshakeRequest_zero\<lparr>HVersion := HVersion h, NMethods := NMethods h,
      Methods := Methods h\<rparr> = h"
    by (cases h) (simp add: HandshakeRequest_zero_def)
  have "HandshakeRequest_ReadFrom HandshakeRequest_zero ?bs = (h, length ?bs, None, [])"
    using assms v(1)
    by (simp add: HandshakeRequest_ReadFrom_def ReadFull_Cons2 Let_def m eq)
  then show ?thesis using w by (rule roundtripI [rotated])
qed

lemma HandshakeReply_roundtrip:
  assumes "HandshakeReply_Validate h = None"
  shows "roundtrip (HandshakeReply_WriteTo h) (HandshakeReply_ReadFrom HandshakeReply_zero) h"
proof -
  let ?bs = "[HRVersion h, Method h]"
  have w: "HandshakeReply_WriteTo h buffer = (length ?bs, None, buffer\<lparr>w_out := ?bs, w_calls := Suc 0\<rparr>)"
    by (simp add: HandshakeReply_WriteTo_def Write_ok)
  have eq: "HandshakeReply_zero\<lparr>HRVersion := HRVersion h, Method := Method h\<rparr> = h"
    by (cases h) (simp add: HandshakeReply_zero_def)
  have "HandshakeReply_ReadFrom HandshakeReply_zero ?bs = (h, length ?bs, None, [])"
    using assms
    by (simp add: HandshakeReply_ReadFrom_def ReadFull_Cons2 Let_def eq)
  then show ?thesis using w by (rule roundtripI [rotated])
qed

lemma UserPassReply_roundtrip:
  assumes "UserPassReply_Validate r = None"
  shows "roundtrip (UserPassReply_WriteTo r) (UserPassReply_ReadFrom UserPassReply_zero) r"
proof -
  let ?bs = "[UPRVersion r, Status r]"
  have w: "UserPassReply_WriteTo r buffer = (length ?bs, None, buffer\<lparr>w_out := ?bs, w_calls := Suc 0\<rparr>)"
    by (simp add: UserPassReply_WriteTo_def Write_ok)
  have eq: "UserPassReply_zero\<lparr>UPRVersion := UPRVersion r, Status := Status r\<rparr> = r"
    by (cases r) (simp add: UserPassReply_zero_def)
  have "UserPassReply_ReadFrom UserPassReply_zero ?bs = (r, length ?bs, None, [])"
    using assms
    by (simp add: UserPassReply_ReadFrom_def ReadFull_Cons2 Let_def eq)
  then show ?thesis using w by (rule roundtripI [rotated])
qed

lemma UserPassRequest_roundtrip:
  assumes "UserPassRequest_Validate r = None"
  shows "roundtrip (UserPassRequest_WriteTo r) (UserPassRequest_ReadFrom UserPassRequest_zero) r"
proof -
  have v: "length (Username r) \<noteq> 0" "length (Password r) \<noteq> 0"
    "length (Username r) \<le> 255" "length (Password r) \<le> 255"
    using assms by (auto simp: UserPassRequest_Validate_def split: if_splits)
  let ?ul = "of_nat (length (Username r)) :: byte"
  let ?pl = "of_nat (length (Password r)) :: byte"
  let ?bs = "UPVersion r # ?ul # Username r @ ?pl # Password r"
  have ul: "unat ?ul = length (Username r)" and pl: "unat ?pl = length (Password r)"
    using v unat_of_nat_byte by simp_all
  have w: "UserPassRequest_WriteTo r buffer
      = (length ?bs, None, buffer\<lparr>w_out := ?bs, w_calls := 4\<rparr>)"
    using v by (simp add: UserPassRequest_WriteTo_def Write_ok)
  have r1: "ReadFull (Username r @ ?pl # Password r) (length (Username r))
      = (Username r, None, ?pl # Password r)"
    by (rule ReadFull_append) simp
  have r2: "ReadFull (Password r) (length (Password r)) = (Password r, None, [])"
    by (rule ReadFull_exact) simp
  have eq: "UserPassRequest_zero\<lparr>UPVersion := UPVersion r, Username := Username r,
      Password := Password r\<rparr> = r"
    by (cases r) (simp add: UserPassRequest_zero_def)
  have "UserPassRequest_ReadFrom UserPassRequest_zero ?bs = (r, length ?bs, None, [])"
    using assms v
    by (simp add: UserPassRequest_ReadFrom_def ReadFull_Cons2 ReadFull_Cons1 Let_def ul pl r1 r2 eq)
  then show ?thesis using w by (rule roundtripI [rotated])
qed

text \<open>
  What a decoder into a zero value holds after a successful round trip: for the messages
  with an address, the address fields as \<open>canon_ip\<close> and \<open>canon_domain\<close> give
  them; for a GSSAPI abort message, no token (none is written).
\<close>

definition Request5_canon :: "Request5 \<Rightarrow> Request5" where
  "Request5_canon r = r\<lparr>IP5 := canon_ip (AddrType5 r) (IP5 r),
                         Domain5 := canon_domain (AddrType5 r) (Domain5 r)\<rparr>"

definition Reply5_canon :: "Reply5 \<Rightarrow> Reply5" where
  "Reply5_canon r = r\<lparr>RIP5 := canon_ip (RAddrType5 r) (RIP5 r),
                       RDomain5 := canon_domain (RAddrType5 r) (RDomain5 r)\<rparr>"

definition UDPPacket_canon :: "UDPPacket \<Rightarrow> UDPPacket" where
  "UDPPacket_canon p = p\<lparr>UIP := canon_ip (UAddrType p) (UIP p),
                          UDomain := canon_domain (UAddrType p) (UDomain p)\<rparr>"

definition GSSAPI_canon :: "GSSAPI \<Rightarrow> GSSAPI" where
  "GSSAPI_canon r = (if MsgType r = GSSAPITypeAbort then r\<lparr>Token := []\<rparr> else r)"

lemma addr_ok_canon:
  "addr_ok atyp ip domain \<Longrightarrow>
   (atyp = AddrTypeDomain \<longrightarrow> 0 < length (canon_domain atyp domain) \<and> length (canon_domain atyp domain) \<le> 255) \<and>
   (atyp = AddrTypeIPv4 \<or> atyp = AddrTypeIPv6 \<longrightarrow> canon_ip atyp ip \<noteq> None)"
  by (auto simp: addr_ok_def canon_ip_def canon_domain_def AddrTypeIPv4_def AddrTypeIPv6_def
      AddrTypeDomain_def)

lemma addr_ok_validate:
  "addr_ok atyp ip domain \<Longrightarrow>
   (if atyp = AddrTypeDomain then
      (if length (canon_domain atyp domain) = 0 \<or> 255 < length (canon_domain atyp domain)
       then Some e1 else None)
    else if atyp = AddrTypeIPv4 \<or> atyp = AddrTypeIPv6 then
      (if canon_ip atyp ip = None then Some e2 else None)
    else None) = None"
  by (auto simp: addr_ok_def canon_ip_def canon_domain_def AddrTypeIPv4_def AddrTypeIPv6_def
      AddrTypeDomain_def)

lemma Request5_roundtrip:
  assumes v: "Request5_Validate r = None"
    and a: "addr_ok (AddrType5 r) (IP5 r) (Domain5 r)"
  shows "roundtrip (Request5_WriteTo r) (Request5_ReadFrom Request5_zero) (Request5_canon r)"
proof -
  let ?hdr = "[Version5 r, Command5 r, Reserved5 r, AddrType5 r]"
  let ?ad = "wire_addr (AddrType5 r) (IP5 r) (Domain5 r)"
  let ?bs = "?hdr @ ?ad @ PutUint16 (Port5 r)"
  have vh: "Request5_ValidateHeader r = None"
    using v by (simp add: Request5_Validate_def split: option.splits)
  have dom: "\<not> (AddrType5 r = AddrTypeDomain \<and> (length (Domain5 r) = 0 \<or> 255 < length (Domain5 r)))"
    using v vh by (auto simp: Request5_Validate_def split: if_splits)
  let ?w1 = "buffer\<lparr>w_out := ?hdr, w_calls := Suc 0\<rparr>"
  obtain x n c where xn: "x + n = length ?ad"
    and wa: "\<And>n0. WriteAddr (AddrType5 r) (IP5 r) (Domain5 r) n0 ?w1
      = (x, n, None, ?w1\<lparr>w_out := w_out ?w1 @ ?ad, w_calls := c\<rparr>)"
    using WriteAddr_ok [of ?w1 "AddrType5 r" "IP5 r" "Domain5 r"] a by auto
  have w: "Request5_WriteTo r buffer = (length ?bs, None, buffer\<lparr>w_out := ?bs, w_calls := Suc c\<rparr>)"
    using dom xn by (simp add: Request5_WriteTo_def Write_ok wa)
  let ?r1 = "Request5_zero\<lparr>Version5 := Version5 r, Command5 := Command5 r,
      Reserved5 := Reserved5 r, AddrType5 := AddrType5 r\<rparr>"
  have "Request5_ValidateHeader ?r1 = Request5_ValidateHeader r"
    by (simp add: Request5_ValidateHeader_def)
  then have vh1: "Request5_ValidateHeader ?r1 = None" using vh by simp
  have ra: "ReadAddr (AddrType5 r) None [] (?ad @ PutUint16 (Port5 r))
      = (canon_ip (AddrType5 r) (IP5 r), canon_domain (AddrType5 r) (Domain5 r), length ?ad, None,
         PutUint16 (Port5 r))"
    using ReadAddr_wire [OF a] .
  have eq: "?r1\<lparr>IP5 := canon_ip (AddrType5 r) (IP5 r),
      Domain5 := canon_domain (AddrType5 r) (Domain5 r), Port5 := Port5 r\<rparr> = Request5_canon r"
    by (cases r) (simp add: Request5_zero_def Request5_canon_def)
  have "Request5_ValidateHeader (Request5_canon r) = Request5_ValidateHeader r"
    by (simp add: Request5_ValidateHeader_def Request5_canon_def)
  then have vhc: "Request5_ValidateHeader (Request5_canon r) = None" using vh by simp
  have sel: "AddrType5 (Request5_canon r) = AddrType5 r"
    "Domain5 (Request5_canon r) = canon_domain (AddrType5 r) (Domain5 r)"
    "IP5 (Request5_canon r) = canon_ip (AddrType5 r) (IP5 r)"
    by (simp_all add: Request5_canon_def)
  have vc: "Request5_Validate (Request5_canon r) = None"
    unfolding Request5_Validate_def vhc option.case sel
    by (rule addr_ok_validate [OF a])
  have "Request5_ReadFrom Request5_zero ?bs = (Request5_canon r, length ?bs, None, [])"
    by (simp add: Request5_ReadFrom_def ReadFull_Cons4 Let_def vh1 Request5_zero_def [THEN arg_cong [where f = IP5]]
        Request5_zero_def [THEN arg_cong [where f = Domain5]] ra ReadFull_exact eq vc)
  then show ?thesis using w by (rule roundtripI [rotated])
qed

lemma Reply5_roundtrip:
  assumes v: "Reply5_Validate r = None"
    and a: "addr_ok (RAddrType5 r) (RIP5 r) (RDomain5 r)"
  shows "roundtrip (Reply5_WriteTo r) (Reply5_ReadFrom Reply5_zero) (Reply5_canon r)"
proof -
  let ?hdr = "[RVersion5 r, Reply r, RReserved5 r, RAddrType5 r]"
  let ?ad = "wire_addr (RAddrType5 r) (RIP5 r) (RDomain5 r)"
  let ?bs = "?hdr @ ?ad @ PutUint16 (RPort5 r)"
  have vh: "Reply5_ValidateHeader r = None"
    using v by (simp add: Reply5_Validate_def split: option.splits)
  let ?w1 = "buffer\<lparr>w_out := ?hdr, w_calls := Suc 0\<rparr>"
  obtain x n c where xn: "x + n = length ?ad"
    and wa: "\<And>n0. WriteAddr (RAddrType5 r) (RIP5 r) (RDomain5 r) n0 ?w1
      = (x, n, None, ?w1\<lparr>w_out := w_out ?w1 @ ?ad, w_calls := c\<rparr>)"
    using WriteAddr_ok [of ?w1 "RAddrType5 r" "RIP5 r" "RDomain5 r"] a by auto
  have w: "Reply5_WriteTo r buffer = (length ?bs, None, buffer\<lparr>w_out := ?bs, w_calls := Suc c\<rparr>)"
    using xn by (simp add: Reply5_WriteTo_def v Write_ok wa)
  let ?r1 = "Reply5_zero\<lparr>RVersion5 := RVersion5 r, Reply := Reply r,
      RReserved5 := RReserved5 r, RAddrType5 := RAddrType5 r\<rparr>"
  have "Reply5_ValidateHeader ?r1 = Reply5_ValidateHeader r"
    by (simp add: Reply5_ValidateHeader_def)
  then have vh1: "Reply5_ValidateHeader ?r1 = None" using vh by simp
  have ra: "ReadAddr (RAddrType5 r) None [] (?ad @ PutUint16 (RPort5 r))
      = (canon_ip (RAddrType5 r) (RIP5 r), canon_domain (RAddrType5 r) (RDomain5 r), length ?ad,
         None, PutUint16 (RPort5 r))"
    using ReadAddr_wire [OF a] .
  have eq: "?r1\<lparr>RIP5 := canon_ip (RAddrType5 r) (RIP5 r),
      RDomain5 := canon_domain (RAddrType5 r) (RDomain5 r), RPort5 := RPort5 r\<rparr> = Reply5_canon r"
    by (cases r) (simp add: Reply5_zero_def Reply5_canon_def)
  have "Reply5_ValidateHeader (Reply5_canon r) = Reply5_ValidateHeader r"
    by (simp add: Reply5_ValidateHeader_def Reply5_canon_def)
  then have vhc: "Reply5_ValidateHeader (Reply5_canon r) = None" using vh by simp
  have sel: "RAddrType5 (Reply5_canon r) = RAddrType5 r"
    "RDomain5 (Reply5_canon r) = canon_domain (RAddrType5 r) (RDomain5 r)"
    "RIP5 (Reply5_canon r) = canon_ip (RAddrType5 r) (RIP5 r)"
    by (simp_all add: Reply5_canon_def)
  have vc: "Reply5_Validate (Reply5_canon r) = None"
    unfolding Reply5_Validate_def vhc option.case sel
    by (rule addr_ok_validate [OF a])
  have z: "RIP5 Reply5_zero = None" "RDomain5 Reply5_zero = []"
    by (simp_all add: Reply5_zero_def)
  have "Reply5_ReadFrom Reply5_zero ?bs = (Reply5_canon r, length ?bs, None, [])"
    by (simp add: Reply5_ReadFrom_def ReadFull_Cons4 Let_def vh1 z ra ReadFull_exact eq vc)
  then show ?thesis using w by (rule roundtripI [rotated])
qed

lemma UDPPacket_roundtrip:
  assumes v: "UDPPacket_Validate p = None"
    and a: "addr_ok (UAddrType p) (UIP p) (UDomain p)"
  shows "roundtrip (UDPPacket_WriteTo p) (UDPPacket_ReadFrom UDPPacket_zero) (UDPPacket_canon p)"
proof -
  have vv: "UReserved p = (0, 0)" "Frag p = 0" "length (Data p) \<noteq> 0"
    using v by (auto simp: UDPPacket_Validate_def split: if_splits)
  let ?hdr = "[fst (UReserved p), snd (UReserved p), Frag p, UAddrType p]"
  let ?ad = "wire_addr (UAddrType p) (UIP p) (UDomain p)"
  let ?bs = "?hdr @ ?ad @ PutUint16 (UPort p) @ Data p"
  let ?w1 = "buffer\<lparr>w_out := ?hdr, w_calls := Suc 0\<rparr>"
  obtain x n c where xn: "x + n = length ?ad"
    and wa: "\<And>n0. WriteAddr (UAddrType p) (UIP p) (UDomain p) n0 ?w1
      = (x, n, None, ?w1\<lparr>w_out := w_out ?w1 @ ?ad, w_calls := c\<rparr>)"
    using WriteAddr_ok [of ?w1 "UAddrType p" "UIP p" "UDomain p"] a by auto
  have w: "UDPPacket_WriteTo p buffer
      = (length ?bs, None, buffer\<lparr>w_out := ?bs, w_calls := Suc (Suc c)\<rparr>)"
    using xn by (simp add: UDPPacket_WriteTo_def v Write_ok wa)
  let ?p1 = "UDPPacket_zero\<lparr>UReserved := UReserved p, Frag := Frag p,
      UAddrType := UAddrType p\<rparr>"
  have at: "UAddrType p = AddrTypeIPv4 \<or> UAddrType p = AddrTypeIPv6 \<or> UAddrType p = AddrTypeDomain"
    using a by (auto simp: addr_ok_def)
  have vh1: "UDPPacket_ValidateHeader ?p1 = None"
    using vv at by (auto simp: UDPPacket_ValidateHeader_def)
  have ra: "ReadAddr (UAddrType p) None [] (?ad @ PutUint16 (UPort p) @ Data p)
      = (canon_ip (UAddrType p) (UIP p), canon_domain (UAddrType p) (UDomain p), length ?ad,
         None, PutUint16 (UPort p) @ Data p)"
    using ReadAddr_wire [OF a] .
  have eq: "?p1\<lparr>UIP := canon_ip (UAddrType p) (UIP p),
      UDomain := canon_domain (UAddrType p) (UDomain p), UPort := UPort p, Data := Data p\<rparr>
      = UDPPacket_canon p"
    by (cases p) (simp add: UDPPacket_zero_def UDPPacket_canon_def)
  have vc: "UDPPacket_Validate (UDPPacket_canon p) = None"
    using vv a
    by (auto simp: UDPPacket_Validate_def UDPPacket_canon_def addr_ok_def canon_ip_def
        canon_domain_def AddrTypeIPv4_def AddrTypeIPv6_def AddrTypeDomain_def)
  have z: "UIP UDPPacket_zero = None" "UDomain UDPPacket_zero = []"
    by (simp_all add: UDPPacket_zero_def)
  have "UDPPacket_ReadFrom UDPPacket_zero ?bs = (UDPPacket_canon p, length ?bs, None, [])"
    by (simp add: UDPPacket_ReadFrom_def ReadFull_Cons4 Let_def vh1 z ra ReadFull_PutUint16
        ReadAll_def eq vc)
  then show ?thesis using w by (rule roundtripI [rotated])
qed

lemma unat_of_nat_u16: "n \<le> 65535 \<Longrightarrow> unat (of_nat n :: u16) = n"
  by (simp add: unat_of_nat take_bit_nat_eq_self)

lemma of_nat_u16_nonzero: "0 < n \<Longrightarrow> n \<le> 65535 \<Longrightarrow> (of_nat n :: u16) \<noteq> 0"
  using unat_of_nat_u16 [of n] by (metis less_numeral_extra(3) unat_0)

lemma GSSAPIRequest_roundtrip:
  assumes v: "GSSAPIRequest_Validate r = None"
  shows "roundtrip (GSSAPIRequest_WriteTo r) (GSSAPIRequest_ReadFrom GSSAPI_zero) (GSSAPI_canon r)"
proof (cases "MsgType r = GSSAPITypeAbort")
  case True
  let ?bs = "[GVersion r, MsgType r]"
  have w: "GSSAPIRequest_WriteTo r buffer = (length ?bs, None, buffer\<lparr>w_out := ?bs, w_calls := Suc 0\<rparr>)"
    using True by (simp add: GSSAPIRequest_WriteTo_def v Write_ok)
  have eq: "GSSAPI_zero\<lparr>GVersion := GVersion r, MsgType := GSSAPITypeAbort\<rparr> = GSSAPI_canon r"
    using True by (cases r) (simp add: GSSAPI_zero_def GSSAPI_canon_def)
  have mc: "MsgType (GSSAPI_canon r) = GSSAPITypeAbort" using True by (simp add: GSSAPI_canon_def)
  have "GSSAPIRequest_ReadFrom GSSAPI_zero ?bs = (GSSAPI_canon r, length ?bs, None, [])"
    using True by (simp add: GSSAPIRequest_ReadFrom_def ReadFull_Cons2 Let_def eq mc)
  then show ?thesis using w by (rule roundtripI [rotated])
next
  case False
  have vv: "0 < length (Token r)" "length (Token r) \<le> 65535"
    using v False by (auto simp: GSSAPIRequest_Validate_def split: if_splits)
  let ?ln = "of_nat (length (Token r)) :: u16"
  let ?bs = "[GVersion r, MsgType r] @ PutUint16 ?ln @ Token r"
  have w: "GSSAPIRequest_WriteTo r buffer = (length ?bs, None, buffer\<lparr>w_out := ?bs, w_calls := Suc (Suc 0)\<rparr>)"
    using False by (simp add: GSSAPIRequest_WriteTo_def v Write_ok)
  have eq: "GSSAPI_zero\<lparr>GVersion := GVersion r, MsgType := MsgType r, Token := Token r\<rparr>
      = GSSAPI_canon r"
    using False by (cases r) (simp add: GSSAPI_zero_def GSSAPI_canon_def)
  have vc: "GSSAPIRequest_Validate (GSSAPI_canon r) = None"
    using v False by (simp add: GSSAPI_canon_def)
  have nz: "?ln \<noteq> 0" using of_nat_u16_nonzero vv by simp
  have un: "unat ?ln = length (Token r)" using unat_of_nat_u16 vv(2) by simp
  have "GSSAPIRequest_ReadFrom GSSAPI_zero ?bs = (GSSAPI_canon r, length ?bs, None, [])"
    using False
    by (simp add: GSSAPIRequest_ReadFrom_def ReadFull_Cons2 Let_def ReadFull_PutUint16 nz un
        ReadFull_exact eq vc)
  then show ?thesis using w by (rule roundtripI [rotated])
qed

lemma GSSAPIReply_roundtrip:
  assumes v: "GSSAPIReply_Validate r = None"
  shows "roundtrip (GSSAPIReply_WriteTo r) (GSSAPIReply_ReadFrom GSSAPI_zero) (GSSAPI_canon r)"
proof (cases "MsgType r = GSSAPITypeAbort")
  case True
  let ?bs = "[GVersion r, MsgType r]"
  have w: "GSSAPIReply_WriteTo r buffer = (length ?bs, None, buffer\<lparr>w_out := ?bs, w_calls := Suc 0\<rparr>)"
    using True by (simp add: GSSAPIReply_WriteTo_def v Write_ok)
  have eq: "GSSAPI_zero\<lparr>GVersion := GVersion r, MsgType := GSSAPITypeAbort\<rparr> = GSSAPI_canon r"
    using True by (cases r) (simp add: GSSAPI_zero_def GSSAPI_canon_def)
  have mc: "MsgType (GSSAPI_canon r) = GSSAPITypeAbort" using True by (simp add: GSSAPI_canon_def)
  have "GSSAPIReply_ReadFrom GSSAPI_zero ?bs = (GSSAPI_canon r, length ?bs, None, [])"
    using True by (simp add: GSSAPIReply_ReadFrom_def ReadFull_Cons2 Let_def eq mc)
  then show ?thesis using w by (rule roundtripI [rotated])
next
  case False
  have vv: "0 < length (Token r)" "length (Token r) \<le> 65535"
    using v False by (auto simp: GSSAPIReply_Validate_def split: if_splits)
  let ?ln = "of_nat (length (Token r)) :: u16"
  let ?bs = "[GVersion r, MsgType r] @ PutUint16 ?ln @ Token r"
  have w: "GSSAPIReply_WriteTo r buffer = (length ?bs, None, buffer\<lparr>w_out := ?bs, w_calls := Suc (Suc 0)\<rparr>)"
    using False by (simp add: GSSAPIReply_WriteTo_def v Write_ok)
  have eq: "GSSAPI_zero\<lparr>GVersion := GVersion r, MsgType := MsgType r, Token := Token r\<rparr>
      = GSSAPI_canon r"
    using False by (cases r) (simp add: GSSAPI_zero_def GSSAPI_canon_def)
  have vc: "GSSAPIReply_Validate (GSSAPI_canon r) = None"
    using v False by (simp add: GSSAPI_canon_def)
  have nz: "?ln \<noteq> 0" using of_nat_u16_nonzero vv by simp
  have un: "unat ?ln = length (Token r)" using unat_of_nat_u16 vv(2) by simp
  have "GSSAPIReply_ReadFrom GSSAPI_zero ?bs = (GSSAPI_canon r, length ?bs, None, [])"
    using False
    by (simp add: GSSAPIReply_ReadFrom_def ReadFull_Cons2 Let_def ReadFull_PutUint16 nz un
        ReadFull_exact eq vc)
  then show ?thesis using w by (rule roundtripI [rotated])
qed

lemma take_12_v4:
  assumes "length bs = 16" "take 10 bs = replicate 10 0" "bs ! 10 = 0xff" "bs ! 11 = 0xff"
  shows "take 12 bs = v4InV6Prefix"
proof -
  have "take 12 bs = take 10 bs @ [bs ! 10, bs ! 11]"
    using assms(1) by (simp add: list_eq_iff_nth_eq nth_append less_Suc_eq numeral_Bit0 numeral_Bit1)
  then show ?thesis using assms by (simp add: v4InV6Prefix_def numeral_eq_Suc)
qed

lemma list4: "length bs = 4 \<Longrightarrow> [bs ! 0, bs ! 1, bs ! 2, bs ! 3] = bs"
  by (simp add: list_eq_iff_nth_eq less_Suc_eq numeral_eq_Suc nth_Cons split: nat.splits)

lemma IP_Equal_To4: "To4 ip \<noteq> None \<Longrightarrow> IP_Equal (To4 ip) ip"
proof -
  assume a: "To4 ip \<noteq> None"
  show ?thesis
  proof (cases "length (slice ip) = 4")
    case True
    then show ?thesis by (simp add: To4_def IP_Equal_def)
  next
    case False
    then have c: "length (slice ip) = 16" "take 10 (slice ip) = replicate 10 0"
      "slice ip ! 10 = 0xff" "slice ip ! 11 = 0xff"
      using a by (auto simp: To4_def Let_def split: if_splits)
    have t: "To4 ip = Some (drop 12 (slice ip))" using False c by (simp add: To4_def)
    show ?thesis unfolding t using c(1) take_12_v4 [OF c]
      by (simp add: IP_Equal_def slice_def [of "Some _"])
  qed
qed

lemma IP_Equal_To16: "To16 ip \<noteq> None \<Longrightarrow> IP_Equal (To16 ip) ip"
proof -
  assume a: "To16 ip \<noteq> None"
  show ?thesis
  proof (cases "length (slice ip) = 4")
    case True
    then show ?thesis using list4 [OF True]
      by (simp add: To16_def IP_Equal_def IPv4_def slice_def [of "Some _"] v4InV6Prefix_def)
  next
    case False
    then have "length (slice ip) = 16" using a by (auto simp: To16_def Let_def split: if_splits)
    then show ?thesis by (simp add: To16_def IP_Equal_def)
  qed
qed

lemma canon_ip_Equal:
  assumes "addr_ok atyp ip domain" "atyp \<noteq> AddrTypeDomain"
  shows "IP_Equal (canon_ip atyp ip) ip"
  using assms IP_Equal_To4 IP_Equal_To16
  by (auto simp: addr_ok_def canon_ip_def AddrTypeIPv4_def AddrTypeIPv6_def)

text \<open>
  C1 (as amended). For every message that passes the validation of its type, \<open>WriteTo\<close>
  into a buffer followed by \<open>ReadFrom\<close> into a zero value succeeds, reports the same
  byte count in both directions, consumes exactly the bytes written and reproduces the
  fields, under these further conditions: the user id and the domain of a SOCKS4 request
  contain no NUL byte and have at most 256 bytes; the IP of a SOCKS5 request, reply or UDP
  packet is one that \<open>To4\<close> (IPv4) or \<open>To16\<close> (IPv6) accepts. The decoded IP is
  that conversion of the IP written, equal to it in the sense of \<open>net.IP.Equal\<close>; the
  address field that the address type does not select, and the token of a GSSAPI abort
  message, are not transmitted.
\<close>

theorem C1_round_trip:
  "(Request4_Validate r4 = None \<and> 0 \<notin> set (UserID4 r4) \<and> length (UserID4 r4) \<le> 256 \<and>
    0 \<notin> set (Domain4 r4) \<and> length (Domain4 r4) \<le> 256
      \<longrightarrow> roundtrip (Request4_WriteTo r4) (Request4_ReadFrom Request4_zero) r4) \<and>
   (Response4_Validate p4 = None
      \<longrightarrow> roundtrip (Response4_WriteTo p4) (Response4_ReadFrom Response4_zero) p4) \<and>
   (HandshakeRequest_Validate hq = None
      \<longrightarrow> roundtrip (HandshakeRequest_WriteTo hq) (HandshakeRequest_ReadFrom HandshakeRequest_zero) hq) \<and>
   (HandshakeReply_Validate hp = None
      \<longrightarrow> roundtrip (HandshakeReply_WriteTo hp) (HandshakeReply_ReadFrom HandshakeReply_zero) hp) \<and>
   (Request5_Validate r5 = None \<and> addr_ok (AddrType5 r5) (IP5 r5) (Domain5 r5)
      \<longrightarrow> roundtrip (Request5_WriteTo r5) (Request5_ReadFrom Request5_zero) (Request5_canon r5)) \<and>
   (Reply5_Validate p5 = None \<and> addr_ok (RAddrType5 p5) (RIP5 p5) (RDomain5 p5)
      \<longrightarrow> roundtrip (Reply5_WriteTo p5) (Reply5_ReadFrom Reply5_zero) (Reply5_canon p5)) \<and>
   (UserPassRequest_Validate uq = None
      \<longrightarrow> roundtrip (UserPassRequest_WriteTo uq) (UserPassRequest_ReadFrom UserPassRequest_zero) uq) \<and>
   (UserPassReply_Validate up = None
      \<longrightarrow> roundtrip (UserPassReply_WriteTo up) (UserPassReply_ReadFrom UserPassReply_zero) up) \<and>
   (GSSAPIRequest_Validate gq = None
      \<longrightarrow> roundtrip (GSSAPIRequest_WriteTo gq) (GSSAPIRequest_ReadFrom GSSAPI_zero) (GSSAPI_canon gq)) \<and>
   (GSSAPIReply_Validate gp = None
      \<longrightarrow> roundtrip (GSSAPIReply_WriteTo gp) (GSSAPIReply_ReadFrom GSSAPI_zero) (GSSAPI_canon gp)) \<and>
   (UDPPacket_Validate ud = None \<and> addr_ok (UAddrType ud) (UIP ud) (UDomain ud)
      \<longrightarrow> roundtrip (UDPPacket_WriteTo ud) (UDPPacket_ReadFrom UDPPacket_zero) (UDPPacket_canon ud)) \<and>
   (addr_ok atyp ip domain \<and> atyp \<noteq> AddrTypeDomain \<longrightarrow> IP_Equal (canon_ip atyp ip) ip)"
  using Request4_roundtrip [of r4] Response4_roundtrip [of p4] HandshakeRequest_roundtrip [of hq]
    HandshakeReply_roundtrip [of hp] Request5_roundtrip [of r5] Reply5_roundtrip [of p5]
    UserPassRequest_roundtrip [of uq] UserPassReply_roundtrip [of up]
    GSSAPIRequest_roundtrip [of gq] GSSAPIReply_roundtrip [of gp] UDPPacket_roundtrip [of ud]
    canon_ip_Equal [of atyp ip domain]
  by blast

text \<open>One valid message of each type.\<close>

definition ex_request4 :: Request4 where
  "ex_request4 = \<lparr>Version4 = 4, Command4 = 1, Port4 = 443, IP4 = (0, 0, 0, 1),
                   UserID4 = [97, 108], Domain4 = [101, 120]\<rparr>"

definition ex_response4 :: Response4 where
  "ex_response4 = \<lparr>RVersion4 = 0, Code4 = 90, RPort4 = 1080, RIP4 = (127, 0, 0, 1)\<rparr>"

definition ex_handshake_request :: HandshakeRequest where
  "ex_handshake_request = \<lparr>HVersion = 5, NMethods = 2, Methods = [0, 2]\<rparr>"

definition ex_handshake_reply :: HandshakeReply where
  "ex_handshake_reply = \<lparr>HRVersion = 5, Method = 2\<rparr>"

definition ex_request5 :: Request5 where
  "ex_request5 = \<lparr>Version5 = 5, Command5 = 1, Reserved5 = 0, AddrType5 = 3, IP5 = None,
                   Domain5 = [101, 120], Port5 = 80\<rparr>"

definition ex_reply5 :: Reply5 where
  "ex_reply5 = \<lparr>RVersion5 = 5, Reply = 0, RReserved5 = 0, RAddrType5 = 1,
                 RIP5 = IPv4 127 0 0 1, RDomain5 = [], RPort5 = 1080\<rparr>"

definition ex_userpass_request :: UserPassRequest where
  "ex_userpass_request = \<lparr>UPVersion = 1, Username = [97], Password = [98]\<rparr>"

definition ex_userpass_reply :: UserPassReply where
  "ex_userpass_reply = \<lparr>UPRVersion = 1, Status = 0\<rparr>"

definition ex_gssapi :: GSSAPI where
  "ex_gssapi = \<lparr>GVersion = 1, MsgType = 1, Token = [7, 7]\<rparr>"

definition ex_udp :: UDPPacket where
  "ex_udp = \<lparr>UReserved = (0, 0), Frag = 0, UAddrType = 1, UIP = Some [10, 0, 0, 1],
              UDomain = [], UPort = 53, Data = [1, 2, 3]\<rparr>"

theorem C1_round_trip_witness:
  "roundtrip (Request4_WriteTo ex_request4) (Request4_ReadFrom Request4_zero) ex_request4 \<and>
   roundtrip (Response4_WriteTo ex_response4) (Response4_ReadFrom Response4_zero) ex_response4 \<and>
   roundtrip (HandshakeRequest_WriteTo ex_handshake_request)
     (HandshakeRequest_ReadFrom HandshakeRequest_zero) ex_handshake_request \<and>
   roundtrip (HandshakeReply_WriteTo ex_handshake_reply)
     (HandshakeReply_ReadFrom HandshakeReply_zero) ex_handshake_reply \<and>
   roundtrip (Request5_WriteTo ex_request5) (Request5_ReadFrom Request5_zero) ex_request5 \<and>
   roundtrip (Reply5_WriteTo ex_reply5) (Reply5_ReadFrom Reply5_zero)
     (ex_reply5\<lparr>RIP5 := Some [127, 0, 0, 1]\<rparr>) \<and>
   roundtrip (UserPassRequest_WriteTo ex_userpass_request)
     (UserPassRequest_ReadFrom UserPassRequest_zero) ex_userpass_request \<and>
   roundtrip (UserPassReply_WriteTo ex_userpass_reply)
     (UserPassReply_ReadFrom UserPassReply_zero) ex_userpass_reply \<and>
   roundtrip (GSSAPIRequest_WriteTo ex_gssapi) (GSSAPIRequest_ReadFrom GSSAPI_zero) ex_gssapi \<and>
   roundtrip (GSSAPIReply_WriteTo ex_gssapi) (GSSAPIReply_ReadFrom GSSAPI_zero) ex_gssapi \<and>
   roundtrip (UDPPacket_WriteTo ex_udp) (UDPPacket_ReadFrom UDPPacket_zero) ex_udp \<and>
   IP_Equal (Some [127, 0, 0, 1]) (IPv4 127 0 0 1)"
proof -
  have h4: "Request4_Validate ex_request4 = None \<and> 0 \<notin> set (UserID4 ex_request4) \<and>
      length (UserID4 ex_request4) \<le> 256 \<and> 0 \<notin> set (Domain4 ex_request4) \<and>
      length (Domain4 ex_request4) \<le> 256"
    by code_simp
  have hp4: "Response4_Validate ex_response4 = None" by code_simp
  have hhq: "HandshakeRequest_Validate ex_handshake_request = None" by code_simp
  have hhp: "HandshakeReply_Validate ex_handshake_reply = None" by code_simp
  have h5: "Request5_Validate ex_request5 = None \<and>
      addr_ok (AddrType5 ex_request5) (IP5 ex_request5) (Domain5 ex_request5)"
    by code_simp
  have hp5: "Reply5_Validate ex_reply5 = None \<and>
      addr_ok (RAddrType5 ex_reply5) (RIP5 ex_reply5) (RDomain5 ex_reply5)"
    by code_simp
  have huq: "UserPassRequest_Validate ex_userpass_request = None" by code_simp
  have hup: "UserPassReply_Validate ex_userpass_reply = None" by code_simp
  have hgq: "GSSAPIRequest_Validate ex_gssapi = None"
    by (simp add: GSSAPIRequest_Validate_def ex_gssapi_def GSSAPITypeAbort_def)
  have hgp: "GSSAPIReply_Validate ex_gssapi = None"
    by (simp add: GSSAPIReply_Validate_def ex_gssapi_def GSSAPITypeAbort_def)
  have hud: "UDPPacket_Validate ex_udp = None \<and>
      addr_ok (UAddrType ex_udp) (UIP ex_udp) (UDomain ex_udp)"
    by code_simp
  have ha: "addr_ok AddrTypeIPv4 (IPv4 127 0 0 1) [] \<and> AddrTypeIPv4 \<noteq> AddrTypeDomain"
    by code_simp
  have c5: "Request5_canon ex_request5 = ex_request5" by code_simp
  have cp5: "Reply5_canon ex_reply5 = ex_reply5\<lparr>RIP5 := Some [127, 0, 0, 1]\<rparr>" by code_simp
  have cg: "GSSAPI_canon ex_gssapi = ex_gssapi" by code_simp
  have cu: "UDPPacket_canon ex_udp = ex_udp" by code_simp
  have ci: "canon_ip AddrTypeIPv4 (IPv4 127 0 0 1) = Some [127, 0, 0, 1]" by code_simp
  note c1 = C1_round_trip [where ?r4.0 = ex_request4 and ?p4.0 = ex_response4
        and hq = ex_handshake_request and hp = ex_handshake_reply
        and ?r5.0 = ex_request5 and ?p5.0 = ex_reply5
        and uq = ex_userpass_request and up = ex_userpass_reply
        and gq = ex_gssapi and gp = ex_gssapi and ud = ex_udp
        and atyp = AddrTypeIPv4 and ip = "IPv4 127 0 0 1" and domain = "[]"]
  note c2 = c1 [THEN conjunct2]
  note c3 = c2 [THEN conjunct2]
  note c4 = c3 [THEN conjunct2]
  note c5' = c4 [THEN conjunct2]
  note c6 = c5' [THEN conjunct2]
  note c7 = c6 [THEN conjunct2]
  note c8 = c7 [THEN conjunct2]
  note c9 = c8 [THEN conjunct2]
  note c10 = c9 [THEN conjunct2]
  note c11 = c10 [THEN conjunct2]
  note c12 = c11 [THEN conjunct2]
  note t1 = c1 [THEN conjunct1, THEN mp, OF h4]
  note t2 = c2 [THEN conjunct1, THEN mp, OF hp4]
  note t3 = c3 [THEN conjunct1, THEN mp, OF hhq]
  note t4 = c4 [THEN conjunct1, THEN mp, OF hhp]
  note t5 = c5' [THEN conjunct1, THEN mp, OF h5, unfolded c5]
  note t6 = c6 [THEN conjunct1, THEN mp, OF hp5, unfolded cp5]
  note t7 = c7 [THEN conjunct1, THEN mp, OF huq]
  note t8 = c8 [THEN conjunct1, THEN mp, OF hup]
  note t9 = c9 [THEN conjunct1, THEN mp, OF hgq, unfolded cg]
  note t10 = c10 [THEN conjunct1, THEN mp, OF hgp, unfolded cg]
  note t11 = c11 [THEN conjunct1, THEN mp, OF hud, unfolded cu]
  note t12 = c12 [THEN mp, OF ha, unfolded ci]
  show ?thesis
    by (intro conjI) (rule t1 t2 t3 t4 t5 t6 t7 t8 t9 t10 t11 t12)+
qed

text \<open>
  C1 as stated fails: a SOCKS4 request with a NUL byte in its user id passes \<open>Validate\<close>
  and is written in 12 bytes, of which \<open>ReadFrom\<close> reports 10 and returns a different
  user id.
\<close>

theorem C1_round_trip_counterexample:
  "Request4_Validate nul_request = None \<and>
   fst (Request4_WriteTo nul_request buffer) = 12 \<and>
   fst (snd (Request4_WriteTo nul_request buffer)) = None \<and>
   w_out (snd (snd (Request4_WriteTo nul_request buffer)))
     = [4, 1, 0, 80, 1, 2, 3, 4, 97, 0, 98, 0] \<and>
   Request4_ReadFrom Request4_zero [4, 1, 0, 80, 1, 2, 3, 4, 97, 0, 98, 0]
     = (nul_request\<lparr>UserID4 := [97]\<rparr>, 10, None, []) \<and>
   \<not> roundtrip (Request4_WriteTo nul_request) (Request4_ReadFrom Request4_zero) nul_request"
proof -
  have v: "Request4_Validate nul_request = None" by code_simp
  have w: "fst (Request4_WriteTo nul_request buffer) = 12"
    "fst (snd (Request4_WriteTo nul_request buffer)) = None"
    "w_out (snd (snd (Request4_WriteTo nul_request buffer)))
       = [4, 1, 0, 80, 1, 2, 3, 4, 97, 0, 98, 0]"
    by code_simp+
  have r: "Request4_ReadFrom Request4_zero [4, 1, 0, 80, 1, 2, 3, 4, 97, 0, 98, 0]
     = (nul_request\<lparr>UserID4 := [97]\<rparr>, 10, None, [])"
    by code_simp
  have "\<not> roundtrip (Request4_WriteTo nul_request) (Request4_ReadFrom Request4_zero) nul_request"
    using w r by (auto simp: roundtrip_def split: prod.splits)
  then show ?thesis using v w r by (intro conjI) assumption+
qed

section \<open>Validation of the fixed header while decoding\<close>

lemma ReadFull_enough: "n \<le> length src \<Longrightarrow> ReadFull src n = (take n src, None, drop n src)"
  by (simp add: ReadFull_def)

lemma ValidateHeader_upd [simp]:
  "ValidateHeader (r\<lparr>UserID4 := u\<rparr>) = ValidateHeader r"
  "ValidateHeader (r\<lparr>Domain4 := d\<rparr>) = ValidateHeader r"
  by (simp_all add: ValidateHeader_def)

lemma ReadUserIDAndDomain_header:
  "ValidateHeader (fst (ReadUserIDAndDomain r src mu md)) = ValidateHeader r"
  by (simp add: ReadUserIDAndDomain_fresh Let_def split: prod.splits option.splits)

lemma Request4_header_first:
  assumes "8 \<le> length src" "Request4_ReadFrom r src = (r', n, e, src')" "ValidateHeader r' \<noteq> None"
  shows "e = ValidateHeader r' \<and> n = 8 \<and> src' = drop 8 src"
proof -
  let ?r1 = "r\<lparr>Version4 := take 8 src ! 0, Command4 := take 8 src ! 1,
      Port4 := Uint16 (take 2 (drop 2 (take 8 src))),
      IP4 := copy4 (IP4 r) (take 4 (drop 4 (take 8 src)))\<rparr>"
  have h: "ReadHeaderFrom r src = (?r1, 8, ValidateHeader ?r1, drop 8 src)"
    using assms(1) by (simp add: ReadHeaderFrom_def ReadFull_enough Let_def)
  show ?thesis
  proof (cases "ValidateHeader ?r1")
    case (Some x)
    then show ?thesis using assms(2) h
      by (simp add: Request4_ReadFrom_def ReadFromWithLimits_def)
  next
    case None
    obtain r2 n2 e2 s2 where u: "ReadUserIDAndDomain ?r1 (drop 8 src) DefaultMaxUserIDLen
        DefaultMaxDomainLen = (r2, n2, e2, s2)"
      by (cases "ReadUserIDAndDomain ?r1 (drop 8 src) DefaultMaxUserIDLen DefaultMaxDomainLen") auto
    have "ValidateHeader r2 = None"
      using ReadUserIDAndDomain_header [of ?r1 "drop 8 src" DefaultMaxUserIDLen DefaultMaxDomainLen]
        u None by simp
    moreover have "r' = r2" using assms(2) h None u
      by (simp add: Request4_ReadFrom_def ReadFromWithLimits_def)
    ultimately show ?thesis using assms(3) by simp
  qed
qed

lemma Request5_ValidateHeader_upd [simp]:
  "Request5_ValidateHeader (r\<lparr>IP5 := i\<rparr>) = Request5_ValidateHeader r"
  "Request5_ValidateHeader (r\<lparr>Domain5 := d\<rparr>) = Request5_ValidateHeader r"
  "Request5_ValidateHeader (r\<lparr>Port5 := p\<rparr>) = Request5_ValidateHeader r"
  by (simp_all add: Request5_ValidateHeader_def)

lemma Request5_header_first:
  assumes "4 \<le> length src" "Request5_ReadFrom r src = (r', n, e, src')"
    "Request5_ValidateHeader r' \<noteq> None"
  shows "e = Request5_ValidateHeader r' \<and> n = 4 \<and> src' = drop 4 src"
  using assms
  by (auto simp: Request5_ReadFrom_def ReadFull_enough Let_def split: option.splits prod.splits)

lemma Reply5_ValidateHeader_upd [simp]:
  "Reply5_ValidateHeader (r\<lparr>RIP5 := i\<rparr>) = Reply5_ValidateHeader r"
  "Reply5_ValidateHeader (r\<lparr>RDomain5 := d\<rparr>) = Reply5_ValidateHeader r"
  "Reply5_ValidateHeader (r\<lparr>RPort5 := p\<rparr>) = Reply5_ValidateHeader r"
  by (simp_all add: Reply5_ValidateHeader_def)

lemma Reply5_header_first:
  assumes "4 \<le> length src" "Reply5_ReadFrom r src = (r', n, e, src')"
    "Reply5_ValidateHeader r' \<noteq> None"
  shows "e = Reply5_ValidateHeader r' \<and> n = 4 \<and> src' = drop 4 src"
  using assms
  by (auto simp: Reply5_ReadFrom_def ReadFull_enough Let_def split: option.splits prod.splits)

lemma UDPPacket_ValidateHeader_upd [simp]:
  "UDPPacket_ValidateHeader (r\<lparr>UIP := i\<rparr>) = UDPPacket_ValidateHeader r"
  "UDPPacket_ValidateHeader (r\<lparr>UDomain := d\<rparr>) = UDPPacket_ValidateHeader r"
  "UDPPacket_ValidateHeader (r\<lparr>UPort := p\<rparr>) = UDPPacket_ValidateHeader r"
  "UDPPacket_ValidateHeader (r\<lparr>Data := x\<rparr>) = UDPPacket_ValidateHeader r"
  by (simp_all add: UDPPacket_ValidateHeader_def)

lemma UDPPacket_header_first:
  assumes "4 \<le> length src" "UDPPacket_ReadFrom r src = (r', n, e, src')"
    "UDPPacket_ValidateHeader r' \<noteq> None"
  shows "e = UDPPacket_ValidateHeader r' \<and> n = 4 \<and> src' = drop 4 src"
  using assms
  by (auto simp: UDPPacket_ReadFrom_def ReadFull_enough Let_def split: option.splits prod.splits)


lemma HandshakeRequest_after_header:
  assumes "2 \<le> length src" "HandshakeRequest_ReadFrom h src = (h', n, e, src')"
  shows "src ! 1 = 0 \<Longrightarrow> e = Some ErrNoMethodsProvided \<and> n = 2 \<and> src' = drop 2 src"
    and "src ! 1 \<noteq> 0 \<Longrightarrow>
         n = min (length src) (2 + unat (src ! 1)) \<and> src' = drop (2 + unat (src ! 1)) src"
    and "src ! 1 \<noteq> 0 \<Longrightarrow> src ! 0 \<noteq> SocksVersion5 \<Longrightarrow> 2 + unat (src ! 1) \<le> length src \<Longrightarrow>
         e = Some ErrInvalidHandshakeVersion"
proof -
  have t: "take 2 src ! 0 = src ! 0" "take 2 src ! 1 = src ! 1" "take 2 src ! Suc 0 = src ! 1"
    by simp_all
  have nz: "src ! 1 \<noteq> 0 \<Longrightarrow> unat (src ! 1) \<noteq> 0" by (simp add: unat_eq_0)
  show "src ! 1 = 0 \<Longrightarrow> e = Some ErrNoMethodsProvided \<and> n = 2 \<and> src' = drop 2 src"
    using assms by (auto simp: HandshakeRequest_ReadFrom_def ReadFull_enough Let_def t)
  show "src ! 1 \<noteq> 0 \<Longrightarrow>
         n = min (length src) (2 + unat (src ! 1)) \<and> src' = drop (2 + unat (src ! 1)) src"
    using assms nz
    by (auto simp: HandshakeRequest_ReadFrom_def ReadFull_enough Let_def t ReadFull_def [of "drop 2 src"]
        add.commute split: if_splits)
  show "src ! 1 \<noteq> 0 \<Longrightarrow> src ! 0 \<noteq> SocksVersion5 \<Longrightarrow> 2 + unat (src ! 1) \<le> length src \<Longrightarrow>
         e = Some ErrInvalidHandshakeVersion"
    using assms nz
    by (auto simp: HandshakeRequest_ReadFrom_def ReadFull_enough Let_def t
        HandshakeRequest_Validate_def split: if_splits)
qed

lemma UserPassRequest_after_header:
  assumes "2 \<le> length src" "UserPassRequest_ReadFrom r src = (r', n, e, src')"
  shows "src ! 1 = 0 \<Longrightarrow> e = Some ErrEmptyUserPassUsername \<and> n = 2 \<and> src' = drop 2 src"
    and "src ! 1 \<noteq> 0 \<Longrightarrow> min (length src) (2 + unat (src ! 1)) \<le> n"
    and "src ! 1 \<noteq> 0 \<Longrightarrow> src ! 0 \<noteq> AuthVersionUserPass \<Longrightarrow>
         src ! (2 + unat (src ! 1)) \<noteq> 0 \<Longrightarrow>
         3 + unat (src ! 1) + unat (src ! (2 + unat (src ! 1))) \<le> length src \<Longrightarrow>
         e = Some ErrInvalidUserPassVersion \<and> n = 3 + unat (src ! 1) + unat (src ! (2 + unat (src ! 1)))"
proof -
  have t: "take 2 src ! 0 = src ! 0" "take 2 src ! 1 = src ! 1" "take 2 src ! Suc 0 = src ! 1"
    by simp_all
  have nz: "\<And>x :: byte. x \<noteq> 0 \<Longrightarrow> unat x \<noteq> 0" by (simp add: unat_eq_0)
  show "src ! 1 = 0 \<Longrightarrow> e = Some ErrEmptyUserPassUsername \<and> n = 2 \<and> src' = drop 2 src"
    using assms by (auto simp: UserPassRequest_ReadFrom_def ReadFull_enough Let_def t)
  show "src ! 1 \<noteq> 0 \<Longrightarrow> min (length src) (2 + unat (src ! 1)) \<le> n"
    using assms nz [of "src ! 1"]
    by (auto simp: UserPassRequest_ReadFrom_def ReadFull_enough Let_def t
        ReadFull_def [of "drop 2 src"] split: if_splits prod.splits option.splits)
  show "src ! 1 \<noteq> 0 \<Longrightarrow> src ! 0 \<noteq> AuthVersionUserPass \<Longrightarrow>
         src ! (2 + unat (src ! 1)) \<noteq> 0 \<Longrightarrow>
         3 + unat (src ! 1) + unat (src ! (2 + unat (src ! 1))) \<le> length src \<Longrightarrow>
         e = Some ErrInvalidUserPassVersion \<and> n = 3 + unat (src ! 1) + unat (src ! (2 + unat (src ! 1)))"
  proof -
    define u where "u = unat (src ! Suc 0)"
    define p where "p = unat (src ! Suc (Suc u))"
    assume a0: "src ! 1 \<noteq> 0" "src ! 0 \<noteq> AuthVersionUserPass"
      "src ! (2 + unat (src ! 1)) \<noteq> 0"
      "3 + unat (src ! 1) + unat (src ! (2 + unat (src ! 1))) \<le> length src"
    have a: "u \<noteq> 0" "p \<noteq> 0" "3 + u + p \<le> length src"
      using a0 nz by (simp_all add: u_def p_def)
    have r1: "ReadFull (drop 2 src) u = (take u (drop 2 src), None, drop (Suc (Suc u)) src)"
      using a(3) by (simp add: ReadFull_enough add.commute)
    have r2: "ReadFull (drop (Suc (Suc u)) src) (Suc 0)
        = ([src ! Suc (Suc u)], None, drop (Suc (Suc (Suc u))) src)"
    proof -
      have "Suc (Suc u) < length src" using a(3) by simp
      then have "take (Suc 0) (drop (Suc (Suc u)) src) = [src ! Suc (Suc u)]"
        by (simp add: take_Suc_conv_app_nth)
      moreover have "Suc 0 \<le> length (drop (Suc (Suc u)) src)" using a(3) by simp
      ultimately show ?thesis using ReadFull_enough [of "Suc 0" "drop (Suc (Suc u)) src"] by simp
    qed
    have r3: "ReadFull (drop (Suc (Suc (Suc u))) src) p
        = (take p (drop (Suc (Suc (Suc u))) src), None, drop (Suc (Suc (Suc (u + p)))) src)"
      using a(3) by (simp add: ReadFull_enough add.commute)
    have "UserPassRequest_ReadFrom r src =
        (r\<lparr>UPVersion := src ! 0, Username := take u (drop 2 src),
           Password := take p (drop (Suc (Suc (Suc u))) src)\<rparr>, Suc (Suc (Suc (u + p))),
         Some ErrInvalidUserPassVersion, drop (Suc (Suc (Suc (u + p)))) src)"
      using a a0(2) assms(1)
      by (simp add: UserPassRequest_ReadFrom_def ReadFull_enough [of 2] Let_def
          u_def [symmetric] r1 r2 p_def [symmetric] r3 UserPassRequest_Validate_def)
    then show ?thesis using assms(2) by (simp add: u_def p_def)
  qed
qed


lemma GSSAPIRequest_after_header:
  assumes "2 \<le> length src" "GSSAPIRequest_ReadFrom r src = (r', n, e, src')"
  shows "src ! 1 = GSSAPITypeAbort \<Longrightarrow> n = 2 \<and> src' = drop 2 src"
    and "src ! 1 \<noteq> GSSAPITypeAbort \<Longrightarrow> 4 \<le> length src \<Longrightarrow> Uint16 (take 2 (drop 2 src)) = 0 \<Longrightarrow>
         e = Some ErrEmptyGSSAPIToken \<and> n = 4 \<and> src' = drop 4 src"
    and "src ! 1 \<noteq> GSSAPITypeAbort \<Longrightarrow> 4 \<le> length src \<Longrightarrow> Uint16 (take 2 (drop 2 src)) \<noteq> 0 \<Longrightarrow>
         n = min (length src) (4 + unat (Uint16 (take 2 (drop 2 src)))) \<and>
         src' = drop (4 + unat (Uint16 (take 2 (drop 2 src)))) src"
    and "src ! 1 \<noteq> GSSAPITypeAbort \<Longrightarrow> 4 \<le> length src \<Longrightarrow> Uint16 (take 2 (drop 2 src)) \<noteq> 0 \<Longrightarrow>
         src ! 0 \<noteq> 1 \<Longrightarrow> 4 + unat (Uint16 (take 2 (drop 2 src))) \<le> length src \<Longrightarrow>
         e = Some ErrInvalidGSSAPIVersion"
proof -
  have t: "take 2 src ! 0 = src ! 0" "take 2 src ! 1 = src ! 1" "take 2 src ! Suc 0 = src ! 1"
    by simp_all
  have nz: "\<And>x :: u16. x \<noteq> 0 \<Longrightarrow> unat x \<noteq> 0" by (simp add: unat_eq_0)
  have r2: "4 \<le> length src \<Longrightarrow> ReadFull (drop 2 src) 2 = (take 2 (drop 2 src), None, drop 4 src)"
    using ReadFull_enough [of 2 "drop 2 src"] by simp
  show "src ! 1 = GSSAPITypeAbort \<Longrightarrow> n = 2 \<and> src' = drop 2 src"
    using assms by (auto simp: GSSAPIRequest_ReadFrom_def ReadFull_enough Let_def t)
  show "src ! 1 \<noteq> GSSAPITypeAbort \<Longrightarrow> 4 \<le> length src \<Longrightarrow> Uint16 (take 2 (drop 2 src)) = 0 \<Longrightarrow>
         e = Some ErrEmptyGSSAPIToken \<and> n = 4 \<and> src' = drop 4 src"
    using assms by (auto simp: GSSAPIRequest_ReadFrom_def ReadFull_enough [of 2 src] r2 Let_def t)
  show "src ! 1 \<noteq> GSSAPITypeAbort \<Longrightarrow> 4 \<le> length src \<Longrightarrow> Uint16 (take 2 (drop 2 src)) \<noteq> 0 \<Longrightarrow>
         n = min (length src) (4 + unat (Uint16 (take 2 (drop 2 src)))) \<and>
         src' = drop (4 + unat (Uint16 (take 2 (drop 2 src)))) src"
    using assms nz [of "Uint16 (take 2 (drop 2 src))"]
    by (auto simp: GSSAPIRequest_ReadFrom_def ReadFull_enough [of 2 src] r2 Let_def t
        ReadFull_def [of "drop 4 src"] add.commute split: if_splits)
  show "src ! 1 \<noteq> GSSAPITypeAbort \<Longrightarrow> 4 \<le> length src \<Longrightarrow> Uint16 (take 2 (drop 2 src)) \<noteq> 0 \<Longrightarrow>
         src ! 0 \<noteq> 1 \<Longrightarrow> 4 + unat (Uint16 (take 2 (drop 2 src))) \<le> length src \<Longrightarrow>
         e = Some ErrInvalidGSSAPIVersion"
    using assms nz [of "Uint16 (take 2 (drop 2 src))"]
    by (auto simp: GSSAPIRequest_ReadFrom_def ReadFull_enough [of 2 src] r2 Let_def t
        ReadFull_def [of "drop 4 src"] GSSAPIRequest_Validate_def split: if_splits)
qed

lemma GSSAPIReply_after_header:
  assumes "2 \<le> length src" "GSSAPIReply_ReadFrom r src = (r', n, e, src')"
  shows "src ! 1 = GSSAPITypeAbort \<Longrightarrow> n = 2 \<and> src' = drop 2 src"
    and "src ! 1 \<noteq> GSSAPITypeAbort \<Longrightarrow> 4 \<le> length src \<Longrightarrow> Uint16 (take 2 (drop 2 src)) = 0 \<Longrightarrow>
         e = Some ErrEmptyGSSAPIReplyToken \<and> n = 4 \<and> src' = drop 4 src"
    and "src ! 1 \<noteq> GSSAPITypeAbort \<Longrightarrow> 4 \<le> length src \<Longrightarrow> Uint16 (take 2 (drop 2 src)) \<noteq> 0 \<Longrightarrow>
         n = min (length src) (4 + unat (Uint16 (take 2 (drop 2 src)))) \<and>
         src' = drop (4 + unat (Uint16 (take 2 (drop 2 src)))) src"
    and "src ! 1 \<noteq> GSSAPITypeAbort \<Longrightarrow> 4 \<le> length src \<Longrightarrow> Uint16 (take 2 (drop 2 src)) \<noteq> 0 \<Longrightarrow>
         src ! 0 \<noteq> 1 \<Longrightarrow> 4 + unat (Uint16 (take 2 (drop 2 src))) \<le> length src \<Longrightarrow>
         e = Some ErrInvalidGSSAPIReplyVersion"
proof -
  have t: "take 2 src ! 0 = src ! 0" "take 2 src ! 1 = src ! 1" "take 2 src ! Suc 0 = src ! 1"
    by simp_all
  have nz: "\<And>x :: u16. x \<noteq> 0 \<Longrightarrow> unat x \<noteq> 0" by (simp add: unat_eq_0)
  have r2: "4 \<le> length src \<Longrightarrow> ReadFull (drop 2 src) 2 = (take 2 (drop 2 src), None, drop 4 src)"
    using ReadFull_enough [of 2 "drop 2 src"] by simp
  show "src ! 1 = GSSAPITypeAbort \<Longrightarrow> n = 2 \<and> src' = drop 2 src"
    using assms by (auto simp: GSSAPIReply_ReadFrom_def ReadFull_enough Let_def t)
  show "src ! 1 \<noteq> GSSAPITypeAbort \<Longrightarrow> 4 \<le> length src \<Longrightarrow> Uint16 (take 2 (drop 2 src)) = 0 \<Longrightarrow>
         e = Some ErrEmptyGSSAPIReplyToken \<and> n = 4 \<and> src' = drop 4 src"
    using assms by (auto simp: GSSAPIReply_ReadFrom_def ReadFull_enough [of 2 src] r2 Let_def t)
  show "src ! 1 \<noteq> GSSAPITypeAbort \<Longrightarrow> 4 \<le> length src \<Longrightarrow> Uint16 (take 2 (drop 2 src)) \<noteq> 0 \<Longrightarrow>
         n = min (length src) (4 + unat (Uint16 (take 2 (drop 2 src)))) \<and>
         src' = drop (4 + unat (Uint16 (take 2 (drop 2 src)))) src"
    using assms nz [of "Uint16 (take 2 (drop 2 src))"]
    by (auto simp: GSSAPIReply_ReadFrom_def ReadFull_enough [of 2 src] r2 Let_def t
        ReadFull_def [of "drop 4 src"] add.commute split: if_splits)
  show "src ! 1 \<noteq> GSSAPITypeAbort \<Longrightarrow> 4 \<le> length src \<Longrightarrow> Uint16 (take 2 (drop 2 src)) \<noteq> 0 \<Longrightarrow>
         src ! 0 \<noteq> 1 \<Longrightarrow> 4 + unat (Uint16 (take 2 (drop 2 src))) \<le> length src \<Longrightarrow>
         e = Some ErrInvalidGSSAPIReplyVersion"
    using assms nz [of "Uint16 (take 2 (drop 2 src))"]
    by (auto simp: GSSAPIReply_ReadFrom_def ReadFull_enough [of 2 src] r2 Let_def t
        ReadFull_def [of "drop 4 src"] GSSAPIReply_Validate_def split: if_splits)
qed

text \<open>
  C2 (as amended). For the SOCKS4 request, the SOCKS5 request, the SOCKS5 reply and the
  UDP packet, a decode whose fixed header fails header validation returns that validation
  error right after the header: the count is the header length and no byte behind the
  header has been taken from the stream. For the handshake request and the user/password
  request only a declared length of zero is rejected right after the two header bytes;
  with a non-zero declared length the declared bytes are read whatever the version byte
  is, and a wrong version is reported after the trailing fields have been read. The same
  holds for the GSSAPI request and the GSSAPI reply with their four header bytes: a
  declared token length of zero is rejected right after the header, and with a non-zero
  length the token is read whatever the version byte is and a wrong version is reported
  after it. Of a GSSAPI abort message, which has no token, only the first two bytes are
  read.
\<close>

theorem C2_header_validation:
  "(8 \<le> length s4 \<longrightarrow>
      (case Request4_ReadFrom r4 s4 of
         (r', n, e, src') \<Rightarrow>
           ValidateHeader r' \<noteq> None \<longrightarrow> e = ValidateHeader r' \<and> n = 8 \<and> src' = drop 8 s4)) \<and>
   (4 \<le> length s5 \<longrightarrow>
      (case Request5_ReadFrom r5 s5 of
         (r', n, e, src') \<Rightarrow>
           Request5_ValidateHeader r' \<noteq> None
             \<longrightarrow> e = Request5_ValidateHeader r' \<and> n = 4 \<and> src' = drop 4 s5)) \<and>
   (4 \<le> length sp \<longrightarrow>
      (case Reply5_ReadFrom p5 sp of
         (r', n, e, src') \<Rightarrow>
           Reply5_ValidateHeader r' \<noteq> None
             \<longrightarrow> e = Reply5_ValidateHeader r' \<and> n = 4 \<and> src' = drop 4 sp)) \<and>
   (4 \<le> length su \<longrightarrow>
      (case UDPPacket_ReadFrom ud su of
         (r', n, e, src') \<Rightarrow>
           UDPPacket_ValidateHeader r' \<noteq> None
             \<longrightarrow> e = UDPPacket_ValidateHeader r' \<and> n = 4 \<and> src' = drop 4 su)) \<and>
   (2 \<le> length sh \<longrightarrow>
      (case HandshakeRequest_ReadFrom hq sh of
         (h', n, e, src') \<Rightarrow>
           (sh ! 1 = 0 \<longrightarrow> e = Some ErrNoMethodsProvided \<and> n = 2 \<and> src' = drop 2 sh) \<and>
           (sh ! 1 \<noteq> 0 \<longrightarrow>
              n = min (length sh) (2 + unat (sh ! 1)) \<and> src' = drop (2 + unat (sh ! 1)) sh) \<and>
           (sh ! 1 \<noteq> 0 \<and> sh ! 0 \<noteq> SocksVersion5 \<and> 2 + unat (sh ! 1) \<le> length sh
              \<longrightarrow> e = Some ErrInvalidHandshakeVersion))) \<and>
   (2 \<le> length sq \<longrightarrow>
      (case UserPassRequest_ReadFrom uq sq of
         (r', n, e, src') \<Rightarrow>
           (sq ! 1 = 0 \<longrightarrow> e = Some ErrEmptyUserPassUsername \<and> n = 2 \<and> src' = drop 2 sq) \<and>
           (sq ! 1 \<noteq> 0 \<longrightarrow> min (length sq) (2 + unat (sq ! 1)) \<le> n) \<and>
           (sq ! 1 \<noteq> 0 \<and> sq ! 0 \<noteq> AuthVersionUserPass \<and> sq ! (2 + unat (sq ! 1)) \<noteq> 0 \<and>
            3 + unat (sq ! 1) + unat (sq ! (2 + unat (sq ! 1))) \<le> length sq
              \<longrightarrow> e = Some ErrInvalidUserPassVersion \<and>
                  n = 3 + unat (sq ! 1) + unat (sq ! (2 + unat (sq ! 1)))))) \<and>
   (2 \<le> length sg \<longrightarrow>
      (case GSSAPIRequest_ReadFrom gq sg of
         (r', n, e, src') \<Rightarrow>
           (sg ! 1 = GSSAPITypeAbort \<longrightarrow> n = 2 \<and> src' = drop 2 sg) \<and>
           (sg ! 1 \<noteq> GSSAPITypeAbort \<and> 4 \<le> length sg \<and> Uint16 (take 2 (drop 2 sg)) = 0
              \<longrightarrow> e = Some ErrEmptyGSSAPIToken \<and> n = 4 \<and> src' = drop 4 sg) \<and>
           (sg ! 1 \<noteq> GSSAPITypeAbort \<and> 4 \<le> length sg \<and> Uint16 (take 2 (drop 2 sg)) \<noteq> 0
              \<longrightarrow> n = min (length sg) (4 + unat (Uint16 (take 2 (drop 2 sg)))) \<and>
                  src' = drop (4 + unat (Uint16 (take 2 (drop 2 sg)))) sg) \<and>
           (sg ! 1 \<noteq> GSSAPITypeAbort \<and> 4 \<le> length sg \<and> Uint16 (take 2 (drop 2 sg)) \<noteq> 0 \<and>
            sg ! 0 \<noteq> 1 \<and> 4 + unat (Uint16 (take 2 (drop 2 sg))) \<le> length sg
              \<longrightarrow> e = Some ErrInvalidGSSAPIVersion))) \<and>
   (2 \<le> length sr \<longrightarrow>
      (case GSSAPIReply_ReadFrom gr sr of
         (r', n, e, src') \<Rightarrow>
           (sr ! 1 = GSSAPITypeAbort \<longrightarrow> n = 2 \<and> src' = drop 2 sr) \<and>
           (sr ! 1 \<noteq> GSSAPITypeAbort \<and> 4 \<le> length sr \<and> Uint16 (take 2 (drop 2 sr)) = 0
              \<longrightarrow> e = Some ErrEmptyGSSAPIReplyToken \<and> n = 4 \<and> src' = drop 4 sr) \<and>
           (sr ! 1 \<noteq> GSSAPITypeAbort \<and> 4 \<le> length sr \<and> Uint16 (take 2 (drop 2 sr)) \<noteq> 0
              \<longrightarrow> n = min (length sr) (4 + unat (Uint16 (take 2 (drop 2 sr)))) \<and>
                  src' = drop (4 + unat (Uint16 (take 2 (drop 2 sr)))) sr) \<and>
           (sr ! 1 \<noteq> GSSAPITypeAbort \<and> 4 \<le> length sr \<and> Uint16 (take 2 (drop 2 sr)) \<noteq> 0 \<and>
            sr ! 0 \<noteq> 1 \<and> 4 + unat (Uint16 (take 2 (drop 2 sr))) \<le> length sr
              \<longrightarrow> e = Some ErrInvalidGSSAPIReplyVersion)))"
proof (intro conjI impI)
  assume "8 \<le> length s4"
  then show "case Request4_ReadFrom r4 s4 of
         (r', n, e, src') \<Rightarrow>
           ValidateHeader r' \<noteq> None \<longrightarrow> e = ValidateHeader r' \<and> n = 8 \<and> src' = drop 8 s4"
    using Request4_header_first [of s4 r4] by (cases "Request4_ReadFrom r4 s4") auto
next
  assume "4 \<le> length s5"
  then show "case Request5_ReadFrom r5 s5 of
         (r', n, e, src') \<Rightarrow>
           Request5_ValidateHeader r' \<noteq> None
             \<longrightarrow> e = Request5_ValidateHeader r' \<and> n = 4 \<and> src' = drop 4 s5"
    using Request5_header_first [of s5 r5] by (cases "Request5_ReadFrom r5 s5") auto
next
  assume "4 \<le> length sp"
  then show "case Reply5_ReadFrom p5 sp of
         (r', n, e, src') \<Rightarrow>
           Reply5_ValidateHeader r' \<noteq> None
             \<longrightarrow> e = Reply5_ValidateHeader r' \<and> n = 4 \<and> src' = drop 4 sp"
    using Reply5_header_first [of sp p5] by (cases "Reply5_ReadFrom p5 sp") auto
next
  assume "4 \<le> length su"
  then show "case UDPPacket_ReadFrom ud su of
         (r', n, e, src') \<Rightarrow>
           UDPPacket_ValidateHeader r' \<noteq> None
             \<longrightarrow> e = UDPPacket_ValidateHeader r' \<and> n = 4 \<and> src' = drop 4 su"
    using UDPPacket_header_first [of su ud] by (cases "UDPPacket_ReadFrom ud su") auto
next
  assume a: "2 \<le> length sh"
  obtain h' n e src' where r: "HandshakeRequest_ReadFrom hq sh = (h', n, e, src')"
    by (cases "HandshakeRequest_ReadFrom hq sh") auto
  show "case HandshakeRequest_ReadFrom hq sh of
         (h', n, e, src') \<Rightarrow>
           (sh ! 1 = 0 \<longrightarrow> e = Some ErrNoMethodsProvided \<and> n = 2 \<and> src' = drop 2 sh) \<and>
           (sh ! 1 \<noteq> 0 \<longrightarrow>
              n = min (length sh) (2 + unat (sh ! 1)) \<and> src' = drop (2 + unat (sh ! 1)) sh) \<and>
           (sh ! 1 \<noteq> 0 \<and> sh ! 0 \<noteq> SocksVersion5 \<and> 2 + unat (sh ! 1) \<le> length sh
              \<longrightarrow> e = Some ErrInvalidHandshakeVersion)"
    unfolding r prod.case using HandshakeRequest_after_header [OF a r] by blast
next
  assume a: "2 \<le> length sq"
  obtain r' n e src' where r: "UserPassRequest_ReadFrom uq sq = (r', n, e, src')"
    by (cases "UserPassRequest_ReadFrom uq sq") auto
  show "case UserPassRequest_ReadFrom uq sq of
         (r', n, e, src') \<Rightarrow>
           (sq ! 1 = 0 \<longrightarrow> e = Some ErrEmptyUserPassUsername \<and> n = 2 \<and> src' = drop 2 sq) \<and>
           (sq ! 1 \<noteq> 0 \<longrightarrow> min (length sq) (2 + unat (sq ! 1)) \<le> n) \<and>
           (sq ! 1 \<noteq> 0 \<and> sq ! 0 \<noteq> AuthVersionUserPass \<and> sq ! (2 + unat (sq ! 1)) \<noteq> 0 \<and>
            3 + unat (sq ! 1) + unat (sq ! (2 + unat (sq ! 1))) \<le> length sq
              \<longrightarrow> e = Some ErrInvalidUserPassVersion \<and>
                  n = 3 + unat (sq ! 1) + unat (sq ! (2 + unat (sq ! 1))))"
    unfolding r prod.case using UserPassRequest_after_header [OF a r] by blast
next
  assume a: "2 \<le> length sg"
  obtain r' n e src' where r: "GSSAPIRequest_ReadFrom gq sg = (r', n, e, src')"
    by (cases "GSSAPIRequest_ReadFrom gq sg") auto
  show "case GSSAPIRequest_ReadFrom gq sg of
         (r', n, e, src') \<Rightarrow>
           (sg ! 1 = GSSAPITypeAbort \<longrightarrow> n = 2 \<and> src' = drop 2 sg) \<and>
           (sg ! 1 \<noteq> GSSAPITypeAbort \<and> 4 \<le> length sg \<and> Uint16 (take 2 (drop 2 sg)) = 0
              \<longrightarrow> e = Some ErrEmptyGSSAPIToken \<and> n = 4 \<and> src' = drop 4 sg) \<and>
           (sg ! 1 \<noteq> GSSAPITypeAbort \<and> 4 \<le> length sg \<and> Uint16 (take 2 (drop 2 sg)) \<noteq> 0
              \<longrightarrow> n = min (length sg) (4 + unat (Uint16 (take 2 (drop 2 sg)))) \<and>
                  src' = drop (4 + unat (Uint16 (take 2 (drop 2 sg)))) sg) \<and>
           (sg ! 1 \<noteq> GSSAPITypeAbort \<and> 4 \<le> length sg \<and> Uint16 (take 2 (drop 2 sg)) \<noteq> 0 \<and>
            sg ! 0 \<noteq> 1 \<and> 4 + unat (Uint16 (take 2 (drop 2 sg))) \<le> length sg
              \<longrightarrow> e = Some ErrInvalidGSSAPIVersion)"
    unfolding r prod.case using GSSAPIRequest_after_header [OF a r] by blast
next
  assume a: "2 \<le> length sr"
  obtain r' n e src' where r: "GSSAPIReply_ReadFrom gr sr = (r', n, e, src')"
    by (cases "GSSAPIReply_ReadFrom gr sr") auto
  show "case GSSAPIReply_ReadFrom gr sr of
         (r', n, e, src') \<Rightarrow>
           (sr ! 1 = GSSAPITypeAbort \<longrightarrow> n = 2 \<and> src' = drop 2 sr) \<and>
           (sr ! 1 \<noteq> GSSAPITypeAbort \<and> 4 \<le> length sr \<and> Uint16 (take 2 (drop 2 sr)) = 0
              \<longrightarrow> e = Some ErrEmptyGSSAPIReplyToken \<and> n = 4 \<and> src' = drop 4 sr) \<and>
           (sr ! 1 \<noteq> GSSAPITypeAbort \<and> 4 \<le> length sr \<and> Uint16 (take 2 (drop 2 sr)) \<noteq> 0
              \<longrightarrow> n = min (length sr) (4 + unat (Uint16 (take 2 (drop 2 sr)))) \<and>
                  src' = drop (4 + unat (Uint16 (take 2 (drop 2 sr)))) sr) \<and>
           (sr ! 1 \<noteq> GSSAPITypeAbort \<and> 4 \<le> length sr \<and> Uint16 (take 2 (drop 2 sr)) \<noteq> 0 \<and>
            sr ! 0 \<noteq> 1 \<and> 4 + unat (Uint16 (take 2 (drop 2 sr))) \<le> length sr
              \<longrightarrow> e = Some ErrInvalidGSSAPIReplyVersion)"
    unfolding r prod.case using GSSAPIReply_after_header [OF a r] by blast
qed

theorem C2_header_validation_witness:
  "fst (snd (Request4_ReadFrom Request4_zero [5, 1, 0, 80, 1, 2, 3, 4, 97, 0])) = 8 \<and>
   snd (snd (snd (Request4_ReadFrom Request4_zero [5, 1, 0, 80, 1, 2, 3, 4, 97, 0]))) = [97, 0] \<and>
   fst (snd (Request5_ReadFrom Request5_zero [4, 1, 0, 3, 2, 97, 98, 0, 80])) = 4 \<and>
   fst (snd (Reply5_ReadFrom Reply5_zero [5, 0, 1, 3, 2, 97, 98, 0, 80])) = 4 \<and>
   fst (snd (UDPPacket_ReadFrom UDPPacket_zero [0, 0, 1, 3, 2, 97, 98, 0, 80, 7])) = 4 \<and>
   snd (HandshakeRequest_ReadFrom HandshakeRequest_zero [5, 0, 9])
     = (2, Some ErrNoMethodsProvided, [9]) \<and>
   snd (HandshakeRequest_ReadFrom HandshakeRequest_zero [4, 2, 0, 2])
     = (4, Some ErrInvalidHandshakeVersion, []) \<and>
   snd (UserPassRequest_ReadFrom UserPassRequest_zero [1, 0, 9])
     = (2, Some ErrEmptyUserPassUsername, [9]) \<and>
   fst (snd (UserPassRequest_ReadFrom UserPassRequest_zero [2, 1, 97, 1, 98])) = 5 \<and>
   fst (snd (snd (UserPassRequest_ReadFrom UserPassRequest_zero [2, 1, 97, 1, 98])))
     = Some ErrInvalidUserPassVersion \<and>
   snd (GSSAPIRequest_ReadFrom GSSAPI_zero [2, 1, 0, 0, 9]) = (4, Some ErrEmptyGSSAPIToken, [9]) \<and>
   snd (GSSAPIRequest_ReadFrom GSSAPI_zero [2, 1, 0, 2, 7, 8]) = (6, Some ErrInvalidGSSAPIVersion, []) \<and>
   fst (snd (GSSAPIRequest_ReadFrom GSSAPI_zero [2, 255, 9])) = 2 \<and>
   snd (snd (snd (GSSAPIRequest_ReadFrom GSSAPI_zero [2, 255, 9]))) = [9] \<and>
   snd (GSSAPIReply_ReadFrom GSSAPI_zero [2, 1, 0, 0, 9]) = (4, Some ErrEmptyGSSAPIReplyToken, [9]) \<and>
   snd (GSSAPIReply_ReadFrom GSSAPI_zero [2, 1, 0, 2, 7, 8]) = (6, Some ErrInvalidGSSAPIReplyVersion, []) \<and>
   fst (snd (GSSAPIReply_ReadFrom GSSAPI_zero [2, 255, 9])) = 2 \<and>
   snd (snd (snd (GSSAPIReply_ReadFrom GSSAPI_zero [2, 255, 9]))) = [9]"
proof -
  have h: "ValidateHeader (fst (Request4_ReadFrom Request4_zero [5, 1, 0, 80, 1, 2, 3, 4, 97, 0])) \<noteq> None"
    "Request5_ValidateHeader (fst (Request5_ReadFrom Request5_zero [4, 1, 0, 3, 2, 97, 98, 0, 80])) \<noteq> None"
    "Reply5_ValidateHeader (fst (Reply5_ReadFrom Reply5_zero [5, 0, 1, 3, 2, 97, 98, 0, 80])) \<noteq> None"
    "UDPPacket_ValidateHeader (fst (UDPPacket_ReadFrom UDPPacket_zero [0, 0, 1, 3, 2, 97, 98, 0, 80, 7])) \<noteq> None"
    by code_simp+
  have g: "(4 :: byte) \<noteq> SocksVersion5" "(2 :: byte) \<noteq> AuthVersionUserPass"
    by (simp_all add: SocksVersion5_def AuthVersionUserPass_def)
  note c = C2_header_validation [where ?s4.0 = "[5, 1, 0, 80, 1, 2, 3, 4, 97, 0]" and ?r4.0 = Request4_zero
      and ?s5.0 = "[4, 1, 0, 3, 2, 97, 98, 0, 80]" and ?r5.0 = Request5_zero
      and sp = "[5, 0, 1, 3, 2, 97, 98, 0, 80]" and ?p5.0 = Reply5_zero
      and su = "[0, 0, 1, 3, 2, 97, 98, 0, 80, 7]" and ud = UDPPacket_zero]
  have a: "fst (snd (Request4_ReadFrom Request4_zero [5, 1, 0, 80, 1, 2, 3, 4, 97, 0])) = 8 \<and>
   snd (snd (snd (Request4_ReadFrom Request4_zero [5, 1, 0, 80, 1, 2, 3, 4, 97, 0]))) = [97, 0] \<and>
   fst (snd (Request5_ReadFrom Request5_zero [4, 1, 0, 3, 2, 97, 98, 0, 80])) = 4 \<and>
   fst (snd (Reply5_ReadFrom Reply5_zero [5, 0, 1, 3, 2, 97, 98, 0, 80])) = 4 \<and>
   fst (snd (UDPPacket_ReadFrom UDPPacket_zero [0, 0, 1, 3, 2, 97, 98, 0, 80, 7])) = 4"
    using c [where sh = "[]" and sq = "[]" and sg = "[]" and sr = "[]"] h by (auto split: prod.splits)
  have b: "snd (HandshakeRequest_ReadFrom HandshakeRequest_zero [5, 0, 9])
     = (2, Some ErrNoMethodsProvided, [9])"
    using C2_header_validation [where sh = "[5, 0, 9]" and hq = HandshakeRequest_zero
        and ?s4.0 = "[]" and ?s5.0 = "[]" and sp = "[]" and su = "[]" and sq = "[]" and sg = "[]" and sr = "[]"]
    by (auto split: prod.splits)
  have b2: "snd (HandshakeRequest_ReadFrom HandshakeRequest_zero [4, 2, 0, 2])
     = (4, Some ErrInvalidHandshakeVersion, [])"
    using C2_header_validation [where sh = "[4, 2, 0, 2]" and hq = HandshakeRequest_zero
        and ?s4.0 = "[]" and ?s5.0 = "[]" and sp = "[]" and su = "[]" and sq = "[]" and sg = "[]" and sr = "[]"] g
    by (auto split: prod.splits)
  have d: "snd (UserPassRequest_ReadFrom UserPassRequest_zero [1, 0, 9])
     = (2, Some ErrEmptyUserPassUsername, [9])"
    using C2_header_validation [where sq = "[1, 0, 9]" and uq = UserPassRequest_zero
        and ?s4.0 = "[]" and ?s5.0 = "[]" and sp = "[]" and su = "[]" and sh = "[]" and sg = "[]" and sr = "[]"]
    by (auto split: prod.splits)
  have d2: "fst (snd (UserPassRequest_ReadFrom UserPassRequest_zero [2, 1, 97, 1, 98])) = 5 \<and>
   fst (snd (snd (UserPassRequest_ReadFrom UserPassRequest_zero [2, 1, 97, 1, 98])))
     = Some ErrInvalidUserPassVersion"
    using C2_header_validation [where sq = "[2, 1, 97, 1, 98]" and uq = UserPassRequest_zero
        and ?s4.0 = "[]" and ?s5.0 = "[]" and sp = "[]" and su = "[]" and sh = "[]" and sg = "[]" and sr = "[]"] g
    by (auto split: prod.splits)
  have u: "Uint16 [0, 0] = 0" "Uint16 [0, 2] = 2" "(1 :: byte) \<noteq> GSSAPITypeAbort"
    "(255 :: byte) = GSSAPITypeAbort"
    by (simp_all add: Uint16_def GSSAPITypeAbort_def)
  have q1: "snd (GSSAPIRequest_ReadFrom GSSAPI_zero [2, 1, 0, 0, 9]) = (4, Some ErrEmptyGSSAPIToken, [9])"
    using C2_header_validation [where sg = "[2, 1, 0, 0, 9]" and gq = GSSAPI_zero
        and ?s4.0 = "[]" and ?s5.0 = "[]" and sp = "[]" and su = "[]" and sh = "[]" and sq = "[]"
        and sr = "[]"] u
    by (auto split: prod.splits)
  have q2: "snd (GSSAPIRequest_ReadFrom GSSAPI_zero [2, 1, 0, 2, 7, 8]) = (6, Some ErrInvalidGSSAPIVersion, [])"
    using C2_header_validation [where sg = "[2, 1, 0, 2, 7, 8]" and gq = GSSAPI_zero
        and ?s4.0 = "[]" and ?s5.0 = "[]" and sp = "[]" and su = "[]" and sh = "[]" and sq = "[]"
        and sr = "[]"] u
    by (auto split: prod.splits)
  have q3: "fst (snd (GSSAPIRequest_ReadFrom GSSAPI_zero [2, 255, 9])) = 2 \<and>
   snd (snd (snd (GSSAPIRequest_ReadFrom GSSAPI_zero [2, 255, 9]))) = [9]"
    using C2_header_validation [where sg = "[2, 255, 9]" and gq = GSSAPI_zero
        and ?s4.0 = "[]" and ?s5.0 = "[]" and sp = "[]" and su = "[]" and sh = "[]" and sq = "[]"
        and sr = "[]"] u
    by (auto split: prod.splits)
  have p1: "snd (GSSAPIReply_ReadFrom GSSAPI_zero [2, 1, 0, 0, 9]) = (4, Some ErrEmptyGSSAPIReplyToken, [9])"
    using C2_header_validation [where sr = "[2, 1, 0, 0, 9]" and gr = GSSAPI_zero
        and ?s4.0 = "[]" and ?s5.0 = "[]" and sp = "[]" and su = "[]" and sh = "[]" and sq = "[]"
        and sg = "[]"] u
    by (auto split: prod.splits)
  have p2: "snd (GSSAPIReply_ReadFrom GSSAPI_zero [2, 1, 0, 2, 7, 8]) = (6, Some ErrInvalidGSSAPIReplyVersion, [])"
    using C2_header_validation [where sr = "[2, 1, 0, 2, 7, 8]" and gr = GSSAPI_zero
        and ?s4.0 = "[]" and ?s5.0 = "[]" and sp = "[]" and su = "[]" and sh = "[]" and sq = "[]"
        and sg = "[]"] u
    by (auto split: prod.splits)
  have p3: "fst (snd (GSSAPIReply_ReadFrom GSSAPI_zero [2, 255, 9])) = 2 \<and>
   snd (snd (snd (GSSAPIReply_ReadFrom GSSAPI_zero [2, 255, 9]))) = [9]"
    using C2_header_validation [where sr = "[2, 255, 9]" and gr = GSSAPI_zero
        and ?s4.0 = "[]" and ?s5.0 = "[]" and sp = "[]" and su = "[]" and sh = "[]" and sq = "[]"
        and sg = "[]"] u
    by (auto split: prod.splits)
  show ?thesis using a b b2 d d2 q1 q2 q3 p1 p2 p3 by (intro conjI) simp_all
qed

text \<open>
  C2 as stated fails: with a wrong version byte, \<open>HandshakeRequest.ReadFrom\<close>,
  \<open>UserPassRequest.ReadFrom\<close>, \<open>GSSAPIRequest.ReadFrom\<close> and
  \<open>GSSAPIReply.ReadFrom\<close> read the methods, the user name and the password, or the
  token, before they report the version; on a buffer that holds the corrupted header
  only, they try to read the trailing field and fail with \<open>io.EOF\<close>.
\<close>

theorem C2_header_validation_counterexample:
  "HandshakeRequest_ReadFrom HandshakeRequest_zero [4, 2, 0, 2]
     = (\<lparr>HVersion = 4, NMethods = 2, Methods = [0, 2]\<rparr>, 4, Some ErrInvalidHandshakeVersion, []) \<and>
   HandshakeRequest_ReadFrom HandshakeRequest_zero [4, 2]
     = (\<lparr>HVersion = 4, NMethods = 2, Methods = []\<rparr>, 2, Some EOF, []) \<and>
   UserPassRequest_ReadFrom UserPassRequest_zero [2, 1, 97, 1, 98]
     = (\<lparr>UPVersion = 2, Username = [97], Password = [98]\<rparr>, 5,
        Some ErrInvalidUserPassVersion, []) \<and>
   UserPassRequest_ReadFrom UserPassRequest_zero [2, 1]
     = (\<lparr>UPVersion = 2, Username = [], Password = []\<rparr>, 2, Some EOF, []) \<and>
   GSSAPIRequest_ReadFrom GSSAPI_zero [2, 1, 0, 2, 7, 8]
     = (\<lparr>GVersion = 2, MsgType = 1, Token = [7, 8]\<rparr>, 6, Some ErrInvalidGSSAPIVersion, []) \<and>
   GSSAPIRequest_ReadFrom GSSAPI_zero [2, 1, 0, 2]
     = (\<lparr>GVersion = 2, MsgType = 1, Token = []\<rparr>, 4, Some EOF, []) \<and>
   GSSAPIReply_ReadFrom GSSAPI_zero [2, 1, 0, 2, 7, 8]
     = (\<lparr>GVersion = 2, MsgType = 1, Token = [7, 8]\<rparr>, 6, Some ErrInvalidGSSAPIReplyVersion, []) \<and>
   GSSAPIReply_ReadFrom GSSAPI_zero [2, 1, 0, 2]
     = (\<lparr>GVersion = 2, MsgType = 1, Token = []\<rparr>, 4, Some EOF, [])"
  by code_simp

text \<open>
  A GSSAPI abort message is returned by \<open>ReadFrom\<close> right after its two bytes without
  a call of \<open>Validate\<close>, so its version byte is never checked on input, although
  \<open>Validate\<close> and with it \<open>WriteTo\<close> refuse the same message.
\<close>

lemma GSSAPI_abort_not_validated:
  "GSSAPIRequest_ReadFrom GSSAPI_zero [2, 255, 9]
     = (\<lparr>GVersion = 2, MsgType = 255, Token = []\<rparr>, 2, None, [9])"
  "GSSAPIRequest_Validate \<lparr>GVersion = 2, MsgType = 255, Token = []\<rparr> = Some ErrInvalidGSSAPIVersion"
  "GSSAPIReply_ReadFrom GSSAPI_zero [2, 255, 9]
     = (\<lparr>GVersion = 2, MsgType = 255, Token = []\<rparr>, 2, None, [9])"
  "GSSAPIReply_Validate \<lparr>GVersion = 2, MsgType = 255, Token = []\<rparr> = Some ErrInvalidGSSAPIReplyVersion"
  by code_simp+

section \<open>Results about the dialer\<close>

definition proxy_dial :: "netpkg \<Rightarrow> Dialer \<Rightarrow> byte list \<Rightarrow> error + conn" where
  "proxy_dial env d network =
     (case DialFunc d of None \<Rightarrow> DefaultDialer env | Some f \<Rightarrow> f) network (ProxyAddr d)"

text \<open>
  The replies that pass \<open>Response.Validate\<close> without being granted: version byte 0 and
  one of the three codes 91, 92, 93.
\<close>

definition rejected_reply :: "reader \<Rightarrow> byte \<Rightarrow> bool" where
  "rejected_reply src code \<longleftrightarrow>
     8 \<le> length src \<and> src ! 0 = 0 \<and> src ! 1 = code \<and>
     (code = RepRejected \<or> code = RepIdentFailed \<or> code = RepUserIDMismatch)"

definition request_sent :: "netpkg \<Rightarrow> Dialer \<Rightarrow> byte \<Rightarrow> byte list \<Rightarrow> conn \<Rightarrow> bool" where
  "request_sent env d command address c \<longleftrightarrow>
     (case SplitHostPort env address of
        Inl e \<Rightarrow> False
      | Inr (host, portStr) \<Rightarrow>
          (case parsePort env portStr of
             Inl e \<Rightarrow> False
           | Inr port \<Rightarrow>
               fst (snd (Request4_WriteTo (buildRequest env command port (UserID d) host) (c_out c)))
                 = None))"

lemma Response4_ReadFrom_ok:
  assumes "Response4_ReadFrom Response4_zero src = (resp, m, None, src')"
  shows "8 \<le> length src \<and> RVersion4 resp = src ! 0 \<and> Code4 resp = src ! 1 \<and> src' = drop 8 src
         \<and> Response4_Validate resp = None"
  using assms
  by (auto simp: Response4_ReadFrom_def ReadFull_def Let_def split: if_splits)

lemma Response4_ReadFrom_long:
  assumes "8 \<le> length src"
  shows "Response4_ReadFrom Response4_zero src =
     (let r = Response4_zero\<lparr>RVersion4 := src ! 0, Code4 := src ! 1,
                 RPort4 := Uint16 (take 2 (drop 2 src)),
                 RIP4 := copy4 (RIP4 Response4_zero) (take 4 (drop 4 src))\<rparr>
      in (r, 8, Response4_Validate r, drop 8 src))"
  using assms
  by (simp add: Response4_ReadFrom_def ReadFull_enough Let_def min_def take_drop ac_simps)

lemma rejected_iff:
  "(\<exists>resp m src'. Response4_ReadFrom Response4_zero src = (resp, m, None, src')
        \<and> \<not> IsGranted resp \<and> Code4 resp = code)
   \<longleftrightarrow> rejected_reply src code"
proof (cases "8 \<le> length src")
  case True
  show ?thesis
    unfolding Response4_ReadFrom_long [OF True] rejected_reply_def
    using True
    by (auto simp: Let_def Response4_Validate_def IsGranted_def RepGranted_def RepRejected_def
        RepIdentFailed_def RepUserIDMismatch_def split: if_splits)
next
  case False
  then show ?thesis
    using Response4_ReadFrom_ok [of src] by (auto simp: rejected_reply_def)
qed

lemma DialContext_failure:
  assumes "proxy_dial env d network = Inr c"
    and "DialContext env d network address = (ret, Some e, proxy)"
  shows "ret = None \<and> (\<exists>c'. proxy = Some c' \<and> c_closed c')"
  using assms
  by (auto simp: DialContext_def proxy_dial_def Close_def Let_def
      split: sum.splits prod.splits option.splits if_splits)

lemma BindContext_failure:
  assumes "proxy_dial env d network = Inr c"
    and "BindContext env d network address = (ret, addr, Some e, proxy)"
  shows "ret = None \<and> addr = None \<and> (\<exists>c'. proxy = Some c' \<and> c_closed c')"
  using assms
  by (auto simp: BindContext_def proxy_dial_def Close_def Let_def
      split: sum.splits prod.splits option.splits if_splits)

lemma DialContext_success:
  assumes "proxy_dial env d network = Inr c"
    and "DialContext env d network address = (ret, None, proxy)"
  shows "ret = proxy \<and> (\<exists>c'. proxy = Some c' \<and> c_closed c' = c_closed c \<and> c_in c' = drop 8 (c_in c))"
  using assms
  by (auto simp: DialContext_def proxy_dial_def Close_def Let_def
      dest!: Response4_ReadFrom_ok
      split: sum.splits prod.splits option.splits if_splits)

lemma BindContext_success:
  assumes "proxy_dial env d network = Inr c"
    and "BindContext env d network address = (ret, addr, None, proxy)"
  shows "ret = proxy \<and> addr \<noteq> None \<and>
     (\<exists>c'. proxy = Some c' \<and> c_closed c' = c_closed c \<and> c_in c' = drop 8 (c_in c))"
  using assms
  by (auto simp: BindContext_def proxy_dial_def Close_def Let_def
      dest!: Response4_ReadFrom_ok
      split: sum.splits prod.splits option.splits if_splits)

lemma DialContext_rejected:
  assumes "proxy_dial env d network = Inr c"
  shows "fst (snd (DialContext env d network address)) = Some (ProxyRejectedRequest code)
     \<longleftrightarrow> request_sent env d CmdConnect address c \<and> rejected_reply (c_in c) code"
  unfolding rejected_iff [symmetric]
  using assms
  by (auto simp: DialContext_def proxy_dial_def request_sent_def Let_def
      split: sum.splits prod.splits option.splits if_splits)

lemma BindContext_rejected:
  assumes "proxy_dial env d network = Inr c"
  shows "fst (snd (snd (BindContext env d network address))) = Some (ProxyRejectedBindSetup code)
     \<longleftrightarrow> request_sent env d CmdBind address c \<and> rejected_reply (c_in c) code"
  unfolding rejected_iff [symmetric]
  using assms
  by (auto simp: BindContext_def proxy_dial_def request_sent_def Let_def
      split: sum.splits prod.splits option.splits if_splits)


definition granted_reply :: "reader \<Rightarrow> bool" where
  "granted_reply src \<longleftrightarrow> 8 \<le> length src \<and> src ! 0 = 0 \<and> src ! 1 = RepGranted"

lemma granted_iff:
  "(\<exists>resp m src'. Response4_ReadFrom Response4_zero src = (resp, m, None, src') \<and> IsGranted resp)
   \<longleftrightarrow> granted_reply src"
proof (cases "8 \<le> length src")
  case True
  show ?thesis
    unfolding Response4_ReadFrom_long [OF True] granted_reply_def
    using True
    by (auto simp: Let_def Response4_Validate_def IsGranted_def RepGranted_def RepRejected_def
        RepIdentFailed_def RepUserIDMismatch_def split: if_splits)
next
  case False
  then show ?thesis
    using Response4_ReadFrom_ok [of src] by (auto simp: granted_reply_def)
qed

lemma DialContext_granted:
  assumes "proxy_dial env d network = Inr c"
  shows "fst (snd (DialContext env d network address)) = None
     \<longleftrightarrow> request_sent env d CmdConnect address c \<and> granted_reply (c_in c)"
  unfolding granted_iff [symmetric]
  using assms
  by (auto simp: DialContext_def proxy_dial_def request_sent_def Let_def
      split: sum.splits prod.splits option.splits if_splits)

lemma BindContext_granted:
  assumes "proxy_dial env d network = Inr c"
  shows "fst (snd (snd (BindContext env d network address))) = None
     \<longleftrightarrow> request_sent env d CmdBind address c \<and> granted_reply (c_in c)"
  unfolding granted_iff [symmetric]
  using assms
  by (auto simp: BindContext_def proxy_dial_def request_sent_def Let_def
      split: sum.splits prod.splits option.splits if_splits)

text \<open>
  C5. Let the dial function have returned the proxy connection \<open>c\<close>. Whenever
  \<open>DialContext\<close> or \<open>BindContext\<close> returns an error, it returns no connection (and no
  bind address) and leaves the proxy connection closed. The call succeeds exactly when the
  address was parsed, the request was written without error and the reply is a granted
  one. It returns the rejection error with code \<open>code\<close> exactly when the request was
  sent and the reply on the connection is a valid reply whose code byte is \<open>code\<close>, one
  of 91, 92, 93: the error carries the code byte received.
\<close>

theorem C5_failure_closes_proxy_connection:
  assumes "proxy_dial env d network = Inr c"
  shows "(case DialContext env d network address of (ret, err, proxy) \<Rightarrow>
            (err \<noteq> None \<longrightarrow> ret = None \<and> (\<exists>c'. proxy = Some c' \<and> c_closed c')) \<and>
            (err = None \<longleftrightarrow> request_sent env d CmdConnect address c \<and> granted_reply (c_in c)) \<and>
            (\<forall>code. err = Some (ProxyRejectedRequest code) \<longleftrightarrow>
               request_sent env d CmdConnect address c \<and> rejected_reply (c_in c) code)) \<and>
         (case BindContext env d network address of (ret, addr, err, proxy) \<Rightarrow>
            (err \<noteq> None \<longrightarrow> ret = None \<and> addr = None \<and> (\<exists>c'. proxy = Some c' \<and> c_closed c')) \<and>
            (err = None \<longleftrightarrow> request_sent env d CmdBind address c \<and> granted_reply (c_in c)) \<and>
            (\<forall>code. err = Some (ProxyRejectedBindSetup code) \<longleftrightarrow>
               request_sent env d CmdBind address c \<and> rejected_reply (c_in c) code))"
proof -
  obtain ret err proxy where D: "DialContext env d network address = (ret, err, proxy)"
    by (cases "DialContext env d network address") auto
  obtain bret baddr berr bproxy where B: "BindContext env d network address = (bret, baddr, berr, bproxy)"
    by (cases "BindContext env d network address") auto
  have d1: "err \<noteq> None \<longrightarrow> ret = None \<and> (\<exists>c'. proxy = Some c' \<and> c_closed c')"
    using DialContext_failure [OF assms] D by auto
  have d2: "err = None \<longleftrightarrow> request_sent env d CmdConnect address c \<and> granted_reply (c_in c)"
    using DialContext_granted [OF assms, of address] D by simp
  have d3: "\<forall>code. err = Some (ProxyRejectedRequest code) \<longleftrightarrow>
               request_sent env d CmdConnect address c \<and> rejected_reply (c_in c) code"
    using DialContext_rejected [OF assms, of address] D by simp
  have b1: "berr \<noteq> None \<longrightarrow> bret = None \<and> baddr = None \<and> (\<exists>c'. bproxy = Some c' \<and> c_closed c')"
    using BindContext_failure [OF assms] B by auto
  have b2: "berr = None \<longleftrightarrow> request_sent env d CmdBind address c \<and> granted_reply (c_in c)"
    using BindContext_granted [OF assms, of address] B by simp
  have b3: "\<forall>code. berr = Some (ProxyRejectedBindSetup code) \<longleftrightarrow>
               request_sent env d CmdBind address c \<and> rejected_reply (c_in c) code"
    using BindContext_rejected [OF assms, of address] B by simp
  show ?thesis
    unfolding D B prod.case using d1 d2 d3 b1 b2 b3 by blast
qed

text \<open>
  An environment for examples: the dial function returns the connection \<open>c\<close>, the target
  address is \<open>example.com:80\<close>, which is no IP literal.
\<close>

definition env_example :: "conn \<Rightarrow> netpkg" where
  "env_example c =
     \<lparr>DefaultDialer = (\<lambda>network addr. Inr c),
      SplitHostPort = (\<lambda>a. Inr (ascii ''example.com'', ascii ''80'')),
      LookupPort = (\<lambda>p. Inr 80),
      ParseIP = (\<lambda>h. None)\<rparr>"

definition dialer_example :: Dialer where
  "dialer_example = \<lparr>ProxyAddr = ascii ''127.0.0.1:1080'', UserID = ascii ''u'', DialFunc = None\<rparr>"

definition conn_example :: "byte list \<Rightarrow> conn" where
  "conn_example bs = \<lparr>c_in = bs, c_out = buffer, c_closed = False\<rparr>"


lemma request_sent_ok:
  assumes "never_fails (c_out c)" "SplitHostPort env address = Inr (host, portStr)"
    "LookupPort env portStr = Inr n"
  shows "request_sent env d command address c"
proof -
  obtain k where "Request4_WriteTo (buildRequest env command (of_int n) (UserID d) host) (c_out c)
      = (length (Request4_bytes (buildRequest env command (of_int n) (UserID d) host)), None,
         (c_out c)\<lparr>w_out := w_out (c_out c)
            @ Request4_bytes (buildRequest env command (of_int n) (UserID d) host), w_calls := k\<rparr>)"
    using Request4_WriteTo_ok [OF assms(1)] by blast
  then show ?thesis
    using assms(2,3) by (simp add: request_sent_def parsePort_def)
qed

theorem C5_failure_closes_proxy_connection_witness:
  "proxy_dial (env_example (conn_example [0, 91, 0, 80, 1, 2, 3, 4])) dialer_example []
     = Inr (conn_example [0, 91, 0, 80, 1, 2, 3, 4]) \<and>
   (case DialContext (env_example (conn_example [0, 91, 0, 80, 1, 2, 3, 4])) dialer_example []
           (ascii ''example.com:80'') of
      (ret, err, proxy) \<Rightarrow>
        err = Some (ProxyRejectedRequest 91) \<and> ret = None \<and> (\<exists>c'. proxy = Some c' \<and> c_closed c')) \<and>
   (case BindContext (env_example (conn_example [0, 93, 0, 80, 1, 2, 3, 4])) dialer_example []
           (ascii ''example.com:80'') of
      (ret, addr, err, proxy) \<Rightarrow>
        err = Some (ProxyRejectedBindSetup 93) \<and> ret = None \<and> addr = None \<and>
        (\<exists>c'. proxy = Some c' \<and> c_closed c'))"
proof -
  let ?c = "conn_example [0, 91, 0, 80, 1, 2, 3, 4]"
  let ?c' = "conn_example [0, 93, 0, 80, 1, 2, 3, 4]"
  have p: "proxy_dial (env_example ?c) dialer_example [] = Inr ?c"
    "proxy_dial (env_example ?c') dialer_example [] = Inr ?c'"
    by (simp_all add: proxy_dial_def env_example_def dialer_example_def)
  have s: "request_sent (env_example ?c) dialer_example CmdConnect (ascii ''example.com:80'') ?c"
    "request_sent (env_example ?c') dialer_example CmdBind (ascii ''example.com:80'') ?c'"
    by (rule request_sent_ok [where host = "ascii ''example.com''" and portStr = "ascii ''80''" and n = 80];
        simp add: env_example_def conn_example_def)+
  have r: "rejected_reply (c_in ?c) 91" "rejected_reply (c_in ?c') 93"
    by (simp_all add: rejected_reply_def conn_example_def RepRejected_def RepUserIDMismatch_def)
  show ?thesis
    using C5_failure_closes_proxy_connection [OF p(1), of "ascii ''example.com:80''"]
      C5_failure_closes_proxy_connection [OF p(2), of "ascii ''example.com:80''"] p s r
    by (auto split: prod.splits)
qed

text \<open>The other failure paths, evaluated: a malformed address, a failing write, no reply.\<close>

lemma DialContext_failure_examples:
  "(case DialContext ((env_example (conn_example []))\<lparr>SplitHostPort := (\<lambda>a. Inl (ErrTransport 0))\<rparr>)
           dialer_example [] (ascii ''example.com'') of
      (ret, err, proxy) \<Rightarrow> (map_option c_closed ret, err, map_option c_closed proxy))
     = (None, Some (InvalidTargetAddress (ErrTransport 0)), Some True)"
  "(case DialContext (env_example ((conn_example [])\<lparr>c_out := buffer\<lparr>w_faults := (\<lambda>i. Some (3, ErrTransport 1))\<rparr>\<rparr>))
           dialer_example [] (ascii ''example.com:80'') of
      (ret, err, proxy) \<Rightarrow> (map_option c_closed ret, err, map_option c_closed proxy, map_option (w_out \<circ> c_out) proxy))
     = (None, Some (SendRequest (ErrTransport 1)), Some True, Some [4, 1, 0])"
  "(case DialContext (env_example (conn_example [0, 90, 0])) dialer_example [] (ascii ''example.com:80'') of
      (ret, err, proxy) \<Rightarrow> (map_option c_closed ret, err, map_option c_closed proxy))
     = (None, Some (ReadResponse ErrUnexpectedEOF), Some True)"
  by code_simp+

subsection \<open>The request that the dialer builds\<close>

lemma buildRequest_cases:
  "ParseIP env host = None \<Longrightarrow>
     buildRequest env command port userID host
       = \<lparr>Version4 = SocksVersion, Command4 = command, Port4 = port, IP4 = (0, 0, 0, 1),
          UserID4 = userID, Domain4 = host\<rparr>"
  "ParseIP env host \<noteq> None \<Longrightarrow> To4 (ParseIP env host) = None \<Longrightarrow>
     buildRequest env command port userID host
       = \<lparr>Version4 = SocksVersion, Command4 = command, Port4 = port, IP4 = (0, 0, 0, 0),
          UserID4 = userID, Domain4 = []\<rparr>"
  "To4 (ParseIP env host) = Some [a, b, c, d] \<Longrightarrow>
     buildRequest env command port userID host
       = \<lparr>Version4 = SocksVersion, Command4 = command, Port4 = port, IP4 = (a, b, c, d),
          UserID4 = userID, Domain4 = []\<rparr>"
    by (auto simp: buildRequest_def Request4_Init_def Request4_zero_def copy4_def bytes4_def
        slice_def To4_def Let_def split: if_splits option.splits)

text \<open>
  C8, the code at the target \<open>[::1]:80\<close>. \<open>net.SplitHostPort\<close> gives the host
  \<open>::1\<close>, an IPv6 literal, so \<open>net.ParseIP\<close> returns the 16-byte address and not
  \<open>nil\<close>. The SOCKS4a fallback is skipped, \<open>To4\<close> of the address is \<open>nil\<close> and
  \<open>Init\<close> copies nothing: the request keeps the IP 0.0.0.0 and an empty domain. It is
  not in SOCKS4a form, the package's own header validation refuses it, and \<open>DialContext\<close>
  sends it as it is.
\<close>

definition env_ipv6 :: netpkg where
  "env_ipv6 =
     \<lparr>DefaultDialer = (\<lambda>network addr. Inr (conn_example [])),
      SplitHostPort = (\<lambda>a. Inr (ascii ''::1'', ascii ''80'')),
      LookupPort = (\<lambda>p. Inr 80),
      ParseIP = (\<lambda>h. Some (replicate 15 0 @ [1]))\<rparr>"

theorem C8_ipv6_literal_not_socks4a:
  "buildRequest env_ipv6 CmdConnect 80 (ascii ''u'') (ascii ''::1'')
     = \<lparr>Version4 = 4, Command4 = 1, Port4 = 80, IP4 = (0, 0, 0, 0),
        UserID4 = ascii ''u'', Domain4 = []\<rparr> \<and>
   \<not> IsSOCKS4a (buildRequest env_ipv6 CmdConnect 80 (ascii ''u'') (ascii ''::1'')) \<and>
   ValidateHeader (buildRequest env_ipv6 CmdConnect 80 (ascii ''u'') (ascii ''::1''))
     = Some ErrInvalidIP \<and>
   (case DialContext env_ipv6 dialer_example [] (ascii ''[::1]:80'') of
      (ret, err, proxy) \<Rightarrow> (map_option c_closed ret, err, map_option (w_out \<circ> c_out) proxy))
     = (None, Some (ReadResponse EOF), Some [4, 1, 0, 80, 0, 0, 0, 0, 117, 0])"
  by code_simp

subsection \<open>The values sent on the readiness channel\<close>

lemma readySends_last: "last (readySends resp2 err) = None"
  by (simp add: readySends_def)

lemma bindReady_one_value: "length (bindReady src) = 1 \<longleftrightarrow> granted_reply src"
proof -
  obtain resp m e src' where R: "Response4_ReadFrom Response4_zero src = (resp, m, e, src')"
    by (cases "Response4_ReadFrom Response4_zero src") auto
  have "length (bindReady src) = 1 \<longleftrightarrow> e = None \<and> IsGranted resp"
    by (auto simp: bindReady_def readySends_def R split: option.splits)
  then show ?thesis
    using granted_iff [of src] R by auto
qed

text \<open>
  C6, the code at three second replies. For a valid reply with code 91 the goroutine
  sends the rejection error and then \<open>nil\<close>. When the read fails (here: the proxy closes
  without a reply) it sends the read error, then a rejection error with the code 0 of the
  untouched \<open>resp2\<close>, then \<open>nil\<close>. Only for a granted reply it sends one value. In
  general the number of values is one exactly for a valid granted reply, and the last
  value sent is always \<open>nil\<close>.
\<close>

theorem C6_values_sent_on_readyCh:
  "bindReady [0, 91, 0, 80, 1, 2, 3, 4] = [Some (ProxyRejectedBindFinalization 91), None] \<and>
   bindReady [] = [Some (ReadSecondBindResponse EOF), Some (ProxyRejectedBindFinalization 0), None] \<and>
   bindReady [0, 90, 0, 80, 1, 2, 3, 4] = [None] \<and>
   (length (bindReady src) = 1 \<longleftrightarrow> granted_reply src) \<and>
   last (bindReady src) = None"
proof -
  have "bindReady [0, 91, 0, 80, 1, 2, 3, 4] = [Some (ProxyRejectedBindFinalization 91), None]"
    "bindReady [] = [Some (ReadSecondBindResponse EOF), Some (ProxyRejectedBindFinalization 0), None]"
    "bindReady [0, 90, 0, 80, 1, 2, 3, 4] = [None]"
    by code_simp+
  moreover have "last (bindReady src) = None"
    by (simp add: bindReady_def readySends_last split: prod.splits)
  ultimately show ?thesis
    using bindReady_one_value [of src] by simp
qed

section \<open>Results about the listener\<close>

definition opts_default :: ListenerOptions where
  "opts_default = \<lparr>OnAccept = None, OnRequest = None, OnConnect = None, OnBind = None\<rparr>"

lemma Request4_ReadFrom_invalid_command:
  assumes "8 \<le> length src" "src ! 0 = SocksVersion" "src ! 1 \<noteq> CmdConnect" "src ! 1 \<noteq> CmdBind"
  shows "snd (Request4_ReadFrom Request4_zero src) = (8, Some ErrInvalidCommand, drop 8 src)"
proof -
  obtain r' n e src' where R: "Request4_ReadFrom Request4_zero src = (r', n, e, src')"
    by (cases "Request4_ReadFrom Request4_zero src") auto
  let ?r1 = "Request4_zero\<lparr>Version4 := take 8 src ! 0, Command4 := take 8 src ! 1,
      Port4 := Uint16 (take 2 (drop 2 (take 8 src))),
      IP4 := copy4 (IP4 Request4_zero) (take 4 (drop 4 (take 8 src)))\<rparr>"
  have h: "ReadHeaderFrom Request4_zero src = (?r1, 8, ValidateHeader ?r1, drop 8 src)"
    using assms(1) by (simp add: ReadHeaderFrom_def ReadFull_enough Let_def)
  have v: "ValidateHeader ?r1 = Some ErrInvalidCommand"
    using assms by (simp add: ValidateHeader_def)
  show ?thesis
    using h v by (simp add: Request4_ReadFrom_def ReadFromWithLimits_def)
qed

lemma handleConn_invalid_command:
  assumes "OnAccept opts = None"
    "8 \<le> length (c_in c)" "c_in c ! 0 = SocksVersion" "c_in c ! 1 \<noteq> CmdConnect" "c_in c ! 1 \<noteq> CmdBind"
  shows "handleConn connectDefault opts c
     = ([ErrInvalidCommand], c\<lparr>c_in := drop 8 (c_in c), c_closed := True\<rparr>)"
  using Request4_ReadFrom_invalid_command [OF assms(2-5)] assms(1)
  by (cases "Request4_ReadFrom Request4_zero (c_in c)")
     (simp add: handleConn_def OnAcceptDefault_def Close_def)

lemma OnRequestDefault_unknown:
  assumes "Command4 req \<noteq> CmdConnect" "Command4 req \<noteq> CmdBind" "never_fails (c_out c)"
  shows "OnRequestDefault onConnect onBind c req
     = (Some (UnknownCommand (Command4 req)),
        c\<lparr>c_out := (c_out c)\<lparr>w_out := w_out (c_out c) @ [0, 91, 0, 0, 0, 0, 0, 0],
                              w_calls := Suc (w_calls (c_out c))\<rparr>\<rparr>)"
  using assms
  by (simp add: OnRequestDefault_def sendReply_def Response4_WriteTo_def Response4_Init_def
      Response4_zero_def Write_ok ReqRejected_def PutUint16_def bytes4_def copy4_def IPv4zero_def
      IPv4_def To4_def slice_def v4InV6Prefix_def Let_def)

lemma ServeContext_append:
  "ServeContext cd opts (xs @ ys) = ServeContext cd opts xs @ ServeContext cd opts ys"
  by (induction cd opts xs rule: ServeContext.induct) simp_all

text \<open>
  C9, the code at a connection that sends the request \<open>04 03 00 50 01 02 03 04 00\<close>
  (command 3) to a listener with default options. \<open>req.ReadFrom\<close> validates the header
  and fails with \<open>ErrInvalidCommand\<close>, so the goroutine reports that error to
  \<open>OnError\<close> and closes the connection: nothing has been written to the client, and
  \<open>OnRequest\<close> is never called. The branch of \<open>OnRequestDefault\<close> that writes the
  rejected reply \<open>00 5B 00 00 00 00 00 00\<close> is taken only when the hook is called with
  such a request directly. The connections accepted before and after are handled as
  usual.
\<close>

theorem C9_unknown_command_no_reply:
  "(case handleConn connectDefault opts_default (conn_example [4, 3, 0, 80, 1, 2, 3, 4, 0]) of
      (errs, c') \<Rightarrow> (errs, w_out (c_out c'), c_closed c', c_in c'))
     = ([ErrInvalidCommand], [], True, [0]) \<and>
   (case OnRequestDefault onConnect onBind (conn_example [])
           (Request4_zero\<lparr>Version4 := 4, Command4 := 3, IP4 := (1, 2, 3, 4)\<rparr>) of
      (e, c') \<Rightarrow> (e, w_out (c_out c')))
     = (Some (UnknownCommand 3), [0, 91, 0, 0, 0, 0, 0, 0]) \<and>
   map fst (ServeContext connectDefault opts_default
              [Inr (conn_example [4, 3, 0, 80, 1, 2, 3, 4, 0]), Inr (conn_example [4, 2, 0, 80, 1, 2, 3, 4, 0])])
     = [[ErrInvalidCommand], []]"
proof -
  have a: "handleConn connectDefault opts_default (conn_example [4, 3, 0, 80, 1, 2, 3, 4, 0])
     = ([ErrInvalidCommand], (conn_example [4, 3, 0, 80, 1, 2, 3, 4, 0])\<lparr>c_in := [0], c_closed := True\<rparr>)"
    using handleConn_invalid_command [of opts_default "conn_example [4, 3, 0, 80, 1, 2, 3, 4, 0]" connectDefault]
    by (simp add: opts_default_def conn_example_def SocksVersion_def CmdConnect_def CmdBind_def)
  have b: "OnRequestDefault onConnect onBind (conn_example [])
           (Request4_zero\<lparr>Version4 := 4, Command4 := 3, IP4 := (1, 2, 3, 4)\<rparr>)
     = (Some (UnknownCommand 3),
        (conn_example [])\<lparr>c_out := buffer\<lparr>w_out := [0, 91, 0, 0, 0, 0, 0, 0], w_calls := Suc 0\<rparr>\<rparr>)"
    using OnRequestDefault_unknown [of "Request4_zero\<lparr>Version4 := 4, Command4 := 3, IP4 := (1, 2, 3, 4)\<rparr>"
        "conn_example []" onConnect onBind]
    by (simp add: conn_example_def CmdConnect_def CmdBind_def buffer_def never_fails_def)
  have c: "fst (handleConn connectDefault opts_default (conn_example [4, 2, 0, 80, 1, 2, 3, 4, 0])) = []"
    by code_simp
  show ?thesis
    using a b c by (auto simp: conn_example_def split: prod.splits)
qed

section \<open>Results about cancellation of a BIND call\<close>

lemma conn_ReadFrom_closed:
  "conn_ReadFrom c = Some (r, e, c') \<Longrightarrow> c_closed c' = c_closed c"
  by (auto simp: conn_ReadFrom_def split: if_splits prod.splits)

lemma conn_ReadFrom_on_closed:
  "c_closed c \<Longrightarrow> conn_ReadFrom c = Some (Response4_zero, Some ErrClosed, c)"
  by (simp add: conn_ReadFrom_def)

lemma conn_ReadFrom_blocked:
  "\<not> c_closed c \<Longrightarrow> length (c_in c) < 8 \<Longrightarrow> conn_ReadFrom c = None"
  by (simp add: conn_ReadFrom_def)

lemma step_after_return:
  assumes "\<not> watching s" "mainpc s = Returned a"
  shows "\<not> watching (step env d address ev s) \<and> mainpc (step env d address ev s) = Returned a \<and>
         c_closed (proxyConn (step env d address ev s)) = c_closed (proxyConn s)"
  using assms
  by (cases ev)
     (auto simp: step_def step_main_def step_watch_def step_ready_def
       dest: conn_ReadFrom_closed split: readypc.splits option.splits list.splits prod.splits)

lemma run_after_return:
  assumes "\<not> watching s" "mainpc s = Returned a"
  shows "\<not> watching (run env d address evs s) \<and> mainpc (run env d address evs s) = Returned a \<and>
         c_closed (proxyConn (run env d address evs s)) = c_closed (proxyConn s)"
  using assms
proof (induction evs arbitrary: s)
  case Nil
  then show ?case by simp
next
  case (Cons ev evs)
  have i: "\<not> watching (step env d address ev s)" "mainpc (step env d address ev s) = Returned a"
    "c_closed (proxyConn (step env d address ev s)) = c_closed (proxyConn s)"
    using step_after_return [OF Cons.prems] by simp_all
  show ?case
    using Cons.IH [OF i(1,2)] i(3) by simp
qed

lemma step_pending:
  assumes "\<not> watching s" "mainpc s = Returned a" "\<not> c_closed (proxyConn s)"
    "readypc s = Reading" "readyCh s = []" "length (c_in (proxyConn s)) < 8" "\<not> is_Arrive ev"
  shows "readypc (step env d address ev s) = Reading \<and> readyCh (step env d address ev s) = [] \<and>
         received (step env d address ev s) = received s \<and>
         c_in (proxyConn (step env d address ev s)) = c_in (proxyConn s)"
  using assms
  by (cases ev)
     (auto simp: step_def step_main_def step_watch_def step_ready_def is_Arrive_def
       conn_ReadFrom_blocked)

lemma run_pending:
  assumes "\<not> watching s" "mainpc s = Returned a" "\<not> c_closed (proxyConn s)"
    "readypc s = Reading" "readyCh s = []" "length (c_in (proxyConn s)) < 8"
    "\<forall>ev \<in> set evs. \<not> is_Arrive ev"
  shows "readypc (run env d address evs s) = Reading \<and> received (run env d address evs s) = received s"
  using assms
proof (induction evs arbitrary: s)
  case Nil
  then show ?case by simp
next
  case (Cons ev evs)
  let ?s = "step env d address ev s"
  have na: "\<not> is_Arrive ev" "\<forall>ev \<in> set evs. \<not> is_Arrive ev"
    using Cons.prems(7) by simp_all
  have i: "\<not> watching ?s" "mainpc ?s = Returned a" "c_closed (proxyConn ?s) = c_closed (proxyConn s)"
    using step_after_return [OF Cons.prems(1,2)] by simp_all
  have j: "readypc ?s = Reading" "readyCh ?s = []" "received ?s = received s"
    "c_in (proxyConn ?s) = c_in (proxyConn s)"
    using step_pending [OF Cons.prems(1-6) na(1)] by simp_all
  have "readypc (run env d address evs ?s) = Reading \<and>
        received (run env d address evs ?s) = received ?s"
    using Cons.IH [OF i(1,2) _ j(1,2) _ na(2)] i(3) j(4) Cons.prems(3,6) by simp
  then show ?case using j(3) by simp
qed

lemma return_closes_exitCh:
  assumes "mainpc s = AwaitFirst" "mainpc (step env d address Main s) = Returned a"
  shows "exitCh (step env d address Main s) \<and> readypc (step env d address Main s) = Reading"
  using assms
  by (auto simp: step_def step_main_def fail_def split: option.splits prod.splits if_splits)

lemma closed_fails_first_read:
  assumes "c_closed (proxyConn s)" "mainpc s = AwaitFirst"
  shows "mainpc (step env d address Main s) = Failed (ReadFirstBindResponse ErrClosed) \<and>
         readypc (step env d address Main s) = readypc s \<and>
         readyCh (step env d address Main s) = readyCh s"
  using assms by (simp add: step_def step_main_def fail_def conn_ReadFrom_on_closed)

lemma closed_fails_second_read:
  assumes "c_closed (proxyConn s)" "readypc s = Reading" "readyCh s = []"
  shows "readypc (step env d address Ready s)
           = Sending [Some (ReadSecondBindResponse ErrClosed),
                      Some (ProxyRejectedBindFinalization 0), None] \<and>
         received (run env d address [Ready, Ready, Receive] s)
           = received s @ [Some (ReadSecondBindResponse ErrClosed)]"
  using assms
  by (simp add: step_def step_ready_def conn_ReadFrom_on_closed readySends_def IsGranted_def
      Response4_zero_def RepGranted_def)


lemma run_append:
  "run env d address (xs @ ys) s = run env d address ys (run env d address xs s)"
  by (induction xs arbitrary: s) simp_all

text \<open>
  With the first reply already on an open connection, two steps of the body give what
  the sequential \<open>BindContext\<close> gives.
\<close>

lemma BindContext_run:
  assumes "proxy_dial env d network = Inr c" "\<not> c_closed c" "8 \<le> length (c_in c)"
  shows "BindContext env d network address =
     (let s = run env d address [Main, Main] (bind_start c) in
      case mainpc s of
        Returned a \<Rightarrow> (Some (proxyConn s), Some a, None, Some (proxyConn s))
      | Failed e \<Rightarrow> (None, None, Some e, Some (proxyConn s))
      | _ \<Rightarrow> (None, None, None, None))"
  using assms
  by (auto simp: BindContext_def proxy_dial_def Let_def step_def step_main_def bind_start_def
      fail_def conn_WriteTo_def conn_ReadFrom_def Close_def
      dest: Response4_ReadFrom_ok
      split: sum.splits prod.splits option.splits if_splits)

text \<open>
  Example schedules on a fresh connection: the request is sent, the granted first reply
  \<open>00 5A 00 50 01 02 03 04\<close> arrives, the body reads it and returns.
\<close>

definition env_bind :: netpkg where
  "env_bind = env_example (conn_example [])"

definition bind_returned :: "event list" where
  "bind_returned = [Main, Arrive [0, 90, 0, 80, 1, 2, 3, 4], Main]"

definition run_example :: "event list \<Rightarrow> bind" where
  "run_example evs = run env_bind dialer_example (ascii ''example.com:80'') evs (bind_start (conn_example []))"

lemma run_example_snoc:
  "step env_bind dialer_example (ascii ''example.com:80'') ev (run_example evs) = run_example (evs @ [ev])"
  "run env_bind dialer_example (ascii ''example.com:80'') evs' (run_example evs) = run_example (evs @ evs')"
  by (simp_all add: run_example_def run_append)

text \<open>
  C7, the code when the context is cancelled after \<open>BindContext\<close> has returned. The
  return runs the deferred \<open>close(exitCh)\<close>, on which the watcher leaves its
  \<open>select\<close>. From a state in which \<open>BindContext\<close> has returned the connection and the
  watcher has ended, no schedule of events, cancellation included, closes the proxy
  connection; and as long as no second reply arrives, the read of the readiness goroutine
  stays pending and nothing is received from \<open>readyCh\<close>.

  At the example: after the return \<open>exitCh\<close> is closed and the watcher is still in its
  \<open>select\<close>. In the first schedule the watcher ends, then the context is cancelled:
  the connection stays open and the read pending. In the second the context is cancelled
  before the watcher has run and the watcher takes the \<open>exitCh\<close> case: the connection
  stays open, and when a granted second reply arrives the caller receives \<open>nil\<close>. In
  the third the watcher takes the \<open>ctx.Done()\<close> case and closes the connection: the
  pending read fails and the caller receives the read error, a rejection error with code
  0, and \<open>nil\<close>.
\<close>

theorem C7_cancel_after_return:
  "(\<not> watching s \<and> mainpc s = Returned a \<longrightarrow>
      c_closed (proxyConn (run env d address evs s)) = c_closed (proxyConn s)) \<and>
   (\<not> watching s \<and> mainpc s = Returned a \<and> \<not> c_closed (proxyConn s) \<and> readypc s = Reading \<and>
    readyCh s = [] \<and> length (c_in (proxyConn s)) < 8 \<and> (\<forall>ev \<in> set evs. \<not> is_Arrive ev) \<longrightarrow>
      readypc (run env d address evs s) = Reading \<and>
      received (run env d address evs s) = received s) \<and>
   exitCh (run_example bind_returned) \<and>
   watching (run_example bind_returned) \<and>
   mainpc (run_example bind_returned) = Returned (Some [1, 2, 3, 4], 80) \<and>
   \<not> watching (run_example (bind_returned @ [WatchExit])) \<and>
   cancelled (run_example (bind_returned @ [WatchExit, Cancel, WatchDone, Ready, Receive])) \<and>
   \<not> c_closed (proxyConn (run_example (bind_returned @ [WatchExit, Cancel, WatchDone, Ready, Receive]))) \<and>
   readypc (run_example (bind_returned @ [WatchExit, Cancel, WatchDone, Ready, Receive])) = Reading \<and>
   received (run_example (bind_returned @ [WatchExit, Cancel, WatchDone, Ready, Receive])) = [] \<and>
   \<not> c_closed (proxyConn (run_example (bind_returned @
       [Cancel, WatchExit, WatchDone, Arrive [0, 90, 0, 80, 1, 2, 3, 4], Ready, Ready, Receive]))) \<and>
   received (run_example (bind_returned @
       [Cancel, WatchExit, WatchDone, Arrive [0, 90, 0, 80, 1, 2, 3, 4], Ready, Ready, Receive]))
     = [None] \<and>
   c_closed (proxyConn (run_example (bind_returned @
       [Cancel, WatchDone, Ready, Ready, Receive, Ready, Receive, Ready, Receive, Ready]))) \<and>
   received (run_example (bind_returned @
       [Cancel, WatchDone, Ready, Ready, Receive, Ready, Receive, Ready, Receive, Ready]))
     = [Some (ReadSecondBindResponse ErrClosed), Some (ProxyRejectedBindFinalization 0), None]"
proof -
  have 1: "\<not> watching s \<and> mainpc s = Returned a \<longrightarrow>
      c_closed (proxyConn (run env d address evs s)) = c_closed (proxyConn s)"
    using run_after_return by blast
  have 2: "\<not> watching s \<and> mainpc s = Returned a \<and> \<not> c_closed (proxyConn s) \<and> readypc s = Reading \<and>
    readyCh s = [] \<and> length (c_in (proxyConn s)) < 8 \<and> (\<forall>ev \<in> set evs. \<not> is_Arrive ev) \<longrightarrow>
      readypc (run env d address evs s) = Reading \<and>
      received (run env d address evs s) = received s"
    using run_pending by blast
  have 3: "exitCh (run_example bind_returned)"
    "watching (run_example bind_returned)"
    "mainpc (run_example bind_returned) = Returned (Some [1, 2, 3, 4], 80)"
    "\<not> watching (run_example (bind_returned @ [WatchExit]))"
    by code_simp+
  have 4: "cancelled (run_example (bind_returned @ [WatchExit, Cancel, WatchDone, Ready, Receive]))"
    "\<not> c_closed (proxyConn (run_example (bind_returned @ [WatchExit, Cancel, WatchDone, Ready, Receive])))"
    "readypc (run_example (bind_returned @ [WatchExit, Cancel, WatchDone, Ready, Receive])) = Reading"
    "received (run_example (bind_returned @ [WatchExit, Cancel, WatchDone, Ready, Receive])) = []"
    by code_simp+
  have 5: "\<not> c_closed (proxyConn (run_example (bind_returned @
       [Cancel, WatchExit, WatchDone, Arrive [0, 90, 0, 80, 1, 2, 3, 4], Ready, Ready, Receive])))"
    "received (run_example (bind_returned @
       [Cancel, WatchExit, WatchDone, Arrive [0, 90, 0, 80, 1, 2, 3, 4], Ready, Ready, Receive]))
     = [None]"
    by code_simp+
  have 6: "c_closed (proxyConn (run_example (bind_returned @
       [Cancel, WatchDone, Ready, Ready, Receive, Ready, Receive, Ready, Receive, Ready])))"
    "received (run_example (bind_returned @
       [Cancel, WatchDone, Ready, Ready, Receive, Ready, Receive, Ready, Receive, Ready]))
     = [Some (ReadSecondBindResponse ErrClosed), Some (ProxyRejectedBindFinalization 0), None]"
    by code_simp+
  show ?thesis
    using 1 2 3 4 5 6 by blast
qed

theorem C7_cancel_after_return_witness:
  "\<not> c_closed (proxyConn (run_example (bind_returned @
       [WatchExit, Cancel, WatchDone, Ready, Cancel, Receive, WatchExit, Main, WatchDone]))) \<and>
   readypc (run_example (bind_returned @
       [WatchExit, Cancel, WatchDone, Ready, Cancel, Receive, WatchExit, Main, WatchDone])) = Reading \<and>
   received (run_example (bind_returned @
       [WatchExit, Cancel, WatchDone, Ready, Cancel, Receive, WatchExit, Main, WatchDone])) = []"
proof -
  let ?a = "(Some [1, 2, 3, 4], 80) :: netIP \<times> nat"
  let ?evs = "[Cancel, WatchDone, Ready, Cancel, Receive, WatchExit, Main, WatchDone]"
  have h: "\<not> watching (run_example (bind_returned @ [WatchExit]))"
    "mainpc (run_example (bind_returned @ [WatchExit])) = Returned ?a"
    "readypc (run_example (bind_returned @ [WatchExit])) = Reading"
    "readyCh (run_example (bind_returned @ [WatchExit])) = []"
    "received (run_example (bind_returned @ [WatchExit])) = []"
    "length (c_in (proxyConn (run_example (bind_returned @ [WatchExit])))) < 8"
    "\<not> c_closed (proxyConn (run_example (bind_returned @ [WatchExit])))"
    "\<forall>ev \<in> set ?evs. \<not> is_Arrive ev"
    by code_simp+
  show ?thesis
    using C7_cancel_after_return [where s = "run_example (bind_returned @ [WatchExit])"
        and env = env_bind and d = dialer_example and address = "ascii ''example.com:80''"
        and evs = ?evs and a = ?a] h
    by (simp add: run_example_snoc)
qed

text \<open>
  A caller that keeps receiving from \<open>readyCh\<close> gets every value that the readiness
  goroutine sends: for the rejected second reply \<open>00 5B 00 50 01 02 03 04\<close> the
  rejection error and then \<open>nil\<close>, before the channel is closed.
\<close>

lemma rejected_second_reply_received:
  "received (run_example
      [Main, Arrive [0, 90, 0, 80, 1, 2, 3, 4], Main, WatchExit, Arrive [0, 91, 0, 80, 1, 2, 3, 4],
       Ready, Ready, Receive, Ready, Receive, Ready])
     = [Some (ProxyRejectedBindFinalization 91), None]"
  "readyCh_closed (run_example
      [Main, Arrive [0, 90, 0, 80, 1, 2, 3, 4], Main, WatchExit, Arrive [0, 91, 0, 80, 1, 2, 3, 4],
       Ready, Ready, Receive, Ready, Receive, Ready])"
  by code_simp+

end
